(* ===== verification/Dare_Prelude.thy ===== *)
theory Dare_Prelude
  imports Main "HOL-Library.Word"
begin

text \<open>
  Shared vocabulary of the development: the machine integer types of the C
  sources, the byte-addressed memory the log lives in, little-endian field
  access, and the generic lemmas on words, lists and majorities that the
  component theories use.
\<close>

unbundle bit_operations_syntax

section \<open>Machine integers\<close>

type_synonym u8 = "8 word"
type_synonym u16 = "16 word"
type_synonym u32 = "32 word"
type_synonym u64 = "64 word"

named_theorems layout_simps "offsets and lengths of structure fields"
named_theorems sid_simps "projections of state identifiers"
named_theorems mem_simps "reads after writes"

section \<open>Byte memory\<close>

text \<open>
  A buffer is a function from byte addresses to bytes.  \<open>load\<close> and \<open>store\<close>
  are \<^verbatim>\<open>memcpy\<close> out of and into it; \<open>fill\<close> is \<^verbatim>\<open>memset\<close>.
\<close>

type_synonym mem = "nat \<Rightarrow> u8"

definition load :: "mem \<Rightarrow> nat \<Rightarrow> nat \<Rightarrow> u8 list" where
  "load m a n = map (\<lambda>i. m (a + i)) [0..<n]"

definition store :: "mem \<Rightarrow> nat \<Rightarrow> u8 list \<Rightarrow> mem" where
  "store m a bs = (\<lambda>x. if a \<le> x \<and> x < a + length bs then bs ! (x - a) else m x)"

definition fill :: "mem \<Rightarrow> nat \<Rightarrow> u8 \<Rightarrow> nat \<Rightarrow> mem" where
  "fill m a b n = store m a (replicate n b)"

lemma length_load [simp]: "length (load m a n) = n"
  by (simp add: load_def)

lemma nth_load [simp]: "i < n \<Longrightarrow> load m a n ! i = m (a + i)"
  by (simp add: load_def)

lemma load_0 [simp]: "load m a 0 = []"
  by (simp add: load_def)

lemma store_Nil [simp]: "store m a [] = m"
  by (rule ext) (auto simp: store_def)

lemma store_outside [mem_simps]: "x < a \<or> a + length bs \<le> x \<Longrightarrow> store m a bs x = m x"
  by (auto simp: store_def)

lemma load_store_same [mem_simps]: "n = length bs \<Longrightarrow> load (store m a bs) a n = bs"
  by (rule nth_equalityI) (auto simp: store_def)

lemma load_store_disjoint [mem_simps]:
  "a + length bs \<le> b \<or> b + n \<le> a \<Longrightarrow> load (store m a bs) b n = load m b n"
  by (rule nth_equalityI) (auto simp: store_def)

lemma load_cong: "(\<And>x. a \<le> x \<Longrightarrow> x < a + n \<Longrightarrow> m x = m' x) \<Longrightarrow> load m a n = load m' a n"
  by (rule nth_equalityI) auto

lemma load_append: "load m a (n + k) = load m a n @ load m (a + n) k"
  by (rule nth_equalityI) (auto simp: nth_append)

lemma load_fill_same [mem_simps]: "load (fill m a b n) a n = replicate n b"
  by (simp add: fill_def load_store_same)

lemma load_fill_disjoint [mem_simps]:
  "a + k \<le> b \<or> b + n \<le> a \<Longrightarrow> load (fill m a c k) b n = load m b n"
  by (simp add: fill_def load_store_disjoint)

section \<open>Little-endian fields\<close>

text \<open>
  The targets of the system are x86-64 machines: a \<open>w\<close>-bit field is stored with
  its least significant byte first.
\<close>

fun to_le :: "nat \<Rightarrow> 'a::len word \<Rightarrow> u8 list" where
  "to_le 0 w = []"
| "to_le (Suc n) w = ucast w # to_le n (drop_bit 8 w)"

abbreviation le16 :: "u16 \<Rightarrow> u8 list" where "le16 \<equiv> to_le 2"
abbreviation le32 :: "u32 \<Rightarrow> u8 list" where "le32 \<equiv> to_le 4"
abbreviation le64 :: "u64 \<Rightarrow> u8 list" where "le64 \<equiv> to_le 8"

fun from_le :: "u8 list \<Rightarrow> 'a::len word" where
  "from_le [] = 0"
| "from_le (b # bs) = ucast b OR push_bit 8 (from_le bs)"

definition rd8 :: "mem \<Rightarrow> nat \<Rightarrow> u8" where
  "rd8 m a = m a"

definition rd16 :: "mem \<Rightarrow> nat \<Rightarrow> u16" where
  "rd16 m a = from_le (load m a 2)"

definition rd32 :: "mem \<Rightarrow> nat \<Rightarrow> u32" where
  "rd32 m a = from_le (load m a 4)"

definition rd64 :: "mem \<Rightarrow> nat \<Rightarrow> u64" where
  "rd64 m a = from_le (load m a 8)"

definition wr8 :: "mem \<Rightarrow> nat \<Rightarrow> u8 \<Rightarrow> mem" where
  "wr8 m a v = store m a [v]"

definition wr16 :: "mem \<Rightarrow> nat \<Rightarrow> u16 \<Rightarrow> mem" where
  "wr16 m a v = store m a (le16 v)"

definition wr32 :: "mem \<Rightarrow> nat \<Rightarrow> u32 \<Rightarrow> mem" where
  "wr32 m a v = store m a (le32 v)"

definition wr64 :: "mem \<Rightarrow> nat \<Rightarrow> u64 \<Rightarrow> mem" where
  "wr64 m a v = store m a (le64 v)"

lemmas rd_defs = rd8_def rd16_def rd32_def rd64_def
lemmas wr_defs = wr8_def wr16_def wr32_def wr64_def

lemma length_to_le [simp]: "length (to_le n w) = n"
  by (induction n arbitrary: w) auto

lemma from_le_to_le: "from_le (to_le n w) = take_bit (8 * n) w"
proof (induction n arbitrary: w)
  case 0
  show ?case by simp
next
  case (Suc n)
  show ?case
    by (rule bit_word_eqI) (auto simp: Suc bit_simps)
qed

lemma from_le_le [simp]:
  "from_le (le16 v) = v" "from_le (le32 w) = w" "from_le (le64 x) = x"
  by (simp_all add: from_le_to_le take_bit_word_eq_self)

lemma rd_wr_same [mem_simps]:
  "rd8 (wr8 m a b) a = b" "rd16 (wr16 m a v) a = v" "rd32 (wr32 m a w) a = w"
  "rd64 (wr64 m a x) a = x"
  by (simp_all add: rd_defs wr_defs mem_simps) (simp add: store_def)

section \<open>Keyed stores\<close>

text \<open>
  The contract the endpoint database and the key-value table share: an insertion
  affects its own key only.  \<open>comb\<close> says what an insertion does to a key that is there.
\<close>

locale keyed_store =
  fixes inv :: "'t \<Rightarrow> bool"
    and key_ok :: "'k \<Rightarrow> bool"
    and lookup :: "'t \<Rightarrow> 'k \<Rightarrow> 'v option"
    and ins :: "'k \<Rightarrow> 'v \<Rightarrow> 't \<Rightarrow> 't"
    and comb :: "'k \<Rightarrow> 'v option \<Rightarrow> 'v \<Rightarrow> 'v"
  assumes inv_ins: "inv t \<Longrightarrow> key_ok k \<Longrightarrow> inv (ins k v t)"
    and lookup_ins: "inv t \<Longrightarrow> key_ok k \<Longrightarrow> key_ok j \<Longrightarrow>
      lookup (ins k v t) j = (if j = k then Some (comb k (lookup t k) v) else lookup t j)"
begin

lemma inv_fold: "inv t \<Longrightarrow> (\<forall>k\<in>fst ` set kvs. key_ok k) \<Longrightarrow> inv (fold (\<lambda>(k, v). ins k v) kvs t)"
  by (induction kvs arbitrary: t) (auto simp: inv_ins)

lemma lookup_fold_other:
  "inv t \<Longrightarrow> (\<forall>k\<in>fst ` set kvs. key_ok k) \<Longrightarrow> key_ok j \<Longrightarrow> j \<notin> fst ` set kvs \<Longrightarrow>
     lookup (fold (\<lambda>(k, v). ins k v) kvs t) j = lookup t j"
  by (induction kvs arbitrary: t) (auto simp: inv_ins lookup_ins)

lemma ins_commute:
  "inv t \<Longrightarrow> key_ok k \<Longrightarrow> key_ok l \<Longrightarrow> key_ok j \<Longrightarrow> k \<noteq> l \<Longrightarrow>
     lookup (ins k v (ins l w t)) j = lookup (ins l w (ins k v t)) j"
  by (auto simp: lookup_ins inv_ins)

lemma lookup_fold_distinct:
  assumes "inv t" "\<forall>k\<in>fst ` set kvs. key_ok k" "distinct (map fst kvs)" "(k, v) \<in> set kvs"
  shows "lookup (fold (\<lambda>(k, v). ins k v) kvs t) k = Some (comb k (lookup t k) v)"
  using assms
proof (induction kvs arbitrary: t)
  case (Cons kv kvs)
  obtain k' v' where kv: "kv = (k', v')" by (cases kv)
  show ?case
  proof (cases "(k, v) = kv")
    case True
    then show ?thesis
      using Cons.prems lookup_fold_other [of "ins k v t" kvs k] kv
      by (auto simp: lookup_ins inv_ins)
  next
    case False
    then have "(k, v) \<in> set kvs" "k \<noteq> k'" using Cons.prems kv by (auto simp: image_iff)
    moreover have "key_ok k" using Cons.prems(2) calculation(1) by force
    ultimately show ?thesis
      using Cons.IH [of "ins k' v' t"] Cons.prems kv by (simp add: inv_ins lookup_ins)
  qed
qed simp

end

text \<open>A store from which a key can also be removed.\<close>

locale removable_store = keyed_store +
  fixes del :: "'k \<Rightarrow> 't \<Rightarrow> 't"
  assumes inv_del: "inv t \<Longrightarrow> key_ok k \<Longrightarrow> inv (del k t)"
    and lookup_del: "inv t \<Longrightarrow> key_ok k \<Longrightarrow> key_ok j \<Longrightarrow>
      lookup (del k t) j = (if j = k then None else lookup t j)"
begin

lemma del_ins:
  "inv t \<Longrightarrow> key_ok k \<Longrightarrow> key_ok j \<Longrightarrow> lookup t k = None \<Longrightarrow>
     lookup (del k (ins k v t)) j = lookup t j"
  by (auto simp: lookup_del inv_ins lookup_ins)

lemma ins_del:
  "inv t \<Longrightarrow> key_ok k \<Longrightarrow> lookup (ins k v (del k t)) k = Some (comb k None v)"
  by (simp add: inv_del lookup_del lookup_ins)

end

text \<open>An update at one index is evaluated where it is applied.\<close>

declare fun_upd_apply [code]

end
