(* ===== verification/Dare_Sid.thy ===== *)
theory Dare_Sid
  imports Dare_Prelude
begin

text \<open>
  The state identifier (SID) of \<^verbatim>\<open>include/dare/dare_server.h\<close>: a 64-bit value
  [TERM|L|IDX] with the server index in the 8 least significant bits, the leader
  flag in the 9th and the term in the remaining 55.  The macros become word
  operations; the lemmas say that the setters and getters are consistent, and
  that the order of SIDs as 64-bit integers is the lexicographic order of
  (term, leader flag, index), which is what the election compares.
\<close>

section \<open>The macros\<close>

definition SID_GET_IDX :: "u64 \<Rightarrow> u8" where
  "SID_GET_IDX sid = ucast (sid AND 0xFF)"

definition SID_SET_IDX :: "u64 \<Rightarrow> u8 \<Rightarrow> u64" where
  "SID_SET_IDX sid i = (ucast i OR push_bit 8 (drop_bit 8 sid))"

definition SID_GET_L :: "u64 \<Rightarrow> u64" where
  "SID_GET_L sid = sid AND push_bit 8 1"

definition SID_SET_L :: "u64 \<Rightarrow> u64" where
  "SID_SET_L sid = sid OR push_bit 8 1"

definition SID_UNSET_L :: "u64 \<Rightarrow> u64" where
  "SID_UNSET_L sid = sid AND NOT (push_bit 8 1)"

definition SID_GET_TERM :: "u64 \<Rightarrow> u64" where
  "SID_GET_TERM sid = drop_bit 9 sid"

definition SID_SET_TERM :: "u64 \<Rightarrow> u64 \<Rightarrow> u64" where
  "SID_SET_TERM sid t = (push_bit 9 t OR (sid AND 0x1FF))"

definition IS_SID_NEW :: "u64 \<Rightarrow> bool" where
  "IS_SID_NEW sid \<longleftrightarrow> SID_GET_L sid = 0 \<and> SID_GET_TERM sid = 0"

definition SID_NULL :: u64 where "SID_NULL = 0xFF"
definition SID_DEAD :: u64 where "SID_DEAD = 0xFFFFFFFFFFFFFFFF"

text \<open>The macros use the leader flag as a C truth value.\<close>

abbreviation has_L :: "u64 \<Rightarrow> bool" where
  "has_L sid \<equiv> SID_GET_L sid \<noteq> 0"

lemmas sid_defs = SID_GET_IDX_def SID_SET_IDX_def SID_GET_L_def SID_SET_L_def
  SID_UNSET_L_def SID_GET_TERM_def SID_SET_TERM_def

section \<open>Bits of the fields\<close>

lemma mask_consts: "(0xFF :: u64) = mask 8" "(0x1FF :: u64) = mask 9"
  by (simp_all add: mask_eq_exp_minus_1)

lemma bit_256: "bit (256 :: int) n \<longleftrightarrow> n = 8" "bit (- 257 :: int) n \<longleftrightarrow> n \<noteq> 8"
proof -
  have e: "(256 :: int) = 2 ^ 8" and ne: "(- 257 :: int) = NOT (2 ^ 8)"
    by (simp_all add: not_int_def)
  show "bit (256 :: int) n \<longleftrightarrow> n = 8"
    unfolding e by (simp only: bit_exp_iff) auto
  show "bit (- 257 :: int) n \<longleftrightarrow> n \<noteq> 8"
    unfolding ne by (simp only: bit_not_iff bit_exp_iff) auto
qed

lemma has_L_bit: "has_L sid \<longleftrightarrow> bit sid 8"
proof -
  have "sid AND push_bit 8 1 = (if bit sid 8 then 256 else 0)"
    by (rule bit_word_eqI) (auto simp: bit_simps bit_256)
  then show ?thesis by (simp add: SID_GET_L_def)
qed

lemma bit_SID_GET_IDX: "bit (SID_GET_IDX sid) n \<longleftrightarrow> n < 8 \<and> bit sid n"
  by (auto simp: SID_GET_IDX_def mask_consts bit_simps)

lemma bit_SID_SET_IDX:
  "bit (SID_SET_IDX sid i) n \<longleftrightarrow> n < 64 \<and> (if n < 8 then bit i n else bit sid n)"
  using bit_imp_le_length [of i n] by (auto simp: SID_SET_IDX_def bit_simps)

lemma bit_SID_SET_L: "bit (SID_SET_L sid) n \<longleftrightarrow> n < 64 \<and> (n = 8 \<or> bit sid n)"
  using bit_imp_le_length [of sid n] by (auto simp: SID_SET_L_def bit_simps bit_256)

lemma bit_SID_UNSET_L: "bit (SID_UNSET_L sid) n \<longleftrightarrow> n \<noteq> 8 \<and> bit sid n"
  using bit_imp_le_length [of sid n]
  by (simp add: SID_UNSET_L_def bit_and_iff bit_not_iff bit_256) auto

lemma bit_SID_GET_TERM: "bit (SID_GET_TERM sid) n \<longleftrightarrow> bit sid (n + 9)"
  by (simp add: SID_GET_TERM_def bit_simps add.commute)

lemma bit_SID_SET_TERM:
  "bit (SID_SET_TERM sid t) n \<longleftrightarrow> n < 64 \<and> (if n < 9 then bit sid n else bit t (n - 9))"
  by (auto simp: SID_SET_TERM_def mask_consts bit_simps)

lemmas sid_bits = bit_SID_GET_IDX bit_SID_SET_IDX bit_SID_SET_L bit_SID_UNSET_L
  bit_SID_GET_TERM bit_SID_SET_TERM

section \<open>Setters and getters\<close>

lemma SID_IDX_SET_IDX [sid_simps]: "SID_GET_IDX (SID_SET_IDX sid i) = i"
  by (rule bit_word_eqI) (simp add: sid_bits)

lemma SID_IDX_SET_L [sid_simps]: "SID_GET_IDX (SID_SET_L sid) = SID_GET_IDX sid"
  by (rule bit_word_eqI) (simp add: sid_bits)

lemma SID_IDX_UNSET_L [sid_simps]: "SID_GET_IDX (SID_UNSET_L sid) = SID_GET_IDX sid"
  by (rule bit_word_eqI) (simp add: sid_bits)

lemma SID_IDX_SET_TERM [sid_simps]: "SID_GET_IDX (SID_SET_TERM sid t) = SID_GET_IDX sid"
  by (rule bit_word_eqI) (simp add: sid_bits)

lemma has_L_SET_IDX [sid_simps]: "has_L (SID_SET_IDX sid i) \<longleftrightarrow> has_L sid"
  by (simp add: has_L_bit sid_bits)

lemma has_L_SET_L [sid_simps]: "has_L (SID_SET_L sid)"
  by (simp add: has_L_bit sid_bits)

lemma has_L_UNSET_L [sid_simps]: "\<not> has_L (SID_UNSET_L sid)"
  by (simp add: has_L_bit sid_bits)

lemma has_L_SET_TERM [sid_simps]: "has_L (SID_SET_TERM sid t) \<longleftrightarrow> has_L sid"
  by (simp add: has_L_bit sid_bits)

lemma SID_TERM_SET_IDX [sid_simps]: "SID_GET_TERM (SID_SET_IDX sid i) = SID_GET_TERM sid"
  by (rule bit_word_eqI) (auto simp: sid_bits dest: bit_imp_le_length)

lemma SID_TERM_SET_L [sid_simps]: "SID_GET_TERM (SID_SET_L sid) = SID_GET_TERM sid"
  by (rule bit_word_eqI) (auto simp: sid_bits dest: bit_imp_le_length)

lemma SID_TERM_UNSET_L [sid_simps]: "SID_GET_TERM (SID_UNSET_L sid) = SID_GET_TERM sid"
  by (rule bit_word_eqI) (auto simp: sid_bits dest: bit_imp_le_length)

text \<open>Only 55 bits of a term survive; a term below \<open>2 ^ 55\<close> is kept.\<close>

lemma SID_TERM_SET_TERM: "SID_GET_TERM (SID_SET_TERM sid t) = take_bit 55 t"
  by (rule bit_word_eqI) (auto simp: sid_bits bit_take_bit_iff)

lemma SID_GET_TERM_nat: "unat (SID_GET_TERM sid) = unat sid div 512"
  by (simp add: SID_GET_TERM_def unat_drop_bit_eq drop_bit_eq_div unat_div)

lemma SID_GET_TERM_bound: "unat (SID_GET_TERM sid) < 2 ^ 55"
  using unsigned_less [of sid, where 'a = nat] by (simp add: SID_GET_TERM_nat less_mult_imp_div_less)

lemma SID_TERM_SET_TERM_small [sid_simps]:
  "unat t < 2 ^ 55 \<Longrightarrow> SID_GET_TERM (SID_SET_TERM sid t) = t"
  by (metis SID_TERM_SET_TERM take_bit_nat_eq_self unsigned_take_bit_eq unsigned_word_eqI)

section \<open>A SID is determined by its fields, and its order is lexicographic\<close>

lemma sid_decompose:
  "unat sid = 512 * unat (SID_GET_TERM sid) + 256 * of_bool (has_L sid) + unat (SID_GET_IDX sid)"
proof -
  note t = SID_GET_TERM_nat [of sid]
  have i: "unat (SID_GET_IDX sid) = unat sid mod 256"
    by (simp add: SID_GET_IDX_def mask_consts unsigned_ucast_eq unsigned_take_bit_eq
        take_bit_eq_mod unat_mod flip: take_bit_eq_mask)
  have l: "has_L sid \<longleftrightarrow> odd (unat sid div 256)"
  proof -
    have "has_L sid \<longleftrightarrow> bit (unat sid) 8" by (simp add: has_L_bit bit_unsigned_iff)
    then show ?thesis by (simp add: bit_iff_odd)
  qed
  have "unat sid div 256 = 2 * (unat sid div 512) + unat sid div 256 mod 2"
    using div_mult2_eq [of "unat sid" 256 2] by simp
  then have "unat sid = 512 * (unat sid div 512) + 256 * (unat sid div 256 mod 2) + unat sid mod 256"
    using mult_div_mod_eq [of 256 "unat sid"] by linarith
  then show ?thesis
    unfolding t i l of_bool_odd_eq_mod_2 .
qed

lemma sid_eqI:
  assumes "SID_GET_TERM a = SID_GET_TERM b" "has_L a = has_L b" "SID_GET_IDX a = SID_GET_IDX b"
  shows "a = b"
proof -
  have "unat a = unat b"
    by (simp add: sid_decompose [of a] sid_decompose [of b] assms)
  then show ?thesis by (rule unsigned_word_eqI)
qed

text \<open>
  The comparison \<^verbatim>\<open>best_sid >= request->sid\<close> and its kin compare SIDs as integers.
\<close>

lemma sid_less_iff:
  "a < b \<longleftrightarrow> SID_GET_TERM a < SID_GET_TERM b \<or>
     SID_GET_TERM a = SID_GET_TERM b \<and>
       (\<not> has_L a \<and> has_L b \<or> has_L a = has_L b \<and> SID_GET_IDX a < SID_GET_IDX b)"
proof -
  let ?i = "\<lambda>s. unat (SID_GET_IDX s)" and ?t = "\<lambda>s. unat (SID_GET_TERM s)"
    and ?l = "\<lambda>s. 256 * of_bool (has_L s) :: nat"
  have bi: "?i s < 256" for s
    using unsigned_less [of "SID_GET_IDX s", where 'a = nat] by simp
  have "unat a < unat b \<longleftrightarrow> ?t a < ?t b \<or> ?t a = ?t b \<and>
     (\<not> has_L a \<and> has_L b \<or> has_L a = has_L b \<and> ?i a < ?i b)"
    using bi [of a] bi [of b] sid_decompose [of a] sid_decompose [of b]
    by (cases "has_L a"; cases "has_L b"; simp; arith)
  then show ?thesis
    by (simp add: word_less_nat_alt word_unat_eq_iff)
qed

lemma SID_SET_L_gt: "\<not> has_L sid \<Longrightarrow> sid < SID_SET_L sid"
  by (simp add: sid_less_iff [of sid "SID_SET_L sid"] sid_simps)

lemma SID_SET_L_ge: "sid \<le> SID_SET_L sid"
proof (cases "has_L sid")
  case True
  then have "sid = SID_SET_L sid" by - (rule sid_eqI; simp add: sid_simps)
  then show ?thesis by simp
next
  case False
  then show ?thesis using SID_SET_L_gt [of sid] by simp
qed

end
