(* ===== verification/Dare_Config.thy ===== *)
theory Dare_Config
  imports Dare_Prelude
begin

text \<open>
  The group configuration of \<^verbatim>\<open>include/dare/dare_config.h\<close>: configuration
  identifiers, the bit mask of servers that are on, and the two group sizes the
  protocol distinguishes.
\<close>

section \<open>Configuration identifiers\<close>

definition CID_STABLE :: u8 where "CID_STABLE = 0"
definition CID_TRANSIT :: u8 where "CID_TRANSIT = 1"
definition CID_EXTENDED :: u8 where "CID_EXTENDED = 2"

definition MAX_SERVER_COUNT :: nat where "MAX_SERVER_COUNT = 13"

lemmas cid_states = CID_STABLE_def CID_TRANSIT_def CID_EXTENDED_def

record dare_cid =
  epoch :: u64
  size0 :: u8
  size1 :: u8
  cstate :: u8
  bitmask :: u32

text \<open>
  \<^verbatim>\<open>CID_IS_SERVER_ON\<close>, \<^verbatim>\<open>CID_SERVER_ADD\<close> and \<^verbatim>\<open>CID_SERVER_RM\<close> shift a 1 by the server
  index; indices are below 32 in a 32-bit mask.
\<close>

definition CID_IS_SERVER_ON :: "dare_cid \<Rightarrow> u8 \<Rightarrow> bool" where
  "CID_IS_SERVER_ON c i \<longleftrightarrow> bitmask c AND push_bit (unat i) 1 \<noteq> 0"

definition CID_SERVER_ADD :: "dare_cid \<Rightarrow> u8 \<Rightarrow> dare_cid" where
  "CID_SERVER_ADD c i = c\<lparr>bitmask := bitmask c OR push_bit (unat i) 1\<rparr>"

definition CID_SERVER_RM :: "dare_cid \<Rightarrow> u8 \<Rightarrow> dare_cid" where
  "CID_SERVER_RM c i = c\<lparr>bitmask := bitmask c AND NOT (push_bit (unat i) 1)\<rparr>"

definition equal_cid :: "dare_cid \<Rightarrow> dare_cid \<Rightarrow> bool" where
  "equal_cid l r =
     (if epoch l \<noteq> epoch r then False
      else if cstate l \<noteq> cstate r then False
      else if size0 l \<noteq> size0 r then False
      else if size1 l \<noteq> size1 r then False
      else if bitmask l \<noteq> bitmask r then False
      else True)"

lemma equal_cid_iff: "equal_cid l r \<longleftrightarrow> l = r"
  by (auto simp: equal_cid_def)

lemma CID_IS_SERVER_ON_bit: "CID_IS_SERVER_ON c i \<longleftrightarrow> bit (bitmask c) (unat i)"
proof -
  have "bit (bitmask c AND push_bit (unat i) 1) n \<longleftrightarrow> n = unat i \<and> bit (bitmask c) n" for n
    by (auto simp: bit_simps dest: bit_imp_le_length)
  then show ?thesis
    unfolding CID_IS_SERVER_ON_def by (metis bit_eq_iff bit_0_eq bot_apply bot_bool_def)
qed

lemma CID_SERVER_ADD_on:
  "unat i < 32 \<Longrightarrow> CID_IS_SERVER_ON (CID_SERVER_ADD c i) j \<longleftrightarrow> j = i \<or> CID_IS_SERVER_ON c j"
  by (auto simp: CID_IS_SERVER_ON_bit CID_SERVER_ADD_def bit_simps word_unat_eq_iff
      dest: bit_imp_le_length)

lemma CID_SERVER_RM_on:
  "CID_IS_SERVER_ON (CID_SERVER_RM c i) j \<longleftrightarrow> j \<noteq> i \<and> CID_IS_SERVER_ON c j"
  by (auto simp: CID_IS_SERVER_ON_bit CID_SERVER_RM_def bit_simps word_unat_eq_iff
      dest: bit_imp_le_length)

lemma cid_frame [simp]:
  "epoch (CID_SERVER_ADD c i) = epoch c" "size0 (CID_SERVER_ADD c i) = size0 c"
  "size1 (CID_SERVER_ADD c i) = size1 c" "cstate (CID_SERVER_ADD c i) = cstate c"
  "epoch (CID_SERVER_RM c i) = epoch c" "size0 (CID_SERVER_RM c i) = size0 c"
  "size1 (CID_SERVER_RM c i) = size1 c" "cstate (CID_SERVER_RM c i) = cstate c"
  by (simp_all add: CID_SERVER_ADD_def CID_SERVER_RM_def)

section \<open>Group sizes\<close>

text \<open>
  \<^verbatim>\<open>get_extended_group_size\<close> and \<^verbatim>\<open>get_group_size\<close> take the whole
  \<^verbatim>\<open>server_config_t\<close> by value and look at its configuration identifier only.
\<close>

definition get_extended_group_size :: "dare_cid \<Rightarrow> u8" where
  "get_extended_group_size c =
     (if CID_STABLE = cstate c then size0 c
      else if size0 c < size1 c then size1 c
      else size0 c)"

definition get_group_size :: "dare_cid \<Rightarrow> u8" where
  "get_group_size c =
     (if CID_TRANSIT \<noteq> cstate c then size0 c
      else if size0 c < size1 c then size1 c
      else size0 c)"

lemma get_group_size_le_extended: "get_group_size c \<le> get_extended_group_size c"
  by (auto simp: get_group_size_def get_extended_group_size_def cid_states)

lemma get_group_size_le_max:
  "unat (size0 c) \<le> n \<Longrightarrow> unat (size1 c) \<le> n \<Longrightarrow> unat (get_extended_group_size c) \<le> n"
  by (auto simp: get_extended_group_size_def)

end
