(* ===== verification/Dare_Log.thy ===== *)
theory Dare_Log
  imports Dare_Config "HOL-Library.Monad_Syntax"
begin

text \<open>
  The replicated log of \<^verbatim>\<open>include/dare/dare_log.h\<close>, translated function by
  function.  The log is a circular byte buffer: entries are structures laid out
  at byte offsets of \<open>log_entries\<close>, read and written field by field, so that an
  entry which overlaps another, or the header of an entry left at the end of the
  buffer when its command continues at offset 0, are what they are in memory.
  A pointer to an entry is its byte address in the buffer; NULL is \<open>None\<close>.  Offsets are 64-bit words and
  their arithmetic wraps.  The loops are partial functions into \<open>option\<close>, with
  \<open>None\<close> for a loop that does not end; theory \<open>Dare_Log_Walk\<close> proves that they do
  end on a well-formed log.
\<close>

section \<open>Data\<close>

definition NOOP :: u8 where "NOOP = 0"
definition CSM :: u8 where "CSM = 1"
definition CONFIG :: u8 where "CONFIG = 2"
definition HEAD :: u8 where "HEAD = 3"

lemmas entry_types = NOOP_def CSM_def CONFIG_def HEAD_def

text \<open>
  The layout of \<^verbatim>\<open>dare_log_entry_t\<close>: three 64-bit fields, the client's LID, the type,
  the sender, 13 reply bytes, 7 bytes of padding, and the data union (16 bytes,
  the size of \<^verbatim>\<open>dare_cid_t\<close>) at offset 48.  A command is a 16-bit length followed by its
  bytes, which run past the structure.
\<close>

definition sizeof_entry :: nat where "sizeof_entry = 64"
definition off_idx :: nat where "off_idx = 0"
definition off_term :: nat where "off_term = 8"
definition off_req_id :: nat where "off_req_id = 16"
definition off_clt_id :: nat where "off_clt_id = 24"
definition off_type :: nat where "off_type = 26"
definition off_sender :: nat where "off_sender = 27"
definition off_reply :: nat where "off_reply = 28"
definition off_data :: nat where "off_data = 48"
definition off_cmd :: nat where "off_cmd = 50"
definition sizeof_cid :: nat where "sizeof_cid = 16"

lemmas layout [layout_simps] = sizeof_entry_def off_idx_def off_term_def off_req_id_def
  off_clt_id_def off_type_def off_sender_def off_reply_def off_data_def off_cmd_def
  sizeof_cid_def MAX_SERVER_COUNT_def

datatype entry_data = D_noop | D_cmd "u8 list" | D_cid dare_cid | D_head u64

record dare_log_entry =
  e_idx :: u64
  e_term :: u64
  e_req_id :: u64
  e_clt_id :: u16
  e_type :: u8
  e_sender :: u8
  e_reply :: "u8 list"
  e_data :: entry_data

record dare_log_entry_det =
  det_idx :: u64
  det_term :: u64
  det_offset :: u64

definition MAX_NC_ENTRIES :: nat where "MAX_NC_ENTRIES = 1024"

record dare_nc_buf =
  nc_len :: u64
  nc_entries :: "nat \<Rightarrow> dare_log_entry_det"

record log_offsets =
  lo_head :: u64
  lo_apply :: u64
  lo_commit :: u64
  lo_end :: u64

record dare_log =
  log_head :: u64
  log_apply :: u64
  log_commit :: u64
  log_end :: u64
  log_tail :: u64
  log_old_end :: u64
  log_old_commit :: u64
  log_len :: u64
  log_nc_buf :: "nat \<Rightarrow> dare_nc_buf"
  log_entries :: mem

definition LOG_SIZE :: u64 where "LOG_SIZE = 16384 * 4096"

text \<open>What a C function does beyond its defined behaviour is an error value.\<close>

datatype log_error = Out_of_bounds | Uninitialised

section \<open>Fields of an entry\<close>

definition entry_idx :: "mem \<Rightarrow> nat \<Rightarrow> u64" where
  "entry_idx m p = rd64 m (p + off_idx)"

definition entry_term :: "mem \<Rightarrow> nat \<Rightarrow> u64" where
  "entry_term m p = rd64 m (p + off_term)"

definition entry_req_id :: "mem \<Rightarrow> nat \<Rightarrow> u64" where
  "entry_req_id m p = rd64 m (p + off_req_id)"

definition entry_clt_id :: "mem \<Rightarrow> nat \<Rightarrow> u16" where
  "entry_clt_id m p = rd16 m (p + off_clt_id)"

definition entry_type :: "mem \<Rightarrow> nat \<Rightarrow> u8" where
  "entry_type m p = rd8 m (p + off_type)"

definition entry_reply :: "mem \<Rightarrow> nat \<Rightarrow> nat \<Rightarrow> u8" where
  "entry_reply m p i = rd8 m (p + off_reply + i)"

definition entry_cmd_len :: "mem \<Rightarrow> nat \<Rightarrow> u16" where
  "entry_cmd_len m p = rd16 m (p + off_data)"

definition entry_head :: "mem \<Rightarrow> nat \<Rightarrow> u64" where
  "entry_head m p = rd64 m (p + off_data)"

definition entry_cmd :: "mem \<Rightarrow> nat \<Rightarrow> u8 list" where
  "entry_cmd m p = load m (p + off_cmd) (unat (entry_cmd_len m p))"

text \<open>\<^verbatim>\<open>dare_cid_t\<close> in memory: epoch, the two sizes, the state, one byte of padding, the mask.\<close>

definition cid_bytes :: "dare_cid \<Rightarrow> u8 list" where
  "cid_bytes c = le64 (epoch c) @ [size0 c, size1 c, cstate c, 0] @ le32 (bitmask c)"

definition cid_of_bytes :: "u8 list \<Rightarrow> dare_cid" where
  "cid_of_bytes bs = \<lparr>epoch = from_le (take 8 bs), size0 = bs ! 8, size1 = bs ! 9,
     cstate = bs ! 10, bitmask = from_le (take 4 (drop 12 bs))\<rparr>"

definition entry_cid :: "mem \<Rightarrow> nat \<Rightarrow> dare_cid" where
  "entry_cid m p = cid_of_bytes (load m (p + off_data) sizeof_cid)"

text \<open>The structure an entry pointer designates, read as a whole.\<close>

definition entry_at :: "mem \<Rightarrow> nat \<Rightarrow> dare_log_entry" where
  "entry_at m p = \<lparr>e_idx = entry_idx m p, e_term = entry_term m p, e_req_id = entry_req_id m p,
     e_clt_id = entry_clt_id m p, e_type = entry_type m p, e_sender = rd8 m (p + off_sender),
     e_reply = load m (p + off_reply) MAX_SERVER_COUNT,
     e_data = (if entry_type m p = NOOP then D_noop
               else if entry_type m p = CONFIG then D_cid (entry_cid m p)
               else if entry_type m p = HEAD then D_head (entry_head m p)
               else D_cmd (entry_cmd m p))\<rparr>"

text \<open>\<^verbatim>\<open>sm_cmd_t\<close> in memory: the length, then the command.\<close>

definition cmd_bytes :: "u8 list \<Rightarrow> u8 list" where
  "cmd_bytes c = le16 (of_nat (length c)) @ c"

section \<open>The log's own functions\<close>

text \<open>
  \<^verbatim>\<open>log_new\<close>: the argument says whether \<^verbatim>\<open>malloc\<close> succeeded.
\<close>

definition log_new :: "bool \<Rightarrow> dare_log option" where
  "log_new malloc_ok =
     (if \<not> malloc_ok then None
      else let len = LOG_SIZE in
        Some \<lparr>log_head = 0, log_apply = 0, log_commit = 0, log_end = len, log_tail = len,
          log_old_end = len, log_old_commit = 0, log_len = len,
          log_nc_buf = (\<lambda>_. \<lparr>nc_len = 0, nc_entries = (\<lambda>_. \<lparr>det_idx = 0, det_term = 0, det_offset = 0\<rparr>)\<rparr>),
          log_entries = (\<lambda>_. 0)\<rparr>)"

definition is_log_empty :: "dare_log \<Rightarrow> bool" where
  "is_log_empty log \<longleftrightarrow> log_end log = log_len log"

definition is_log_full :: "dare_log \<Rightarrow> bool" where
  "is_log_full log \<longleftrightarrow> log_end log = log_head log"

definition not_committed_entries :: "dare_log \<Rightarrow> bool" where
  "not_committed_entries log \<longleftrightarrow> \<not> is_log_empty log \<and> log_commit log \<noteq> log_end log"

definition not_applied_entries :: "dare_log \<Rightarrow> bool" where
  "not_applied_entries log \<longleftrightarrow> \<not> is_log_empty log \<and> log_apply log \<noteq> log_commit log"

definition log_fit_entry_header :: "dare_log \<Rightarrow> u64 \<Rightarrow> bool" where
  "log_fit_entry_header log offset \<longleftrightarrow> log_len log - offset \<ge> of_nat sizeof_entry"

definition log_add_new_entry :: "dare_log \<Rightarrow> nat option" where
  "log_add_new_entry log =
     (if is_log_full log then None
      else if is_log_empty log \<or> \<not> log_fit_entry_header log (log_end log) then Some 0
      else Some (unat (log_end log)))"

definition log_entry_len :: "mem \<Rightarrow> nat \<Rightarrow> u32" where
  "log_entry_len m p =
     (if entry_type m p = NOOP \<or> entry_type m p = CONFIG \<or> entry_type m p = HEAD
      then of_nat sizeof_entry
      else of_nat sizeof_entry + ucast (entry_cmd_len m p))"

definition log_fit_entry :: "dare_log \<Rightarrow> u64 \<Rightarrow> nat \<Rightarrow> bool" where
  "log_fit_entry log offset p \<longleftrightarrow>
     log_len log - offset \<ge> ucast (log_entry_len (log_entries log) p)"

definition log_offset_end_distance :: "dare_log \<Rightarrow> u64 \<Rightarrow> u64" where
  "log_offset_end_distance log offset =
     (if log_end log = log_len log then 0
      else if log_end log \<ge> offset then log_end log - offset
      else log_len log - (offset - log_end log))"

definition log_is_offset_larger :: "dare_log \<Rightarrow> u64 \<Rightarrow> u64 \<Rightarrow> bool" where
  "log_is_offset_larger log loffset roffset =
     (let e = log_end log;
          a = (if e = log_len log then 0
               else if e \<ge> loffset then e - loffset else log_len log - (loffset - e));
          b = (if e = log_len log then 0
               else if e \<ge> roffset then e - roffset else log_len log - (roffset - e))
      in a < b)"

text \<open>
  \<^verbatim>\<open>log_get_entry\<close> takes the offset by reference: the result is the pointer and the
  offset after the call.
\<close>

definition log_get_entry :: "dare_log \<Rightarrow> u64 \<Rightarrow> nat option \<times> u64" where
  "log_get_entry log offset =
     (if is_log_empty log then (None, offset)
      else if 0 = log_offset_end_distance log offset then (None, offset)
      else let offset' = (if \<not> log_fit_entry_header log offset then 0 else offset)
           in (Some (unat offset'), offset'))"

section \<open>NC-buffers\<close>

text \<open>The loop of \<^verbatim>\<open>log_entries_to_nc_buf\<close>; \<open>nc_entries\<close> has room for \<open>MAX_NC_ENTRIES\<close>.\<close>

partial_function (option) log_entries_to_nc_buf_loop ::
  "dare_log \<Rightarrow> u64 \<Rightarrow> u64 \<Rightarrow> dare_nc_buf \<Rightarrow> (log_error + dare_nc_buf) option" where
  "log_entries_to_nc_buf_loop log offset len nc_buf =
     (case log_get_entry log offset of
        (None, offset1) \<Rightarrow> Some (Inr (nc_buf\<lparr>nc_len := len\<rparr>))
      | (Some entry, offset1) \<Rightarrow>
          if MAX_NC_ENTRIES \<le> unat len then Some (Inl Out_of_bounds)
          else
            let m = log_entries log;
                det = \<lparr>det_idx = entry_idx m entry, det_term = entry_term m entry, det_offset = offset1\<rparr>;
                nc_buf' = nc_buf\<lparr>nc_entries := (nc_entries nc_buf)(unat len := det)\<rparr>;
                offset2 = (if \<not> log_fit_entry log offset1 entry then 0 else offset1)
            in log_entries_to_nc_buf_loop log (offset2 + ucast (log_entry_len m entry)) (len + 1) nc_buf')"

definition log_entries_to_nc_buf :: "dare_log \<Rightarrow> dare_nc_buf \<Rightarrow> (log_error + dare_nc_buf) option" where
  "log_entries_to_nc_buf log nc_buf = log_entries_to_nc_buf_loop log (log_commit log) 0 nc_buf"

text \<open>
  The \<^verbatim>\<open>for\<close> loop of \<^verbatim>\<open>log_find_remote_end_offset\<close> over the indices \<open>i\<close>, with \<open>n\<close> iterations to
  go.  The variable \<^verbatim>\<open>offset\<close> is not initialised before the loop: \<open>None\<close> until then.
\<close>

fun log_find_remote_end_loop ::
  "dare_log \<Rightarrow> dare_nc_buf \<Rightarrow> nat \<Rightarrow> nat \<Rightarrow> u64 option \<Rightarrow> log_error + u64" where
  "log_find_remote_end_loop log nc_buf i 0 offset =
     (case offset of None \<Rightarrow> Inl Uninitialised | Some v \<Rightarrow> Inr v)"
| "log_find_remote_end_loop log nc_buf i (Suc n) offset =
     (if MAX_NC_ENTRIES \<le> i then Inl Out_of_bounds
      else let m = log_entries log; det = nc_entries nc_buf i in
        (case log_get_entry log (det_offset det) of
           (None, offset1) \<Rightarrow> Inr offset1
         | (Some entry, offset1) \<Rightarrow>
             if entry_idx m entry \<noteq> det_idx det \<or> entry_term m entry \<noteq> det_term det
             then Inr offset1
             else let offset2 = (if \<not> log_fit_entry log offset1 entry then 0 else offset1)
                  in log_find_remote_end_loop log nc_buf (Suc i) n
                       (Some (offset2 + ucast (log_entry_len m entry)))))"

definition log_find_remote_end_offset :: "dare_log \<Rightarrow> dare_nc_buf \<Rightarrow> log_error + u64" where
  "log_find_remote_end_offset log nc_buf =
     log_find_remote_end_loop log nc_buf 0 (unat (nc_len nc_buf)) None"

section \<open>The tail\<close>

text \<open>One of the three identical loops of \<^verbatim>\<open>log_get_tail\<close>.\<close>

partial_function (option) log_tail_loop :: "dare_log \<Rightarrow> u64 \<Rightarrow> u64 \<Rightarrow> u64 option" where
  "log_tail_loop log offset tail =
     (case log_get_entry log offset of
        (None, offset1) \<Rightarrow> Some tail
      | (Some entry, offset1) \<Rightarrow>
          let offset2 = (if \<not> log_fit_entry log offset1 entry then 0 else offset1)
          in log_tail_loop log (offset2 + ucast (log_entry_len (log_entries log) entry)) offset1)"

definition log_get_tail :: "dare_log \<Rightarrow> u64 option" where
  "log_get_tail log =
     (if log_tail log \<noteq> log_len log then Some (log_tail log)
      else if is_log_empty log then Some (log_len log)
      else do {
        tail \<leftarrow> log_tail_loop log (log_commit log) (log_len log);
        if tail \<noteq> log_len log then Some tail
        else do {
          tail \<leftarrow> log_tail_loop log (log_apply log) tail;
          if tail \<noteq> log_len log then Some tail
          else log_tail_loop log (log_head log) tail
        }
      })"

section \<open>Appending\<close>

text \<open>
  The header fields as the code writes them, in its order; \<^verbatim>\<open>sender\<close> is not written.
\<close>

definition write_entry_header ::
  "mem \<Rightarrow> nat \<Rightarrow> u64 \<Rightarrow> u64 \<Rightarrow> u64 \<Rightarrow> u16 \<Rightarrow> u8 \<Rightarrow> mem" where
  "write_entry_header m p idx trm req_id clt_id typ =
     (let m1 = wr64 m (p + off_idx) idx;
          m2 = wr64 m1 (p + off_term) trm;
          m3 = wr64 m2 (p + off_req_id) req_id;
          m4 = wr16 m3 (p + off_clt_id) clt_id;
          m5 = wr8 m4 (p + off_type) typ
      in fill m5 (p + off_reply) 0 MAX_SERVER_COUNT)"

definition cmd_len_of :: "u8 list \<Rightarrow> u16" where
  "cmd_len_of data = from_le (take 2 data)"

definition copy_cmd :: "mem \<Rightarrow> nat \<Rightarrow> u8 list \<Rightarrow> mem" where
  "copy_cmd m p data =
     (if cmd_len_of data \<noteq> 0
      then store m (p + off_cmd) (take (unat (entry_cmd_len m p)) (drop 2 data))
      else m)"

text \<open>
  The \<^verbatim>\<open>default\<close> case of the switch: the length, the second attempt at offset 0 when the
  command does not fit, and the copy.  \<open>None\<close> is the early \<^verbatim>\<open>return 0\<close>.
\<close>

definition append_cmd ::
  "dare_log \<Rightarrow> nat \<Rightarrow> u64 \<Rightarrow> u64 \<Rightarrow> u64 \<Rightarrow> u16 \<Rightarrow> u8 \<Rightarrow> u8 list \<Rightarrow> dare_log \<times> nat option" where
  "append_cmd log entry idx trm req_id clt_id typ data =
     (let m1 = wr16 (log_entries log) (entry + off_data) (cmd_len_of data);
          log1 = log\<lparr>log_entries := m1\<rparr>
      in if \<not> log_fit_entry log1 (log_end log1) entry
         then let log2 = log1\<lparr>log_end := 0\<rparr> in
           (case log_add_new_entry log2 of
              None \<Rightarrow> (log2, None)
            | Some entry2 \<Rightarrow>
                let m2 = write_entry_header (log_entries log2) entry2 idx trm req_id clt_id typ;
                    m3 = wr16 m2 (entry2 + off_data) (cmd_len_of data)
                in (log2\<lparr>log_entries := copy_cmd m3 entry2 data\<rparr>, Some entry2))
         else (log1\<lparr>log_entries := copy_cmd m1 entry data\<rparr>, Some entry))"

text \<open>
  The switch on the entry type: \<open>data\<close> are the bytes the argument points at.
\<close>

definition append_data ::
  "dare_log \<Rightarrow> nat \<Rightarrow> u64 \<Rightarrow> u64 \<Rightarrow> u64 \<Rightarrow> u16 \<Rightarrow> u8 \<Rightarrow> u8 list \<Rightarrow> dare_log \<times> nat option" where
  "append_data log entry idx trm req_id clt_id typ data =
     (let m = log_entries log in
      if typ = CONFIG
      then (log\<lparr>log_entries := store m (entry + off_data) (take sizeof_cid data)\<rparr>, Some entry)
      else if typ = HEAD
      then (log\<lparr>log_entries := wr64 m (entry + off_data) (from_le (take 8 data))\<rparr>, Some entry)
      else if typ = NOOP then (log, Some entry)
      else append_cmd log entry idx trm req_id clt_id typ data)"

definition append_entry_at ::
  "dare_log \<Rightarrow> nat \<Rightarrow> u64 \<Rightarrow> u64 \<Rightarrow> u64 \<Rightarrow> u16 \<Rightarrow> u8 \<Rightarrow> u8 list \<Rightarrow> u64 \<times> dare_log" where
  "append_entry_at log entry idx trm req_id clt_id typ data =
     (let log2 = log\<lparr>log_entries := write_entry_header (log_entries log) entry idx trm req_id clt_id typ\<rparr>;
          log3 = (if \<not> log_fit_entry_header log2 (log_end log2) then log2\<lparr>log_end := 0\<rparr> else log2)
      in (case append_data log3 entry idx trm req_id clt_id typ data of
            (log4, None) \<Rightarrow> (0, log4)
          | (log4, Some p) \<Rightarrow>
              let log5 = log4\<lparr>log_tail := log_end log4\<rparr>
              in (idx, log5\<lparr>log_end := log_end log5 + ucast (log_entry_len (log_entries log5) p)\<rparr>)))"

definition next_idx :: "dare_log \<Rightarrow> u64" where
  "next_idx log =
     (case fst (log_get_entry log (log_tail log)) of
        None \<Rightarrow> 1
      | Some last_entry \<Rightarrow> entry_idx (log_entries log) last_entry + 1)"

text \<open>
  \<^verbatim>\<open>log_append_entry\<close>: \<open>prev_head\<close> is the global \<^verbatim>\<open>prev_log_entry_head\<close>.  The result is the
  returned index (0 when the log is full), the log and the global.
\<close>

definition log_append_entry ::
  "dare_log \<Rightarrow> bool \<Rightarrow> u64 \<Rightarrow> u64 \<Rightarrow> u16 \<Rightarrow> u8 \<Rightarrow> u8 list \<Rightarrow> (u64 \<times> dare_log \<times> bool) option" where
  "log_append_entry log prev_head trm req_id clt_id typ data = do {
     let prev_head' = (if typ \<noteq> HEAD then False else prev_head);
     tail \<leftarrow> (if log_tail log = log_len log then log_get_tail log else Some (log_tail log));
     let log1 = log\<lparr>log_tail := tail\<rparr>;
     let idx = next_idx log1;
     case log_add_new_entry log1 of
       None \<Rightarrow> Some (0, log1, prev_head')
     | Some entry \<Rightarrow>
         let (ret, log2) = append_entry_at log1 entry idx trm req_id clt_id typ data
         in Some (ret, log2, prev_head')
   }"

declare log_entries_to_nc_buf_loop.simps [code] log_tail_loop.simps [code]

end
