(* ===== verification/Dare_Ep_Db.thy ===== *)
theory Dare_Ep_Db
  imports Dare_Prelude
begin

text \<open>
  The endpoint database of \<^verbatim>\<open>dare_ep_db.c\<close>: client endpoints keyed by LID in the
  red-black tree of \<^verbatim>\<open>utils/rbtree/src/rbtree.c\<close>.  A node with its parent pointers is a
  zipper: the subtree and the path to the root, innermost step first.  The lemmas
  say that insertion keeps the tree sorted and balanced, that the recolouring loop
  never follows a missing grandparent, and that the database is a map from LIDs.
\<close>

section \<open>Red-black trees with a path to the root\<close>

datatype color = Red | Black

datatype 'a rbt = Leaf | Node (lft: "'a rbt") color 'a (rgt: "'a rbt")

text \<open>\<open>L c x r\<close>: the node below is the left child of \<open>x\<close>; \<open>R l c x\<close>: it is the right child.\<close>

datatype 'a step = L color 'a "'a rbt" | R "'a rbt" color 'a

fun plug :: "'a rbt \<Rightarrow> 'a step list \<Rightarrow> 'a rbt" where
  "plug t [] = t"
| "plug t (L c x r # p) = plug (Node t c x r) p"
| "plug t (R l c x # p) = plug (Node l c x t) p"

fun is_red :: "'a rbt \<Rightarrow> bool" where
  "is_red (Node l Red x r) = True"
| "is_red t = False"

fun set_black :: "'a rbt \<Rightarrow> 'a rbt" where
  "set_black Leaf = Leaf"
| "set_black (Node l c x r) = Node l Black x r"

text \<open>
  \<^verbatim>\<open>__rb_insert\<close>: the node \<open>x\<close> with children \<open>l\<close>, \<open>r\<close> is red; \<open>None\<close> is the dereference of a
  missing grandparent.
\<close>

fun rb_insert :: "'a rbt \<Rightarrow> 'a \<Rightarrow> 'a rbt \<Rightarrow> 'a step list \<Rightarrow> 'a rbt option" where
  "rb_insert l x r [] = Some (Node l Black x r)"
| "rb_insert l x r (L Black px pr # p) = Some (plug (Node l Red x r) (L Black px pr # p))"
| "rb_insert l x r (R pl Black px # p) = Some (plug (Node l Red x r) (R pl Black px # p))"
| "rb_insert l x r [L Red px pr] = None"
| "rb_insert l x r [R pl Red px] = None"
| "rb_insert l x r (L Red px pr # L gc gx gr # p) =
     (if is_red gr
      then rb_insert (Node (Node l Red x r) Black px pr) gx (set_black gr) p
      else Some (plug (Node (Node l Red x r) gc px (Node (set_black pr) Red gx gr)) p))"
| "rb_insert l x r (R pl Red px # L gc gx gr # p) =
     (if is_red gr
      then rb_insert (Node pl Black px (Node l Red x r)) gx (set_black gr) p
      else Some (plug (Node (Node pl Red px (set_black l)) gc x (Node (set_black r) Red gx gr)) p))"
| "rb_insert l x r (R pl Red px # R gl gc gx # p) =
     (if is_red gl
      then rb_insert (set_black gl) gx (Node pl Black px (Node l Red x r)) p
      else Some (plug (Node (Node gl Red gx (set_black pl)) gc px (Node l Red x r)) p))"
| "rb_insert l x r (L Red px pr # R gl gc gx # p) =
     (if is_red gl
      then rb_insert (set_black gl) gx (Node (Node l Red x r) Black px pr) p
      else Some (plug (Node (Node gl Red gx (set_black l)) gc x (Node (set_black r) Red px pr)) p))"

fun inorder :: "'a rbt \<Rightarrow> 'a list" where
  "inorder Leaf = []"
| "inorder (Node l c x r) = inorder l @ x # inorder r"

fun before :: "'a step list \<Rightarrow> 'a list" where
  "before [] = []"
| "before (L c x r # p) = before p"
| "before (R l c x # p) = before p @ inorder l @ [x]"

fun after :: "'a step list \<Rightarrow> 'a list" where
  "after [] = []"
| "after (L c x r # p) = x # inorder r @ after p"
| "after (R l c x # p) = after p"

lemma inorder_plug: "inorder (plug t p) = before p @ inorder t @ after p"
  by (induction t p rule: plug.induct) auto

lemma inorder_set_black [simp]: "inorder (set_black t) = inorder t"
  by (cases t) auto

lemma inorder_rb_insert:
  "rb_insert l x r p = Some t \<Longrightarrow> inorder t = before p @ inorder l @ [x] @ inorder r @ after p"
  by (induction l x r p rule: rb_insert.induct) (auto simp: inorder_plug split: if_splits)

section \<open>Balance\<close>

fun rb_ok :: "'a rbt \<Rightarrow> nat \<Rightarrow> bool" where
  "rb_ok Leaf h \<longleftrightarrow> h = 0"
| "rb_ok (Node l Black x r) h \<longleftrightarrow> (\<exists>k. h = Suc k \<and> rb_ok l k \<and> rb_ok r k)"
| "rb_ok (Node l Red x r) h \<longleftrightarrow> \<not> is_red l \<and> \<not> is_red r \<and> rb_ok l h \<and> rb_ok r h"

fun top_black :: "'a step list \<Rightarrow> bool" where
  "top_black [] = False"
| "top_black (L c x r # p) = (c = Black)"
| "top_black (R l c x # p) = (c = Black)"

fun path_ok :: "'a step list \<Rightarrow> nat \<Rightarrow> bool" where
  "path_ok [] h \<longleftrightarrow> True"
| "path_ok (L Black x r # p) h \<longleftrightarrow> rb_ok r h \<and> path_ok p (Suc h)"
| "path_ok (R l Black x # p) h \<longleftrightarrow> rb_ok l h \<and> path_ok p (Suc h)"
| "path_ok (L Red x r # p) h \<longleftrightarrow> rb_ok r h \<and> \<not> is_red r \<and> top_black p \<and> path_ok p h"
| "path_ok (R l Red x # p) h \<longleftrightarrow> rb_ok l h \<and> \<not> is_red l \<and> top_black p \<and> path_ok p h"

lemma plug_ok:
  "rb_ok t h \<Longrightarrow> path_ok p h \<Longrightarrow> (is_red t \<Longrightarrow> top_black p) \<Longrightarrow>
     (\<exists>h'. rb_ok (plug t p) h') \<and> \<not> is_red (plug t p)"
proof (induction p arbitrary: t h)
  case Nil
  then show ?case by auto
next
  case (Cons s p)
  show ?case
  proof (cases s)
    case (L c x r)
    then show ?thesis
      using Cons.prems Cons.IH [of "Node t c x r" "if c = Black then Suc h else h"]
      by (cases c) auto
  next
    case (R l c x)
    then show ?thesis
      using Cons.prems Cons.IH [of "Node l c x t" "if c = Black then Suc h else h"]
      by (cases c) auto
  qed
qed

lemma not_red_set_black [simp]: "\<not> is_red t \<Longrightarrow> set_black t = t"
  by (cases t rule: is_red.cases) auto

lemma set_black_ok: "is_red t \<Longrightarrow> rb_ok t h \<Longrightarrow> rb_ok (set_black t) (Suc h)"
  by (cases t rule: is_red.cases) auto

lemma set_black_not_red [simp]: "\<not> is_red (set_black t)"
  by (cases t) auto

lemma rb_insert_ok:
  "rb_ok l h \<Longrightarrow> rb_ok r h \<Longrightarrow> \<not> is_red l \<Longrightarrow> \<not> is_red r \<Longrightarrow> path_ok p h \<Longrightarrow>
     \<exists>t h'. rb_insert l x r p = Some t \<and> rb_ok t h' \<and> \<not> is_red t"
proof (induction l x r p arbitrary: h rule: rb_insert.induct)
  case (1 l x r)
  then show ?case by (intro exI [of _ "Node l Black x r"] exI [of _ "Suc h"]) auto
next
  case (2 l x r px pr p)
  then show ?case using plug_ok [of "Node (Node l Red x r) Black px pr" "Suc h" p] by auto
next
  case (3 l x r pl px p)
  then show ?case using plug_ok [of "Node pl Black px (Node l Red x r)" "Suc h" p] by auto
next
  case (6 l x r px pr gc gx gr p)
  show ?case
    using "6.IH" [of "Suc h"] "6.prems" plug_ok [of "Node (Node l Red x r) gc px (Node (set_black pr) Red gx gr)" "Suc h" p]
    by (auto simp: set_black_ok)
next
  case (7 l x r pl px gc gx gr p)
  show ?case
    using "7.IH" [of "Suc h"] "7.prems" plug_ok [of "Node (Node pl Red px (set_black l)) gc x (Node (set_black r) Red gx gr)" "Suc h" p]
    by (auto simp: set_black_ok)
next
  case (8 l x r pl px gl gc gx p)
  show ?case
    using "8.IH" [of "Suc h"] "8.prems" plug_ok [of "Node (Node gl Red gx (set_black pl)) gc px (Node l Red x r)" "Suc h" p]
    by (auto simp: set_black_ok)
next
  case (9 l x r px pr gl gc gx p)
  show ?case
    using "9.IH" [of "Suc h"] "9.prems" plug_ok [of "Node (Node gl Red gx (set_black l)) gc x (Node (set_black r) Red px pr)" "Suc h" p]
    by (auto simp: set_black_ok)
qed auto

section \<open>Endpoints\<close>

type_synonym gid = "u8 list"

record ud_ep =
  ud_lid :: u16
  ud_gid :: gid
  ud_qpn :: u32
  ud_ah :: bool

record dare_ep =
  ep_ud :: ud_ep
  last_read_request :: "u8 list"
  wait_for_idx :: u64
  last_req_id :: u64
  ep_cid_idx :: u64
  committed :: bool

abbreviation ep_lid :: "dare_ep \<Rightarrow> u16" where "ep_lid ep \<equiv> ud_lid (ep_ud ep)"

type_synonym ep_tree = "dare_ep rbt"

fun ep_search :: "ep_tree \<Rightarrow> u16 \<Rightarrow> dare_ep option" where
  "ep_search Leaf lid = None"
| "ep_search (Node l c ep r) lid =
     (if lid < ep_lid ep then ep_search l lid
      else if lid > ep_lid ep then ep_search r lid
      else Some ep)"

text \<open>
  The descent of \<^verbatim>\<open>ep_insert\<close>: the path to the link where the new node goes, or \<open>None\<close> when
  the LID is there.
\<close>

fun ep_link :: "ep_tree \<Rightarrow> u16 \<Rightarrow> dare_ep step list \<Rightarrow> dare_ep step list option" where
  "ep_link Leaf lid p = Some p"
| "ep_link (Node l c ep r) lid p =
     (if lid < ep_lid ep then ep_link l lid (L c ep r # p)
      else if lid > ep_lid ep then ep_link r lid (R l c ep # p)
      else None)"

text \<open>
  \<^verbatim>\<open>malloc\<close> leaves \<^verbatim>\<open>last_read_request\<close> and the queue pair number undefined: \<open>raw\<close> is what the
  allocation holds.  \<open>ah\<close> is whether \<^verbatim>\<open>ud_ah_create\<close> returned an address handle.
\<close>

definition new_ep :: "dare_ep \<Rightarrow> bool \<Rightarrow> u16 \<Rightarrow> gid \<Rightarrow> dare_ep" where
  "new_ep raw ah lid dest_gid =
     raw\<lparr>ep_ud := (ep_ud raw)\<lparr>ud_lid := lid, ud_gid := dest_gid, ud_ah := ah\<rparr>,
         last_req_id := 0, ep_cid_idx := 0, committed := False, wait_for_idx := 0\<rparr>"

text \<open>\<^verbatim>\<open>ep_insert\<close>: the new endpoint (NULL when the LID is there) and the tree.\<close>

definition ep_insert :: "ep_tree \<Rightarrow> dare_ep \<Rightarrow> bool \<Rightarrow> u16 \<Rightarrow> gid \<Rightarrow> (dare_ep option \<times> ep_tree) option" where
  "ep_insert root raw ah lid dest_gid =
     (case ep_link root lid [] of
        None \<Rightarrow> Some (None, root)
      | Some p \<Rightarrow>
          let ep = new_ep raw ah lid dest_gid in
          map_option (\<lambda>t. (Some ep, t)) (rb_insert Leaf ep Leaf p))"

fun rb_map :: "('a \<Rightarrow> 'a) \<Rightarrow> 'a rbt \<Rightarrow> 'a rbt" where
  "rb_map f Leaf = Leaf"
| "rb_map f (Node l c x r) = Node (rb_map f l) c (f x) (rb_map f r)"

text \<open>The loop of \<^verbatim>\<open>ep_dp_reset_wait_idx\<close> over all nodes.\<close>

definition ep_dp_reset_wait_idx :: "ep_tree \<Rightarrow> ep_tree" where
  "ep_dp_reset_wait_idx root = rb_map (\<lambda>ep. ep\<lparr>wait_for_idx := 0\<rparr>) root"

text \<open>
  Assignment through the pointer \<^verbatim>\<open>ep_search\<close> returned: the node of that LID is replaced.
\<close>

definition ep_update :: "ep_tree \<Rightarrow> u16 \<Rightarrow> (dare_ep \<Rightarrow> dare_ep) \<Rightarrow> ep_tree" where
  "ep_update root lid f = rb_map (\<lambda>ep. if ep_lid ep = lid then f ep else ep) root"

section \<open>The database is a map from LIDs\<close>

definition lids :: "ep_tree \<Rightarrow> u16 list" where
  "lids t = map ep_lid (inorder t)"

definition ep_db_inv :: "ep_tree \<Rightarrow> bool" where
  "ep_db_inv t \<longleftrightarrow> sorted_wrt (<) (lids t) \<and> (\<exists>h. rb_ok t h) \<and> \<not> is_red t"

definition ep_map :: "ep_tree \<Rightarrow> u16 \<Rightarrow> dare_ep option" where
  "ep_map t = map_of (map (\<lambda>ep. (ep_lid ep, ep)) (inorder t))"

lemma lids_simps [simp]: "lids Leaf = []" "lids (Node l c x r) = lids l @ ep_lid x # lids r"
  by (simp_all add: lids_def)

lemma ep_map_None: "ep_map t lid = None \<longleftrightarrow> lid \<notin> set (lids t)"
  by (force simp: ep_map_def lids_def map_of_eq_None_iff)

lemma ep_map_Node:
  "ep_map (Node l c x r) = ep_map r ++ [ep_lid x \<mapsto> x] ++ ep_map l"
  by (simp add: ep_map_def fun_eq_iff map_add_def split: option.splits)

lemma ep_search_map: "sorted_wrt (<) (lids t) \<Longrightarrow> ep_search t lid = ep_map t lid"
proof (induction t)
  case Leaf
  then show ?case by (simp add: ep_map_def)
next
  case (Node l c x r)
  have l: "lid \<in> set (lids l) \<Longrightarrow> lid < ep_lid x" and r: "lid \<in> set (lids r) \<Longrightarrow> ep_lid x < lid"
    using Node.prems by (auto simp: sorted_wrt_append)
  have "lid < ep_lid x \<Longrightarrow> ep_map r lid = None" "\<not> lid < ep_lid x \<Longrightarrow> ep_map l lid = None"
    using l r by (auto simp: ep_map_None)
  then show ?case
    using Node by (auto simp: ep_map_Node sorted_wrt_append map_add_def split: option.splits)
qed

lemma ep_link_None: "sorted_wrt (<) (lids t) \<Longrightarrow> ep_link t lid p = None \<longleftrightarrow> lid \<in> set (lids t)"
proof (induction t arbitrary: p)
  case Leaf
  then show ?case by simp
next
  case (Node l c x r)
  then show ?case by (auto simp: sorted_wrt_append dest: less_asym)
qed

lemma ep_link_split:
  "ep_link t lid p = Some q \<Longrightarrow> sorted_wrt (<) (lids t) \<Longrightarrow>
   \<exists>u v. before q = before p @ u \<and> after q = v @ after p \<and> inorder t = u @ v \<and>
     (\<forall>e\<in>set u. ep_lid e < lid) \<and> (\<forall>e\<in>set v. lid < ep_lid e)"
proof (induction t arbitrary: p)
  case Leaf
  then show ?case by auto
next
  case (Node l c x r)
  have s: "sorted_wrt (<) (lids l)" "sorted_wrt (<) (lids r)"
    "\<forall>e\<in>set (inorder l). ep_lid e < ep_lid x" "\<forall>e\<in>set (inorder r). ep_lid x < ep_lid e"
    using Node.prems(2) by (auto simp: sorted_wrt_append lids_def)
  show ?case
  proof (cases "lid < ep_lid x")
    case True
    then obtain u v where "before q = before p @ u" "after q = v @ x # inorder r @ after p"
      "inorder l = u @ v" "\<forall>e\<in>set u. ep_lid e < lid" "\<forall>e\<in>set v. lid < ep_lid e"
      using Node.IH(1) [of "L c x r # p"] Node.prems(1) s(1) by auto
    then show ?thesis
      using s True by (intro exI [of _ u] exI [of _ "v @ x # inorder r"]) (auto intro: less_trans)
  next
    case False
    then have gt: "ep_lid x < lid" and "ep_link r lid (R l c x # p) = Some q"
      using Node.prems(1) by (auto split: if_splits)
    then obtain u v where "before q = before p @ inorder l @ x # u" "after q = v @ after p"
      "inorder r = u @ v" "\<forall>e\<in>set u. ep_lid e < lid" "\<forall>e\<in>set v. lid < ep_lid e"
      using Node.IH(2) [of "R l c x # p"] s(2) by auto
    then show ?thesis
      using s gt by (intro exI [of _ "inorder l @ x # u"] exI [of _ v]) (auto intro: less_trans)
  qed
qed

lemma ep_link_path_ok:
  "ep_link t lid p = Some q \<Longrightarrow> rb_ok t h \<Longrightarrow> path_ok p h \<Longrightarrow> (is_red t \<Longrightarrow> top_black p) \<Longrightarrow> path_ok q 0"
proof (induction t arbitrary: p h)
  case Leaf
  then show ?case by simp
next
  case (Node l c x r)
  show ?case
    using Node.prems Node.IH(1) [of "L c x r # p" "if c = Black then h - 1 else h"]
      Node.IH(2) [of "R l c x # p" "if c = Black then h - 1 else h"]
    by (cases c) (auto split: if_splits)
qed

section \<open>What insertion guarantees\<close>

lemma ep_insert_spec:
  assumes "ep_db_inv t"
  shows "\<exists>r t'. ep_insert t raw ah lid g = Some (r, t') \<and> ep_db_inv t' \<and>
     r = (if lid \<in> dom (ep_map t) then None else Some (new_ep raw ah lid g)) \<and>
     ep_map t' = (if lid \<in> dom (ep_map t) then ep_map t else (ep_map t)(lid \<mapsto> new_ep raw ah lid g))"
proof -
  obtain h where srt: "sorted_wrt (<) (lids t)" and h: "rb_ok t h" "\<not> is_red t"
    using assms by (auto simp: ep_db_inv_def)
  have dom: "lid \<in> dom (ep_map t) \<longleftrightarrow> lid \<in> set (lids t)" using ep_map_None [of t lid] by auto
  show ?thesis
  proof (cases "ep_link t lid []")
    case None
    then have "lid \<in> dom (ep_map t)" using ep_link_None [OF srt, of lid "[]"] dom by simp
    then show ?thesis using None assms by (simp add: ep_insert_def)
  next
    case (Some q)
    let ?ep = "new_ep raw ah lid g"
    have lid: "ep_lid ?ep = lid" by (simp add: new_ep_def)
    obtain u v where uv: "before q = u" "after q = v" "inorder t = u @ v"
      "\<forall>e\<in>set u. ep_lid e < lid" "\<forall>e\<in>set v. lid < ep_lid e"
      using ep_link_split [OF Some srt] by auto
    have "path_ok q 0" using ep_link_path_ok [OF Some h(1)] h(2) by simp
    then obtain t' h' where t': "rb_insert Leaf ?ep Leaf q = Some t'" "rb_ok t' h'" "\<not> is_red t'"
      using rb_insert_ok [of Leaf 0 Leaf q ?ep] by auto
    have io: "inorder t' = u @ ?ep # v" using inorder_rb_insert [OF t'(1)] uv by simp
    have "sorted_wrt (<) (lids t')"
      using srt uv lid by (auto simp: lids_def io sorted_wrt_append)
    then have inv': "ep_db_inv t'" using t' by (auto simp: ep_db_inv_def)
    have nin: "lid \<notin> set (lids t)" using ep_link_None [OF srt, of lid "[]"] Some by simp
    then have "map_of (map (\<lambda>ep. (ep_lid ep, ep)) u) lid = None"
      by (force simp: map_of_eq_None_iff lids_def uv(3))
    then have "ep_map t' = (ep_map t)(lid \<mapsto> ?ep)"
      by (auto simp: ep_map_def io uv(3) lid fun_eq_iff map_add_def split: option.splits)
    then show ?thesis using Some t'(1) inv' nin dom by (simp add: ep_insert_def Let_def)
  qed
qed

text \<open>Insertion as a total function on well-formed trees, for the interface below.\<close>

definition ep_put :: "u16 \<Rightarrow> dare_ep \<Rightarrow> ep_tree \<Rightarrow> ep_tree" where
  "ep_put lid raw t = snd (the (ep_insert t raw (ud_ah (ep_ud raw)) lid (ud_gid (ep_ud raw))))"

definition ep_comb :: "u16 \<Rightarrow> dare_ep option \<Rightarrow> dare_ep \<Rightarrow> dare_ep" where
  "ep_comb lid old raw =
     (case old of None \<Rightarrow> new_ep raw (ud_ah (ep_ud raw)) lid (ud_gid (ep_ud raw)) | Some ep \<Rightarrow> ep)"

interpretation epdb: keyed_store ep_db_inv "\<lambda>_. True" ep_search ep_put ep_comb
proof
  fix t :: ep_tree and k j :: u16 and v :: dare_ep
  assume inv: "ep_db_inv t"
  obtain r t' where t': "ep_insert t v (ud_ah (ep_ud v)) k (ud_gid (ep_ud v)) = Some (r, t')" "ep_db_inv t'"
    "ep_map t' = (if k \<in> dom (ep_map t) then ep_map t
       else (ep_map t)(k \<mapsto> new_ep v (ud_ah (ep_ud v)) k (ud_gid (ep_ud v))))"
    using ep_insert_spec [OF inv] by blast
  then show "ep_db_inv (ep_put k v t)" by (simp add: ep_put_def)
  have "ep_search t' j = ep_map t' j" "\<And>i. ep_search t i = ep_map t i"
    using t'(2) inv by (auto simp: ep_db_inv_def ep_search_map)
  then show "ep_search (ep_put k v t) j
      = (if j = k then Some (ep_comb k (ep_search t k) v) else ep_search t j)"
    using t' by (auto simp: ep_put_def ep_comb_def split: option.splits)
qed

text \<open>Updates through a pointer and the reset loop keep the shape and the keys.\<close>

lemma rb_map_shape:
  "is_red (rb_map f t) = is_red t" "rb_ok (rb_map f t) h = rb_ok t h" "inorder (rb_map f t) = map f (inorder t)"
proof -
  show r: "is_red (rb_map f t) = is_red t" for t :: "'a rbt"
    by (cases t rule: is_red.cases) auto
  show "rb_ok (rb_map f t) h = rb_ok t h"
    by (induction t h rule: rb_ok.induct) (auto simp: r)
  show "inorder (rb_map f t) = map f (inorder t)" by (induction t) auto
qed

lemma rb_map_inv:
  assumes "ep_db_inv t" "\<And>ep. ep_lid (f ep) = ep_lid ep"
  shows "ep_db_inv (rb_map f t)" "ep_search (rb_map f t) lid = map_option f (ep_search t lid)"
proof -
  have "lids (rb_map f t) = lids t" by (simp add: lids_def rb_map_shape assms(2))
  then show inv: "ep_db_inv (rb_map f t)" using assms(1) by (simp add: ep_db_inv_def rb_map_shape)
  show "ep_search (rb_map f t) lid = map_option f (ep_search t lid)"
    by (induction t) (auto simp: assms(2))
qed

section \<open>Properties\<close>

text \<open>C10: inserting an endpoint keeps the database a balanced search tree (the recolouring
  loop always finds a grandparent), returns NULL exactly for a LID that is there, and
  otherwise maps the LID to the fresh endpoint and leaves every other LID alone.\<close>

theorem ep_insert_correct:
  assumes "ep_db_inv t"
  shows "\<exists>r t'. ep_insert t raw ah lid g = Some (r, t') \<and> ep_db_inv t' \<and>
     (r = None \<longleftrightarrow> ep_search t lid \<noteq> None) \<and>
     (\<forall>j. ep_search t' j = (if j = lid \<and> ep_search t lid = None then Some (new_ep raw ah lid g)
                            else ep_search t j))"
proof -
  obtain r t' where t': "ep_insert t raw ah lid g = Some (r, t')" "ep_db_inv t'"
     "r = (if lid \<in> dom (ep_map t) then None else Some (new_ep raw ah lid g))"
     "ep_map t' = (if lid \<in> dom (ep_map t) then ep_map t else (ep_map t)(lid \<mapsto> new_ep raw ah lid g))"
    using ep_insert_spec [OF assms] by blast
  have "ep_search t' = ep_map t'" "ep_search t = ep_map t"
    using t'(2) assms by (auto simp: fun_eq_iff ep_db_inv_def ep_search_map)
  then show ?thesis using t' by (auto split: if_splits)
qed

definition demo_ep :: dare_ep where
  "demo_ep = \<lparr>ep_ud = \<lparr>ud_lid = 0, ud_gid = [], ud_qpn = 0, ud_ah = True\<rparr>, last_read_request = [],
     wait_for_idx = 5, last_req_id = 7, ep_cid_idx = 0, committed = True\<rparr>"

lemma ep_insert_correct_witness:
  "\<exists>r t'. ep_insert (Node Leaf Black (new_ep demo_ep True 4 []) Leaf) demo_ep True 9 [] = Some (r, t') \<and>
     ep_db_inv t' \<and> r \<noteq> None \<and> ep_search t' 9 = Some (new_ep demo_ep True 9 []) \<and>
     ep_search t' 4 = Some (new_ep demo_ep True 4 [])"
proof -
  let ?t = "Node Leaf Black (new_ep demo_ep True 4 []) Leaf"
  have lid: "ep_lid (new_ep demo_ep True 4 []) = 4" by (simp add: new_ep_def)
  have "ep_db_inv ?t" by (simp add: ep_db_inv_def)
  moreover have "ep_search ?t 9 = None" "ep_search ?t 4 = Some (new_ep demo_ep True 4 [])"
    by (simp_all add: lid)
  ultimately show ?thesis
    using ep_insert_correct [of ?t demo_ep True 9 "[]"] by auto
qed

end
