(* ===== verification/Dare_State.thy ===== *)
theory Dare_State
  imports Complex_Main Dare_Sid Dare_Config Dare_Log Dare_Ep_Db
begin

text \<open>
  The state of a server: the structures of \<^verbatim>\<open>dare_server.h\<close>, \<^verbatim>\<open>dare_config.h\<close> and
  \<^verbatim>\<open>dare_ibv.h\<close> and the globals of \<^verbatim>\<open>dare_server.c\<close> and \<^verbatim>\<open>dare_ibv_rc.c\<close>, as records.  Arrays
  of \<open>MAX_SERVER_COUNT\<close> elements are functions of the index.

  What is not the repository's code is the record \<open>'e ibv\<close> of functions on an unknown
  environment \<open>'e\<close>: the verbs library (posting a work request, polling a completion
  queue, moving a queue pair), the event loop's clock and the callbacks of the
  proxy.  Remote servers write into a server's control data and log by RDMA; in the
  model such writes become visible when a completion queue is polled, and between
  two callbacks of the event loop.
\<close>

section \<open>Structures\<close>

record rem_mem =
  raddr :: u64
  rkey :: u32

definition RC_QP_ACTIVE :: u8 where "RC_QP_ACTIVE = 0"
definition RC_QP_BLOCKED :: u8 where "RC_QP_BLOCKED = 1"
definition RC_QP_ERROR :: u8 where "RC_QP_ERROR = 2"

lemmas qp_states = RC_QP_ACTIVE_def RC_QP_BLOCKED_def RC_QP_ERROR_def

record rc_qp =
  signaled_wr_id :: u64
  rqpn :: u32
  send_count :: u32
  qp_state :: u8

definition LOG_QP :: nat where "LOG_QP = 1"
definition CTRL_QP :: nat where "CTRL_QP = 0"

lemmas qp_ids = LOG_QP_def CTRL_QP_def

record ib_ep =
  ib_ud :: ud_ep
  rmt_mr :: "nat \<Rightarrow> rem_mem"
  rc_qps :: "nat \<Rightarrow> rc_qp"
  ib_mtu :: u32
  rc_connected :: bool
  log_access :: bool

text \<open>Log replication steps.\<close>

definition LR_GET_WRITE :: u8 where "LR_GET_WRITE = 1"
definition LR_GET_NCE_LEN :: u8 where "LR_GET_NCE_LEN = 2"
definition LR_GET_NCE :: u8 where "LR_GET_NCE = 3"
definition LR_SET_END :: u8 where "LR_SET_END = 4"
definition LR_UPDATE_LOG :: u8 where "LR_UPDATE_LOG = 5"
definition LR_UPDATE_END :: u8 where "LR_UPDATE_END = 6"

lemmas lr_steps = LR_GET_WRITE_def LR_GET_NCE_LEN_def LR_GET_NCE_def LR_SET_END_def
  LR_UPDATE_LOG_def LR_UPDATE_END_def

definition PERMANENT_FAILURE :: u8 where "PERMANENT_FAILURE = 2"

record server =
  next_wr_id :: u64
  cached_end_offset :: u64
  last_get_read_ssn :: u64
  srv_ep :: ib_ep
  fail_count :: u8
  next_lr_step :: u8
  send_flag :: bool
  lr_send_count :: u8

record server_config =
  cid :: dare_cid
  cid_offset :: u64
  cid_idx :: u64
  cfg_req_id :: u64
  servers :: "nat \<Rightarrow> server"
  cfg_clt_id :: u16
  my_idx :: u8
  cfg_len :: u8

record vote_req =
  vr_sid :: u64
  vr_index :: u64
  vr_term :: u64
  vr_cid :: dare_cid

record sm_rep =
  sr_sid :: u64
  sr_raddr :: u64
  sr_rkey :: u32
  sr_len :: u32

record ctrl_data =
  c_sid :: u64
  c_vote_req :: "nat \<Rightarrow> vote_req"
  c_log_offsets :: "nat \<Rightarrow> log_offsets"
  c_sm_rep :: "nat \<Rightarrow> sm_rep"
  c_sm_req :: "nat \<Rightarrow> u64"
  c_hb :: "nat \<Rightarrow> u64"
  c_vote_ack :: "nat \<Rightarrow> u64"
  c_rsid :: "nat \<Rightarrow> u64"
  c_apply_offsets :: "nat \<Rightarrow> u64"
  c_prv_data :: "nat \<Rightarrow> u64"

record snapshot =
  sn_last_entry :: dare_log_entry_det
  sn_len :: u32
  sn_data :: "u8 list"

section \<open>Where the fields lie\<close>

text \<open>Byte offsets in \<^verbatim>\<open>ctrl_data_t\<close>; \<^verbatim>\<open>vote_req_t\<close> has 40 bytes, \<^verbatim>\<open>log_offsets_t\<close> 32, \<^verbatim>\<open>sm_rep_t\<close> 24.\<close>

definition off_sid :: nat where "off_sid = 0"
definition off_vote_req :: "nat \<Rightarrow> nat" where "off_vote_req i = 8 + 40 * i"
definition off_log_offsets :: "nat \<Rightarrow> nat" where "off_log_offsets i = 8 + 40 * 13 + 32 * i"
definition off_sm_rep :: "nat \<Rightarrow> nat" where "off_sm_rep i = 8 + 72 * 13 + 24 * i"
definition off_sm_req :: "nat \<Rightarrow> nat" where "off_sm_req i = 8 + 96 * 13 + 8 * i"
definition off_hb :: "nat \<Rightarrow> nat" where "off_hb i = 8 + 104 * 13 + 8 * i"
definition off_vote_ack :: "nat \<Rightarrow> nat" where "off_vote_ack i = 8 + 112 * 13 + 8 * i"
definition off_rsid :: "nat \<Rightarrow> nat" where "off_rsid i = 8 + 120 * 13 + 8 * i"
definition off_apply_offsets :: "nat \<Rightarrow> nat" where "off_apply_offsets i = 8 + 128 * 13 + 8 * i"
definition off_prv_data :: "nat \<Rightarrow> nat" where "off_prv_data i = 8 + 136 * 13 + 8 * i"

text \<open>Byte offsets in \<^verbatim>\<open>dare_log_t\<close>; an NC-buffer has 8 + 1024 * 24 bytes.\<close>

definition off_log_head :: nat where "off_log_head = 0"
definition off_log_apply :: nat where "off_log_apply = 8"
definition off_log_commit :: nat where "off_log_commit = 16"
definition off_log_end :: nat where "off_log_end = 24"
definition off_nc_buf :: "nat \<Rightarrow> nat" where "off_nc_buf i = 64 + 24584 * i"
definition off_nc_entries :: "nat \<Rightarrow> nat" where "off_nc_entries i = 72 + 24584 * i"
definition off_entries :: nat where "off_entries = 64 + 24584 * 13"

section \<open>Work requests and the environment\<close>

datatype region = R_ctrl | R_log | R_prereg | R_snapshot

text \<open>A local buffer: a registered region and a byte offset in it.\<close>

type_synonym lbuf = "region \<times> nat"

datatype opcode = RDMA_WRITE | RDMA_READ

record send_wr =
  wr_id :: u64
  wr_opcode :: opcode
  wr_signaled :: bool
  wr_inline :: bool
  wr_local :: lbuf
  wr_mr :: region
  wr_len :: u32
  wr_raddr :: u64
  wr_rkey :: u32

datatype wc_status =
  IBV_WC_SUCCESS | IBV_WC_LOC_LEN_ERR | IBV_WC_LOC_QP_OP_ERR | IBV_WC_LOC_EEC_OP_ERR
  | IBV_WC_LOC_PROT_ERR | IBV_WC_WR_FLUSH_ERR | IBV_WC_MW_BIND_ERR | IBV_WC_BAD_RESP_ERR
  | IBV_WC_LOC_ACCESS_ERR | IBV_WC_REM_INV_REQ_ERR | IBV_WC_REM_ACCESS_ERR | IBV_WC_REM_OP_ERR
  | IBV_WC_RETRY_EXC_ERR | IBV_WC_RNR_RETRY_EXC_ERR | IBV_WC_LOC_RDD_VIOL_ERR
  | IBV_WC_REM_INV_RD_REQ_ERR | IBV_WC_REM_ABORT_ERR | IBV_WC_INV_EECN_ERR
  | IBV_WC_INV_EEC_STATE_ERR | IBV_WC_FATAL_ERR | IBV_WC_RESP_TIMEOUT_ERR | IBV_WC_GENERAL_ERR

record wc =
  wc_wr_id :: u64
  wc_stat :: wc_status

datatype ib_qps = IBV_QPS_RESET | IBV_QPS_INIT | IBV_QPS_RTR | IBV_QPS_RTS | IBV_QPS_ERR

text \<open>The attributes the code passes to \<^verbatim>\<open>ibv_modify_qp\<close>.\<close>

record qp_attr =
  qa_state :: ib_qps
  qa_dest_qpn :: u32
  qa_path_mtu :: u32
  qa_psn :: u32
  qa_dgid :: gid
  qa_dlid :: u16

text \<open>UD messages, and the completion of a receive.\<close>

record ud_hdr =
  uh_id :: u64
  uh_type :: u8
  uh_gid :: gid
  uh_slid :: u16

record reconf_rep =
  rp_hdr :: ud_hdr
  rp_idx :: u8
  rp_cid :: dare_cid
  rp_cid_idx :: u64
  rp_head :: u64

record rc_syn =
  sy_hdr :: ud_hdr
  sy_log_rm :: rem_mem
  sy_ctrl_rm :: rem_mem
  sy_mtu :: u32
  sy_idx :: u8
  sy_size :: u8
  sy_qpns :: "u32 list"

record rc_ack =
  ak_hdr :: ud_hdr
  ak_idx :: u8

datatype ud_msg = Msg_hdr ud_hdr | Msg_cfg reconf_rep | Msg_syn rc_syn | Msg_ack rc_ack
  | Msg_clt ud_hdr "u8 list"

record ud_wc =
  uw_stat :: wc_status
  uw_recv :: bool
  uw_slid :: u16
  uw_src_qp :: u32
  uw_wr_id :: u64

text \<open>
  The environment.  \<open>ib_poll_cq\<close> returns the completions (\<open>None\<close> for a negative count) and the
  control data and log as remote servers left them.  \<open>ib_undef\<close> is the value a C function
  yields that ends without a return statement.  \<open>ib_snapshot\<close> is the buffer a snapshot was
  read into; the region addresses and keys are those of the registered memory.
  \<open>ud_post\<close> sends a UD message to an endpoint or, without one, to the multicast group;
  \<open>ud_poll_rcq\<close> yields the count of a poll of the receive queue and the message.
  \<open>sm_apply_cmd\<close> is the function pointer of the local state machine, \<open>raw_ep\<close> the contents
  of freshly allocated memory.
\<close>

record 'e ibv =
  ib_post_send :: "u8 \<Rightarrow> nat \<Rightarrow> send_wr \<Rightarrow> 'e \<Rightarrow> int \<times> 'e"
  ib_poll_cq :: "nat \<Rightarrow> ctrl_data \<times> dare_log \<Rightarrow> 'e \<Rightarrow> wc list option \<times> (ctrl_data \<times> dare_log) \<times> 'e"
  ib_modify_qp :: "u8 \<Rightarrow> nat \<Rightarrow> qp_attr \<Rightarrow> 'e \<Rightarrow> int \<times> 'e"
  ib_query_qp :: "u8 \<Rightarrow> nat \<Rightarrow> 'e \<Rightarrow> ib_qps \<times> 'e"
  ib_undef :: int
  ev_now :: "'e \<Rightarrow> rat \<times> 'e"
  lrand48 :: "'e \<Rightarrow> u64 \<times> 'e"
  proxy_store_cmd :: "mem \<Rightarrow> 'e \<Rightarrow> 'e"
  proxy_do_action :: "u16 \<Rightarrow> u8 \<Rightarrow> u8 list \<Rightarrow> 'e \<Rightarrow> 'e"
  proxy_update_state :: "'e \<Rightarrow> 'e"
  proxy_get_db_size :: "'e \<Rightarrow> u32"
  proxy_create_db_snapshot :: "'e \<Rightarrow> u8 list"
  proxy_apply_db_snapshot :: "u8 list \<Rightarrow> 'e \<Rightarrow> int \<times> 'e"
  ib_reg_mr :: "region \<Rightarrow> u32 \<Rightarrow> 'e \<Rightarrow> bool \<times> 'e"
  ib_region_addr :: "region \<Rightarrow> u64"
  ib_region_rkey :: "region \<Rightarrow> u32"
  ib_snapshot :: "'e \<Rightarrow> snapshot"
  posix_memalign :: "'e \<Rightarrow> int \<times> 'e"
  ud_post :: "ud_ep option \<Rightarrow> ud_msg \<Rightarrow> 'e \<Rightarrow> int \<times> 'e"
  ud_poll_scq :: "'e \<Rightarrow> int \<times> wc_status \<times> 'e"
  ud_poll_rcq :: "'e \<Rightarrow> int \<times> ud_wc \<times> ud_msg \<times> 'e"
  ud_post_one_receive :: "u64 \<Rightarrow> 'e \<Rightarrow> 'e"
  ud_ah_create :: "u16 \<Rightarrow> gid \<Rightarrow> 'e \<Rightarrow> bool \<times> 'e"
  dev_gid :: gid
  dev_lid :: u16
  dev_mtu :: u32
  unique_slid :: u16
  qp_num :: "nat \<Rightarrow> nat \<Rightarrow> u32"
  raw_ep :: "'e \<Rightarrow> dare_ep"
  sm_apply_cmd :: "u8 list \<Rightarrow> 'e \<Rightarrow> int \<times> u8 list \<times> 'e"

section \<open>The server\<close>

datatype timer_cb = Cb_none | Cb_init_network | Cb_join_cluster | Cb_exchange_rc_info
  | Cb_update_rc_info | Cb_get_replicated_vote | Cb_send_sm_request | Cb_recover_log
  | Cb_hb_receive | Cb_hb_send | Cb_to_adjust | Cb_prune_log

text \<open>An \<^verbatim>\<open>ev_timer\<close>: its callback, the repeat value, and whether it is running.\<close>

record ev_timer =
  tm_cb :: timer_cb
  tm_repeat :: rat
  tm_active :: bool

text \<open>A request of the proxy waiting to be appended to the log.\<close>

record tailq_entry =
  tq_type :: u8
  tq_connection_id :: u16
  tq_req_id :: u64
  tq_cmd :: "u8 list"

record 'e srv =
  config :: server_config
  ctrl :: ctrl_data
  slog :: dare_log
  endpoints :: ep_tree
  last_write_csm_idx :: u64
  last_cmt_write_csm_idx :: u64
  prereg_snapshot :: snapshot
  snapshot_buf :: "snapshot option"
  ssn :: u64
  wa_flag :: bool
  rc_max_send_wr :: u32
  rc_max_inline_data :: u32
  loggp_not_inline :: bool
  dare_state :: u64
  prev_log_entry_head :: bool
  last_applied_entry :: dare_log_entry_det
  recomputed_hb_timeout :: rat
  leader_failed :: bool
  hb_timeout_flag :: bool
  latest_hb_received :: u64
  poll_active :: bool
  timer_event :: ev_timer
  hb_event :: ev_timer
  to_adjust_event :: ev_timer
  prune_event :: ev_timer
  hb_total_count :: u64
  hb_fp_count :: u64
  request_id :: u64
  tailhead :: "tailq_entry list"
  committed_flag :: bool
  wrl_count :: u64
  hb_period :: rat
  elec_timeout_low :: u64
  elec_timeout_high :: u64
  rc_info_period :: rat
  retransmit_period :: rat
  log_pruning_period :: rat
  sent :: "(u8 \<times> nat \<times> send_wr) list"
  env :: 'e

text \<open>Assignments through the pointers the code takes into the configuration.\<close>

definition upd_server :: "nat \<Rightarrow> (server \<Rightarrow> server) \<Rightarrow> 'e srv \<Rightarrow> 'e srv" where
  "upd_server i f s = s\<lparr>config := (config s)\<lparr>servers := (servers (config s))(i := f (servers (config s) i))\<rparr>\<rparr>"

definition upd_ep :: "nat \<Rightarrow> (ib_ep \<Rightarrow> ib_ep) \<Rightarrow> 'e srv \<Rightarrow> 'e srv" where
  "upd_ep i f = upd_server i (\<lambda>v. v\<lparr>srv_ep := f (srv_ep v)\<rparr>)"

definition upd_qp :: "nat \<Rightarrow> nat \<Rightarrow> (rc_qp \<Rightarrow> rc_qp) \<Rightarrow> 'e srv \<Rightarrow> 'e srv" where
  "upd_qp i q f = upd_ep i (\<lambda>ep. ep\<lparr>rc_qps := (rc_qps ep)(q := f (rc_qps ep q))\<rparr>)"

definition upd_ctrl :: "(ctrl_data \<Rightarrow> ctrl_data) \<Rightarrow> 'e srv \<Rightarrow> 'e srv" where
  "upd_ctrl f s = s\<lparr>ctrl := f (ctrl s)\<rparr>"

definition upd_log :: "(dare_log \<Rightarrow> dare_log) \<Rightarrow> 'e srv \<Rightarrow> 'e srv" where
  "upd_log f s = s\<lparr>slog := f (slog s)\<rparr>"

definition upd_config :: "(server_config \<Rightarrow> server_config) \<Rightarrow> 'e srv \<Rightarrow> 'e srv" where
  "upd_config f s = s\<lparr>config := f (config s)\<rparr>"

abbreviation srv_at :: "'e srv \<Rightarrow> nat \<Rightarrow> server" where
  "srv_at s i \<equiv> servers (config s) i"

abbreviation ep_at :: "'e srv \<Rightarrow> nat \<Rightarrow> ib_ep" where
  "ep_at s i \<equiv> srv_ep (srv_at s i)"

abbreviation qp_at :: "'e srv \<Rightarrow> nat \<Rightarrow> nat \<Rightarrow> rc_qp" where
  "qp_at s i q \<equiv> rc_qps (ep_at s i) q"

text \<open>\<^verbatim>\<open>ev_timer_again\<close>: a timer with a repeat value of 0 is stopped.\<close>

definition ev_timer_again :: "ev_timer \<Rightarrow> ev_timer" where
  "ev_timer_again t = t\<lparr>tm_active := (tm_repeat t \<noteq> 0)\<rparr>"

section \<open>The role of a server\<close>

definition IS_NONE :: "'e srv \<Rightarrow> bool" where
  "IS_NONE s \<longleftrightarrow> SID_GET_IDX (c_sid (ctrl s)) = my_idx (config s) \<and>
     \<not> has_L (c_sid (ctrl s)) \<and> SID_GET_TERM (c_sid (ctrl s)) = 0"

definition IS_LEADER :: "'e srv \<Rightarrow> bool" where
  "IS_LEADER s \<longleftrightarrow> \<not> IS_NONE s \<and> SID_GET_IDX (c_sid (ctrl s)) = my_idx (config s) \<and>
     has_L (c_sid (ctrl s))"

definition IS_CANDIDATE :: "'e srv \<Rightarrow> bool" where
  "IS_CANDIDATE s \<longleftrightarrow> \<not> IS_NONE s \<and> SID_GET_IDX (c_sid (ctrl s)) = my_idx (config s) \<and>
     \<not> has_L (c_sid (ctrl s))"

definition IS_FOLLOWER :: "'e srv \<Rightarrow> bool" where
  "IS_FOLLOWER s \<longleftrightarrow> \<not> IS_NONE s \<and> \<not> IS_LEADER s \<and> \<not> IS_CANDIDATE s"

lemmas roles = IS_NONE_def IS_LEADER_def IS_CANDIDATE_def IS_FOLLOWER_def

text \<open>The flags of \<^verbatim>\<open>dare_state\<close>.\<close>

definition TERMINATE :: u64 where "TERMINATE = 0x1"
definition INIT :: u64 where "INIT = 0x2"
definition JOINED :: u64 where "JOINED = 0x4"
definition RC_ESTABLISHED :: u64 where "RC_ESTABLISHED = 0x8"
definition SM_RECOVERED :: u64 where "SM_RECOVERED = 0x10"
definition LOG_RECOVERED :: u64 where "LOG_RECOVERED = 0x20"
definition SNAPSHOT :: u64 where "SNAPSHOT = 0x40"
definition DIE_AF_COMMIT :: u64 where "DIE_AF_COMMIT = 0x80"

definition has_state :: "'e srv \<Rightarrow> u64 \<Rightarrow> bool" where
  "has_state s f \<longleftrightarrow> dare_state s AND f \<noteq> 0"

section \<open>Simplification of updates\<close>

lemma upd_frame [simp]:
  "ctrl (upd_server i f s) = ctrl s" "slog (upd_server i f s) = slog s"
  "ctrl (upd_ep i g s) = ctrl s" "slog (upd_ep i g s) = slog s"
  "ctrl (upd_qp i q h s) = ctrl s" "slog (upd_qp i q h s) = slog s"
  "ssn (upd_server i f s) = ssn s" "ssn (upd_ep i g s) = ssn s" "ssn (upd_qp i q h s) = ssn s"
  "cid (config (upd_server i f s)) = cid (config s)" "cid (config (upd_ep i g s)) = cid (config s)"
  "cid (config (upd_qp i q h s)) = cid (config s)"
  "my_idx (config (upd_server i f s)) = my_idx (config s)" "my_idx (config (upd_ep i g s)) = my_idx (config s)"
  "my_idx (config (upd_qp i q h s)) = my_idx (config s)"
  by (simp_all add: upd_server_def upd_ep_def upd_qp_def)

lemma srv_at_upd [simp]:
  "srv_at (upd_server i f s) j = (if j = i then f (srv_at s i) else srv_at s j)"
  "ep_at (upd_ep i g s) j = (if j = i then g (ep_at s i) else ep_at s j)"
  "qp_at (upd_qp i q h s) j p = (if j = i \<and> p = q then h (qp_at s i q) else qp_at s j p)"
  by (auto simp: upd_server_def upd_ep_def upd_qp_def)

lemma upd_ctrl_sel [simp]:
  "ctrl (upd_ctrl f s) = f (ctrl s)" "slog (upd_ctrl f s) = slog s" "config (upd_ctrl f s) = config s"
  "ctrl (upd_log g s) = ctrl s" "slog (upd_log g s) = g (slog s)" "config (upd_log g s) = config s"
  "ctrl (upd_config h s) = ctrl s" "slog (upd_config h s) = slog s" "config (upd_config h s) = h (config s)"
  by (simp_all add: upd_ctrl_def upd_log_def upd_config_def)

end
