(* ===== verification/Dare_Rc.thy ===== *)
theory Dare_Rc
  imports Dare_State
begin

text \<open>
  Posting RDMA operations and handling their completions: the work request
  identifiers of \<^verbatim>\<open>dare_ibv_rc.h\<close>, and from \<^verbatim>\<open>dare_ibv_rc.c\<close> the functions \<^verbatim>\<open>post_send\<close>,
  \<^verbatim>\<open>empty_completion_queue\<close>, \<^verbatim>\<open>wait_for_majority\<close>, \<^verbatim>\<open>wait_for_one\<close>, the completion handlers,
  and the queue pair state changes that grant and revoke access to the log.
  The functions return their result code with the state; \<open>None\<close> means that the
  call does not return.
\<close>

section \<open>Work request identifiers\<close>

definition WRID_GET_CONN :: "u64 \<Rightarrow> u8" where
  "WRID_GET_CONN w = ucast (w AND 0xFF)"

definition WRID_SET_CONN :: "u64 \<Rightarrow> u8 \<Rightarrow> u64" where
  "WRID_SET_CONN w conn = (ucast conn OR push_bit 8 (drop_bit 8 w))"

definition WRID_GET_TAG :: "u64 \<Rightarrow> u64" where
  "WRID_GET_TAG w = w AND push_bit 8 1"

definition WRID_SET_TAG :: "u64 \<Rightarrow> u64" where
  "WRID_SET_TAG w = w OR push_bit 8 1"

definition WRID_UNSET_TAG :: "u64 \<Rightarrow> u64" where
  "WRID_UNSET_TAG w = w AND NOT (push_bit 8 1)"

definition WRID_GET_WA :: "u64 \<Rightarrow> u64" where
  "WRID_GET_WA w = w AND push_bit 9 1"

definition WRID_SET_WA :: "u64 \<Rightarrow> u64" where
  "WRID_SET_WA w = w OR push_bit 9 1"

definition WRID_UNSET_WA :: "u64 \<Rightarrow> u64" where
  "WRID_UNSET_WA w = w AND NOT (push_bit 9 1)"

definition WRID_GET_SSN :: "u64 \<Rightarrow> u64" where
  "WRID_GET_SSN w = drop_bit 10 w"

definition WRID_SET_SSN :: "u64 \<Rightarrow> u64 \<Rightarrow> u64" where
  "WRID_SET_SSN w n = (push_bit 10 n OR (w AND 0x3FF))"

definition RC_ERROR :: int where "RC_ERROR = 1"
definition RC_SUCCESS :: int where "RC_SUCCESS = 0"
definition RC_INSUCCESS :: int where "RC_INSUCCESS = - 1"

definition WC_SUCCESS :: int where "WC_SUCCESS = 0"
definition WC_ERROR :: int where "WC_ERROR = 1"
definition WC_FAILURE :: int where "WC_FAILURE = 2"
definition WC_SOFTWARE_BUG :: int where "WC_SOFTWARE_BUG = 3"

lemmas rc_codes = RC_ERROR_def RC_SUCCESS_def RC_INSUCCESS_def
lemmas wc_codes = WC_SUCCESS_def WC_ERROR_def WC_FAILURE_def WC_SOFTWARE_BUG_def

section \<open>Handling one completion\<close>

text \<open>\<^verbatim>\<open>handle_work_completion\<close>: the status decides the code.\<close>

definition handle_work_completion :: "wc \<Rightarrow> int" where
  "handle_work_completion w =
     (case wc_stat w of
        IBV_WC_SUCCESS \<Rightarrow> WC_SUCCESS
      | IBV_WC_LOC_LEN_ERR \<Rightarrow> WC_SOFTWARE_BUG
      | IBV_WC_LOC_QP_OP_ERR \<Rightarrow> WC_SOFTWARE_BUG
      | IBV_WC_LOC_EEC_OP_ERR \<Rightarrow> WC_SOFTWARE_BUG
      | IBV_WC_LOC_PROT_ERR \<Rightarrow> WC_SOFTWARE_BUG
      | IBV_WC_MW_BIND_ERR \<Rightarrow> WC_SOFTWARE_BUG
      | IBV_WC_LOC_ACCESS_ERR \<Rightarrow> WC_SOFTWARE_BUG
      | IBV_WC_REM_ACCESS_ERR \<Rightarrow> WC_SOFTWARE_BUG
      | IBV_WC_RNR_RETRY_EXC_ERR \<Rightarrow> WC_SOFTWARE_BUG
      | IBV_WC_LOC_RDD_VIOL_ERR \<Rightarrow> WC_SOFTWARE_BUG
      | IBV_WC_REM_INV_RD_REQ_ERR \<Rightarrow> WC_SOFTWARE_BUG
      | IBV_WC_REM_ABORT_ERR \<Rightarrow> WC_SOFTWARE_BUG
      | IBV_WC_INV_EECN_ERR \<Rightarrow> WC_SOFTWARE_BUG
      | IBV_WC_INV_EEC_STATE_ERR \<Rightarrow> WC_SOFTWARE_BUG
      | IBV_WC_WR_FLUSH_ERR \<Rightarrow> WC_FAILURE
      | IBV_WC_BAD_RESP_ERR \<Rightarrow> WC_ERROR
      | IBV_WC_REM_INV_REQ_ERR \<Rightarrow> WC_ERROR
      | IBV_WC_REM_OP_ERR \<Rightarrow> WC_ERROR
      | IBV_WC_RETRY_EXC_ERR \<Rightarrow> WC_FAILURE
      | IBV_WC_FATAL_ERR \<Rightarrow> WC_ERROR
      | IBV_WC_RESP_TIMEOUT_ERR \<Rightarrow> WC_ERROR
      | IBV_WC_GENERAL_ERR \<Rightarrow> WC_ERROR)"

text \<open>
  The log replication step of a server, as \<^verbatim>\<open>handle_lr_work_completion\<close> moves it on a
  successful and on an unsuccessful completion.
\<close>

definition lr_success :: "server \<Rightarrow> server" where
  "lr_success v =
     (if next_lr_step v = LR_UPDATE_LOG
      then (if lr_send_count v = 0 then v\<lparr>send_flag := True\<rparr>
            else if lr_send_count v = 1 then v\<lparr>next_lr_step := LR_UPDATE_END, send_flag := True\<rparr>
            else if lr_send_count v = 2 then v\<lparr>lr_send_count := lr_send_count v - 1\<rparr>
            else v)
      else if next_lr_step v \<noteq> LR_UPDATE_END
      then v\<lparr>next_lr_step := next_lr_step v + 1, send_flag := True\<rparr>
      else v\<lparr>next_lr_step := LR_UPDATE_LOG, send_flag := True\<rparr>)"

definition lr_failure :: "server \<Rightarrow> server" where
  "lr_failure v =
     (if next_lr_step v = LR_UPDATE_LOG
      then (if lr_send_count v = 0 \<or> lr_send_count v = 1 then v\<lparr>send_flag := True\<rparr>
            else if lr_send_count v = 2 then v\<lparr>lr_send_count := 0\<rparr>
            else v)
      else if next_lr_step v \<noteq> LR_UPDATE_END then v\<lparr>send_flag := True\<rparr>
      else v\<lparr>send_flag := True\<rparr>)"

definition handle_lr_work_completion :: "wc \<Rightarrow> int \<Rightarrow> 'e srv \<Rightarrow> 'e srv" where
  "handle_lr_work_completion w wc_rc s =
     (let wrid = WRID_UNSET_WA (WRID_UNSET_TAG (wc_wr_id w));
          idx = unat (WRID_GET_CONN wrid)
      in if wrid = next_wr_id (srv_at s idx)
         then upd_server idx (if wc_rc = WC_SUCCESS then lr_success else lr_failure) s
         else s)"

text \<open>
  What all three polling loops do first with a completion: the last read of the log,
  and the signaled work request of its queue pair.  The result says whether the
  queue pair can be restarted, and whether the signaled work request was found.
\<close>

definition check_read_ssn :: "u64 \<Rightarrow> nat \<Rightarrow> 'e srv \<Rightarrow> 'e srv" where
  "check_read_ssn wrid qp_id s =
     (let conn = unat (WRID_GET_CONN wrid) in
      if LOG_QP = qp_id \<and> WRID_GET_SSN wrid \<ge> last_get_read_ssn (srv_at s conn)
      then upd_server conn (\<lambda>v. v\<lparr>last_get_read_ssn := 0\<rparr>) s else s)"

definition check_signaled_wr :: "u64 \<Rightarrow> nat \<Rightarrow> 'e srv \<Rightarrow> bool \<times> bool \<times> 'e srv" where
  "check_signaled_wr wrid qp_id s =
     (let conn = unat (WRID_GET_CONN wrid); signaled = signaled_wr_id (qp_at s conn qp_id) in
      if signaled \<noteq> 0
      then if wrid = signaled
           then let s1 = upd_qp conn qp_id (\<lambda>q. q\<lparr>signaled_wr_id := WRID_UNSET_TAG signaled\<rparr>) s;
                    s2 = (if qp_state (qp_at s1 conn qp_id) = RC_QP_BLOCKED
                          then upd_qp conn qp_id (\<lambda>q. q\<lparr>qp_state := RC_QP_ERROR\<rparr>) s1 else s1)
                in (True, True, s2)
           else (False, False, s)
      else (True, False, s))"

text \<open>A failed operation: the queue pair is in error, or blocked until its signaled request.\<close>

definition mark_failure :: "bool \<Rightarrow> nat \<Rightarrow> nat \<Rightarrow> 'e srv \<Rightarrow> 'e srv" where
  "mark_failure can_restart conn qp_id s =
     (let s1 = (if can_restart then upd_qp conn qp_id (\<lambda>q. q\<lparr>qp_state := RC_QP_ERROR\<rparr>) s
                else if qp_state (qp_at s conn qp_id) \<noteq> RC_QP_ERROR
                then upd_qp conn qp_id (\<lambda>q. q\<lparr>qp_state := RC_QP_BLOCKED\<rparr>) s else s)
      in if CTRL_QP = qp_id then upd_server conn (\<lambda>v. v\<lparr>fail_count := fail_count v + 1\<rparr>) s1 else s1)"

definition poll :: "'e ibv \<Rightarrow> nat \<Rightarrow> 'e srv \<Rightarrow> wc list option \<times> 'e srv" where
  "poll ib qp_id s =
     (let (r, (c, l), e) = ib_poll_cq ib qp_id (ctrl s, slog s) (env s)
      in (r, s\<lparr>ctrl := c, slog := l, env := e\<rparr>))"

section \<open>Emptying the completion queue\<close>

text \<open>\<^verbatim>\<open>posted_sends\<close> is an array of counters, or NULL.\<close>

type_synonym sends = "nat \<Rightarrow> int"

definition ecq_one :: "u8 \<Rightarrow> nat \<Rightarrow> wc \<Rightarrow> bool \<times> sends option \<times> 'e srv \<Rightarrow> bool \<times> sends option \<times> 'e srv" where
  "ecq_one server_id qp_id w = (\<lambda>(wait, posted, s).
     (let wrid = wc_wr_id w; conn = WRID_GET_CONN wrid; c = unat conn;
          (can_restart, found, s1) = check_signaled_wr wrid qp_id (check_read_ssn wrid qp_id s);
          wait' = (if found \<and> conn = server_id then False else wait);
          rc = handle_work_completion w;
          s2 = handle_lr_work_completion w rc s1
      in if rc = WC_SUCCESS
         then (wait', (if WRID_GET_SSN wrid = ssn s2
                       then map_option (\<lambda>p. p(c := p c - 1)) posted else posted),
               upd_server c (\<lambda>v. v\<lparr>fail_count := 0\<rparr>) s2)
         else if rc = WC_FAILURE
         then (wait', (if WRID_GET_SSN wrid = ssn s2
                       then map_option (\<lambda>p. p(c := - 1)) posted else posted),
               mark_failure can_restart c qp_id s2)
         else (wait', posted, s2)))"

partial_function (option) empty_completion_queue ::
  "'e ibv \<Rightarrow> u8 \<Rightarrow> nat \<Rightarrow> bool \<Rightarrow> sends option \<Rightarrow> 'e srv \<Rightarrow> (int \<times> sends option \<times> 'e srv) option" where
  "empty_completion_queue ib server_id qp_id wait posted s =
     (case poll ib qp_id s of
        (None, s1) \<Rightarrow> Some (1, posted, s1)
      | (Some [], s1) \<Rightarrow>
          (if wait then empty_completion_queue ib server_id qp_id wait posted s1
           else Some (0, posted, s1))
      | (Some (w # ws), s1) \<Rightarrow>
          (case fold (ecq_one server_id qp_id) (w # ws) (wait, posted, s1) of
             (wait', posted', s2) \<Rightarrow> empty_completion_queue ib server_id qp_id wait' posted' s2))"

section \<open>Queue pair transitions\<close>

definition CTRL_PSN :: u32 where "CTRL_PSN = 13"
definition LOG_PSN :: u32 where "LOG_PSN = 55"

definition modify_qp :: "'e ibv \<Rightarrow> u8 \<Rightarrow> nat \<Rightarrow> qp_attr \<Rightarrow> 'e srv \<Rightarrow> int \<times> 'e srv" where
  "modify_qp ib i qp_id a s =
     (let (rc, e) = ib_modify_qp ib i qp_id a (env s) in (if rc \<noteq> 0 then 1 else 0, s\<lparr>env := e\<rparr>))"

definition qp_attr_zero :: qp_attr where
  "qp_attr_zero = \<lparr>qa_state = IBV_QPS_RESET, qa_dest_qpn = 0, qa_path_mtu = 0, qa_psn = 0, qa_dgid = [], qa_dlid = 0\<rparr>"

definition rc_qp_reset :: "'e ibv \<Rightarrow> u8 \<Rightarrow> nat \<Rightarrow> 'e srv \<Rightarrow> int \<times> 'e srv" where
  "rc_qp_reset ib i qp_id s = modify_qp ib i qp_id (qp_attr_zero\<lparr>qa_state := IBV_QPS_RESET\<rparr>) s"

definition rc_qp_reset_to_init :: "'e ibv \<Rightarrow> u8 \<Rightarrow> nat \<Rightarrow> 'e srv \<Rightarrow> int \<times> 'e srv" where
  "rc_qp_reset_to_init ib i qp_id s =
     (let s1 = upd_qp (unat i) qp_id (\<lambda>q. q\<lparr>signaled_wr_id := 0, send_count := 0, qp_state := RC_QP_ACTIVE\<rparr>) s
      in modify_qp ib i qp_id (qp_attr_zero\<lparr>qa_state := IBV_QPS_INIT\<rparr>) s1)"

definition rc_qp_init_to_rtr :: "'e ibv \<Rightarrow> u8 \<Rightarrow> nat \<Rightarrow> 'e srv \<Rightarrow> int \<times> 'e srv" where
  "rc_qp_init_to_rtr ib i qp_id s =
     (let ep = ep_at s (unat i)
      in modify_qp ib i qp_id
           \<lparr>qa_state = IBV_QPS_RTR, qa_dest_qpn = rqpn (rc_qps ep qp_id), qa_path_mtu = ib_mtu ep,
            qa_psn = (if LOG_QP = qp_id then LOG_PSN else CTRL_PSN),
            qa_dgid = ud_gid (ib_ud ep), qa_dlid = ud_lid (ib_ud ep)\<rparr> s)"

definition rc_qp_rtr_to_rts :: "'e ibv \<Rightarrow> u8 \<Rightarrow> nat \<Rightarrow> 'e srv \<Rightarrow> int \<times> 'e srv" where
  "rc_qp_rtr_to_rts ib i qp_id s =
     modify_qp ib i qp_id (qp_attr_zero\<lparr>qa_state := IBV_QPS_RTS,
       qa_psn := (if LOG_QP = qp_id then LOG_PSN else CTRL_PSN)\<rparr>) s"

text \<open>Running the transitions in order, stopping at the first that fails.\<close>

definition and_then :: "int \<times> 'e srv \<Rightarrow> ('e srv \<Rightarrow> int \<times> 'e srv) \<Rightarrow> int \<times> 'e srv" where
  "and_then r f = (case r of (rc, s) \<Rightarrow> if rc \<noteq> 0 then (1, s) else f s)"

definition rc_qp_restart :: "'e ibv \<Rightarrow> u8 \<Rightarrow> nat \<Rightarrow> 'e srv \<Rightarrow> int \<times> 'e srv" where
  "rc_qp_restart ib i qp_id s =
     and_then (and_then (and_then (and_then (rc_qp_reset ib i qp_id s)
       (rc_qp_reset_to_init ib i qp_id)) (rc_qp_init_to_rtr ib i qp_id)) (rc_qp_rtr_to_rts ib i qp_id))
       (\<lambda>s. (0, s))"

text \<open>\<^verbatim>\<open>rc_qp_reset_to_rts\<close> has no return statement for the case that all went well.\<close>

definition rc_qp_reset_to_rts :: "'e ibv \<Rightarrow> u8 \<Rightarrow> nat \<Rightarrow> 'e srv \<Rightarrow> int \<times> 'e srv" where
  "rc_qp_reset_to_rts ib i qp_id s =
     and_then (and_then (and_then (and_then (rc_qp_reset ib i qp_id s)
       (rc_qp_reset_to_init ib i qp_id)) (rc_qp_init_to_rtr ib i qp_id)) (rc_qp_rtr_to_rts ib i qp_id))
       (\<lambda>s. (ib_undef ib, s))"

definition rc_connect_server :: "'e ibv \<Rightarrow> u8 \<Rightarrow> nat \<Rightarrow> 'e srv \<Rightarrow> int \<times> 'e srv" where
  "rc_connect_server ib idx qp_id s =
     (let (st, e) = ib_query_qp ib idx qp_id (env s); s1 = s\<lparr>env := e\<rparr>;
          r = (if st \<noteq> IBV_QPS_RESET then rc_qp_reset ib idx qp_id s1 else (0, s1))
      in and_then (and_then (and_then (and_then r (rc_qp_reset_to_init ib idx qp_id))
           (rc_qp_init_to_rtr ib idx qp_id)) (rc_qp_rtr_to_rts ib idx qp_id)) (\<lambda>s. (0, s)))"

definition rc_disconnect_server :: "'e ibv \<Rightarrow> u8 \<Rightarrow> 'e srv \<Rightarrow> int \<times> 'e srv" where
  "rc_disconnect_server ib idx s =
     (if \<not> rc_connected (ep_at s (unat idx)) then (0, s)
      else let s1 = upd_ep (unat idx) (\<lambda>ep. ep\<lparr>ib_ud := (ib_ud ep)\<lparr>ud_lid := 0, ud_ah := False\<rparr>, rc_connected := False\<rparr>) s
           in and_then (and_then (rc_qp_reset ib idx LOG_QP s1) (rc_qp_reset ib idx CTRL_QP)) (\<lambda>s. (0, s)))"

section \<open>Access to the log\<close>

fun revoke_loop :: "'e ibv \<Rightarrow> nat \<Rightarrow> nat \<Rightarrow> 'e srv \<Rightarrow> int \<times> 'e srv" where
  "revoke_loop ib i 0 s = (0, s)"
| "revoke_loop ib i (Suc n) s =
     (if i = unat (my_idx (config s)) \<or> \<not> CID_IS_SERVER_ON (cid (config s)) (of_nat i)
         \<or> \<not> rc_connected (ep_at s i) \<or> \<not> log_access (ep_at s i)
      then revoke_loop ib (Suc i) n s
      else case rc_qp_reset ib (of_nat i) LOG_QP s of
             (rc, s1) \<Rightarrow> if rc \<noteq> 0 then (1, s1)
                         else revoke_loop ib (Suc i) n (upd_ep i (\<lambda>ep. ep\<lparr>log_access := False\<rparr>) s1))"

definition rc_revoke_log_access :: "'e ibv \<Rightarrow> 'e srv \<Rightarrow> int \<times> 'e srv" where
  "rc_revoke_log_access ib s = revoke_loop ib 0 (unat (get_extended_group_size (cid (config s)))) s"

fun restore_loop :: "'e ibv \<Rightarrow> nat \<Rightarrow> nat \<Rightarrow> 'e srv \<Rightarrow> int \<times> 'e srv" where
  "restore_loop ib i 0 s = (0, s)"
| "restore_loop ib i (Suc n) s =
     (if i = unat (my_idx (config s)) \<or> \<not> CID_IS_SERVER_ON (cid (config s)) (of_nat i)
         \<or> \<not> rc_connected (ep_at s i) \<or> log_access (ep_at s i)
      then restore_loop ib (Suc i) n s
      else case rc_qp_reset_to_rts ib (of_nat i) LOG_QP s of
             (rc, s1) \<Rightarrow> if rc \<noteq> 0 then (1, s1)
                         else restore_loop ib (Suc i) n (upd_ep i (\<lambda>ep. ep\<lparr>log_access := True\<rparr>) s1))"

definition rc_restore_log_access :: "'e ibv \<Rightarrow> 'e srv \<Rightarrow> int \<times> 'e srv" where
  "rc_restore_log_access ib s =
     (let leader_idx = SID_GET_IDX (c_sid (ctrl s)); ep = ep_at s (unat leader_idx) in
      if leader_idx \<noteq> my_idx (config s)
      then if \<not> CID_IS_SERVER_ON (cid (config s)) leader_idx then (1, s)
           else if \<not> rc_connected ep then (1, s)
           else if log_access ep then (0, s)
           else case rc_qp_reset_to_rts ib leader_idx LOG_QP s of
                  (rc, s1) \<Rightarrow> if rc \<noteq> 0 then (1, s1)
                    else (0, upd_ep (unat leader_idx) (\<lambda>ep. ep\<lparr>log_access := True\<rparr>) s1)
      else if has_L (c_sid (ctrl s))
      then restore_loop ib 0 (unat (get_extended_group_size (cid (config s)))) s
      else (0, s))"

section \<open>Posting a work request\<close>

text \<open>
  The identifier and the flags of the request, and the bookkeeping that bounds the
  send queue: a quarter of it filled puts a tagged signaled request in, three quarters
  wait for it.  The last component says whether to wait.
\<close>

definition prepare_wr ::
  "u8 \<Rightarrow> nat \<Rightarrow> lbuf \<Rightarrow> u32 \<Rightarrow> region \<Rightarrow> opcode \<Rightarrow> bool \<Rightarrow> rem_mem \<Rightarrow> 'e srv \<Rightarrow> send_wr \<times> bool \<times> 'e srv" where
  "prepare_wr server_id qp_id buf len mr opc signaled rm s =
     (let i = unat server_id;
          s1 = upd_qp i qp_id (\<lambda>q. q\<lparr>send_count := send_count q + 1\<rparr>) s;
          w0 = WRID_SET_CONN (WRID_SET_SSN 0 (ssn s1)) server_id;
          w1 = (if wa_flag s1 then WRID_SET_WA w0 else w0);
          s2 = s1\<lparr>wa_flag := False\<rparr>;
          q2 = qp_at s2 i qp_id;
          s3 = (if signaled_wr_id q2 \<noteq> 0 \<and> WRID_GET_TAG (signaled_wr_id q2) = 0
                then upd_qp i qp_id (\<lambda>q. q\<lparr>signaled_wr_id := 0\<rparr>) s2 else s2);
          q3 = qp_at s3 i qp_id;
          quarter = (send_count q3 = drop_bit 2 (rc_max_send_wr s3) \<and> signaled_wr_id q3 = 0);
          w2 = (if quarter then WRID_SET_TAG w1 else w1);
          s4 = (if quarter then upd_qp i qp_id (\<lambda>q. q\<lparr>signaled_wr_id := w2, send_count := 0\<rparr>) s3 else s3);
          wait = (\<not> quarter \<and> send_count q3 = drop_bit 2 (3 * rc_max_send_wr s3) \<and> signaled_wr_id q3 \<noteq> 0)
      in (\<lparr>wr_id = w2, wr_opcode = opc, wr_signaled = (quarter \<or> signaled),
           wr_inline = (opc = RDMA_WRITE \<and> len \<le> rc_max_inline_data s4 \<and> \<not> loggp_not_inline s4),
           wr_local = buf, wr_mr = mr, wr_len = len, wr_raddr = raddr rm, wr_rkey = rkey rm\<rparr>, wait, s4))"

definition post_send ::
  "'e ibv \<Rightarrow> u8 \<Rightarrow> nat \<Rightarrow> lbuf \<Rightarrow> u32 \<Rightarrow> region \<Rightarrow> opcode \<Rightarrow> bool \<Rightarrow> rem_mem \<Rightarrow> sends option \<Rightarrow> 'e srv
    \<Rightarrow> (int \<times> sends option \<times> 'e srv) option" where
  "post_send ib server_id qp_id buf len mr opc signaled rm posted s = do {
     (rc0, s0) \<leftarrow> (if qp_state (qp_at s (unat server_id) qp_id) = RC_QP_BLOCKED
                   then map_option (\<lambda>(rc, p, t). (rc, t)) (empty_completion_queue ib server_id qp_id True None s)
                   else Some (0, s));
     if rc0 \<noteq> 0 then Some (1, posted, s0)
     else
       let s1 = (if qp_state (qp_at s0 (unat server_id) qp_id) = RC_QP_ERROR
                 then upd_qp (unat server_id) qp_id (\<lambda>q. q\<lparr>qp_state := RC_QP_ACTIVE, send_count := 0\<rparr>)
                        (snd (rc_qp_restart ib server_id qp_id s0))
                 else s0);
           (wr, wait, s2) = prepare_wr server_id qp_id buf len mr opc signaled rm s1;
           (rc, e) = ib_post_send ib server_id qp_id wr (env s2);
           s3 = s2\<lparr>env := e, sent := sent s2 @ [(server_id, qp_id, wr)]\<rparr>
       in if rc \<noteq> 0 then Some (1, posted, s3)
          else map_option (\<lambda>(rc', posted', t). (if rc' \<noteq> 0 then 1 else 0, posted', t))
                 (empty_completion_queue ib server_id qp_id wait posted s3)
   }"

section \<open>Waiting for completions\<close>

text \<open>
  One round of the \<^verbatim>\<open>for\<close> loop in \<^verbatim>\<open>wait_for_majority\<close>; \<open>w0\<close> is the first completion of the
  array, whose status the code looks at.  The state is the counters, the number of
  posted sends and of successes, and the server.
\<close>

type_synonym 'e wait_st = "sends \<times> u8 \<times> u8 \<times> 'e srv"

definition wm_one :: "nat \<Rightarrow> u8 \<Rightarrow> wc \<Rightarrow> wc \<Rightarrow> 'e wait_st \<Rightarrow> 'e wait_st" where
  "wm_one qp_id gsize w0 w = (\<lambda>(posted, posted_count, success_count, s).
     (let wrid = wc_wr_id w; conn = WRID_GET_CONN wrid; c = unat conn;
          (can_restart, found, s1) = check_signaled_wr wrid qp_id (check_read_ssn wrid qp_id s);
          posted_count' = (if WRID_GET_SSN wrid = ssn s1 then posted_count - 1 else posted_count)
      in if \<not> rc_connected (ep_at s1 c) then (posted, posted_count', success_count, s1)
         else
           let rc = handle_work_completion w0;
               s2 = handle_lr_work_completion w rc s1
           in if rc = WC_SUCCESS
              then let s3 = upd_server c (\<lambda>v. v\<lparr>fail_count := 0\<rparr>) s2
                   in if ssn s3 > WRID_GET_SSN wrid then (posted, posted_count', success_count, s3)
                      else let posted' = posted(c := posted c - 1)
                           in if posted' c \<noteq> 0 then (posted', posted_count', success_count, s3)
                              else if conn < gsize then (posted', posted_count', success_count + 1, s3)
                              else (posted', posted_count', success_count, s3)
              else if rc = WC_FAILURE
              then (posted, posted_count', success_count, mark_failure can_restart c qp_id s2)
              else (posted, posted_count', success_count, s2)))"

text \<open>The loop runs over \<^verbatim>\<open>(uint8_t)ne\<close> completions.\<close>

definition u8_take :: "wc list \<Rightarrow> wc list" where
  "u8_take ws = take (length ws mod 256) ws"

partial_function (option) wm_loop ::
  "'e ibv \<Rightarrow> nat \<Rightarrow> u8 \<Rightarrow> 'e wait_st \<Rightarrow> (int \<times> 'e wait_st) option" where
  "wm_loop ib qp_id gsize st =
     (case st of (posted, posted_count, success_count, s) \<Rightarrow>
        if unat success_count \<le> unat gsize div 2 \<and> posted_count \<noteq> 0
        then (case poll ib qp_id s of
                (None, s1) \<Rightarrow> Some (RC_ERROR, (posted, posted_count, success_count, s1))
              | (Some ws, s1) \<Rightarrow>
                  wm_loop ib qp_id gsize (fold (wm_one qp_id gsize (hd ws)) (u8_take ws)
                    (posted, posted_count, success_count, s1)))
        else Some (RC_SUCCESS, st))"

definition count_posted :: "sends \<Rightarrow> nat \<Rightarrow> u8" where
  "count_posted posted gsize =
     fold (\<lambda>i n. if posted i < 0 then n else n + of_int (posted i)) [0..<gsize] 0"

definition count_success :: "sends \<Rightarrow> nat \<Rightarrow> u8" where
  "count_success posted gsize =
     fold (\<lambda>i n. if posted i < 0 then n else if posted i = 0 then n + 1 else n) [0..<gsize] 0"

definition wait_for_majority ::
  "'e ibv \<Rightarrow> sends \<Rightarrow> nat \<Rightarrow> 'e srv \<Rightarrow> (int \<times> sends \<times> 'e srv) option" where
  "wait_for_majority ib posted qp_id s =
     (let verdict = (\<lambda>gsize n. if unat n > unat gsize div 2 then RC_SUCCESS else RC_INSUCCESS);
          posted_count = count_posted posted (unat (get_group_size (cid (config s))));
          sz0 = size0 (cid (config s))
      in do {
        (rc, (posted1, pc1, n1, s1)) \<leftarrow>
           wm_loop ib qp_id sz0 (posted, posted_count, count_success posted (unat sz0), s);
        if rc \<noteq> RC_SUCCESS then Some (rc, posted1, s1)
        else if cstate (cid (config s1)) = CID_STABLE then Some (verdict sz0 n1, posted1, s1)
        else
          let sz1 = size1 (cid (config s1)) in do {
            (rc, (posted2, pc2, n2, s2)) \<leftarrow>
               wm_loop ib qp_id sz1 (posted1, pc1, count_success posted1 (unat sz1), s1);
            if rc \<noteq> RC_SUCCESS then Some (rc, posted2, s2)
            else Some (verdict sz1 n2, posted2, s2)
          }
      })"

definition wo_one :: "nat \<Rightarrow> wc \<Rightarrow> wc \<Rightarrow> 'e wait_st \<Rightarrow> 'e wait_st" where
  "wo_one qp_id w0 w = (\<lambda>(posted, posted_count, success_count, s).
     (let wrid = wc_wr_id w; conn = WRID_GET_CONN wrid; c = unat conn;
          (can_restart, found, s1) = check_signaled_wr wrid qp_id (check_read_ssn wrid qp_id s);
          posted_count' = (if WRID_GET_SSN wrid = ssn s1 then posted_count - 1 else posted_count)
      in if \<not> rc_connected (ep_at s1 c) then (posted, posted_count', success_count, s1)
         else
           let rc = handle_work_completion w0;
               s2 = handle_lr_work_completion w rc s1
           in if rc = WC_SUCCESS
              then let s3 = upd_server c (\<lambda>v. v\<lparr>fail_count := 0\<rparr>) s2
                   in if WRID_GET_SSN wrid = ssn s3
                      then (posted(c := posted c - 1), posted_count', success_count + 1, s3)
                      else (posted, posted_count', success_count, s3)
              else if rc = WC_FAILURE
              then (posted, posted_count', success_count, mark_failure can_restart c qp_id s2)
              else (posted, posted_count', success_count, s2)))"

partial_function (option) wo_loop ::
  "'e ibv \<Rightarrow> nat \<Rightarrow> 'e wait_st \<Rightarrow> (int \<times> 'e wait_st) option" where
  "wo_loop ib qp_id st =
     (case st of (posted, posted_count, success_count, s) \<Rightarrow>
        if success_count = 0 \<and> posted_count \<noteq> 0
        then (case poll ib qp_id s of
                (None, s1) \<Rightarrow> Some (RC_ERROR, (posted, posted_count, success_count, s1))
              | (Some ws, s1) \<Rightarrow>
                  wo_loop ib qp_id (fold (wo_one qp_id (hd ws)) (u8_take ws)
                    (posted, posted_count, success_count, s1)))
        else Some (if success_count \<noteq> 0 then RC_SUCCESS else RC_INSUCCESS, st))"

definition wait_for_one ::
  "'e ibv \<Rightarrow> sends \<Rightarrow> nat \<Rightarrow> 'e srv \<Rightarrow> (int \<times> sends \<times> 'e srv) option" where
  "wait_for_one ib posted qp_id s =
     (let gsize = unat (get_group_size (cid (config s)))
      in map_option (\<lambda>(rc, (posted', pc, n, s')). (rc, posted', s'))
           (wo_loop ib qp_id (posted, count_posted posted gsize, count_success posted gsize, s)))"

declare empty_completion_queue.simps [code] wm_loop.simps [code] wo_loop.simps [code]

end
