(* ===== verification/Dare_Repl.thy ===== *)
theory Dare_Repl
  imports Dare_Rc
begin

text \<open>
  The protocol's messages as RDMA operations, from \<^verbatim>\<open>dare_ibv_rc.c\<close>: heartbeats, vote
  requests, replicated votes and vote acknowledgements, and the replication of the
  log: adjusting the remote logs, writing the new entries, counting the replies,
  and advancing the commit offset.
\<close>

section \<open>One operation to each server\<close>

record post_req =
  pq_qp :: nat
  pq_buf :: lbuf
  pq_len :: u32
  pq_mr :: region
  pq_opc :: opcode
  pq_sig :: bool
  pq_rm :: rem_mem

text \<open>Address and key of a byte offset in the remote memory region of queue pair \<open>q\<close>.\<close>

definition rmt :: "nat \<Rightarrow> nat \<Rightarrow> u32 \<Rightarrow> 'e srv \<Rightarrow> rem_mem" where
  "rmt i q offset s = \<lparr>raddr = raddr (rmt_mr (ep_at s i) q) + ucast offset, rkey = rkey (rmt_mr (ep_at s i) q)\<rparr>"

definition post :: "'e ibv \<Rightarrow> nat \<Rightarrow> post_req \<Rightarrow> sends option \<Rightarrow> 'e srv \<Rightarrow> (int \<times> sends option \<times> 'e srv) option" where
  "post ib i r posted s =
     post_send ib (of_nat i) (pq_qp r) (pq_buf r) (pq_len r) (pq_mr r) (pq_opc r) (pq_sig r) (pq_rm r) posted s"

text \<open>
  The loop over the servers that most functions share: the server itself gets \<open>self\<close> as its
  counter, servers that are off or not connected get -1, all others one operation.
  With \<open>counted\<close> false there is no array of counters.
\<close>

fun post_each ::
  "'e ibv \<Rightarrow> bool \<Rightarrow> int \<Rightarrow> (nat \<Rightarrow> 'e srv \<Rightarrow> post_req) \<Rightarrow> nat \<Rightarrow> nat \<Rightarrow> sends \<Rightarrow> 'e srv
    \<Rightarrow> (int \<times> sends \<times> 'e srv) option" where
  "post_each ib counted self req i 0 posted s = Some (0, posted, s)"
| "post_each ib counted self req i (Suc n) posted s =
     (if i = unat (my_idx (config s))
      then post_each ib counted self req (Suc i) n (posted(i := self)) s
      else if \<not> CID_IS_SERVER_ON (cid (config s)) (of_nat i) \<or> \<not> rc_connected (ep_at s i)
      then post_each ib counted self req (Suc i) n (posted(i := - 1)) s
      else do {
        let posted1 = posted(i := 1);
        (rc, po, s1) \<leftarrow> post ib i (req i s) (if counted then Some posted1 else None) s;
        let posted2 = (case po of None \<Rightarrow> posted1 | Some p \<Rightarrow> p);
        if rc \<noteq> 0 then Some (1, posted2, s1)
        else post_each ib counted self req (Suc i) n posted2 s1
      })"

definition no_sends :: sends where "no_sends = (\<lambda>_. 0)"

abbreviation group_n :: "'e srv \<Rightarrow> nat" where
  "group_n s \<equiv> unat (get_group_size (cid (config s)))"

definition inc_ssn :: "'e srv \<Rightarrow> 'e srv" where
  "inc_ssn s = s\<lparr>ssn := ssn s + 1\<rparr>"

definition ctrl_write :: "nat \<Rightarrow> nat \<Rightarrow> nat \<Rightarrow> bool \<Rightarrow> nat \<Rightarrow> 'e srv \<Rightarrow> post_req" where
  "ctrl_write loff len roff sig i s = \<lparr>pq_qp = CTRL_QP, pq_buf = (R_ctrl, loff), pq_len = of_nat len,
     pq_mr = R_ctrl, pq_opc = RDMA_WRITE, pq_sig = sig, pq_rm = rmt i CTRL_QP (of_nat roff) s\<rparr>"

definition ctrl_read :: "nat \<Rightarrow> nat \<Rightarrow> nat \<Rightarrow> nat \<Rightarrow> 'e srv \<Rightarrow> post_req" where
  "ctrl_read loff len roff i s = \<lparr>pq_qp = CTRL_QP, pq_buf = (R_ctrl, loff), pq_len = of_nat len,
     pq_mr = R_ctrl, pq_opc = RDMA_READ, pq_sig = True, pq_rm = rmt i CTRL_QP (of_nat roff) s\<rparr>"

abbreviation me :: "'e srv \<Rightarrow> nat" where "me s \<equiv> unat (my_idx (config s))"

section \<open>Heartbeats\<close>

definition rc_send_hb :: "'e ibv \<Rightarrow> 'e srv \<Rightarrow> (int \<times> 'e srv) option" where
  "rc_send_hb ib s =
     map_option (\<lambda>(rc, p, s'). (rc, s'))
       (post_each ib False 0 (ctrl_write off_sid 8 (off_hb (me s)) False) 0 (group_n s) no_sends (inc_ssn s))"

definition rc_send_hb_reply :: "'e ibv \<Rightarrow> u8 \<Rightarrow> 'e srv \<Rightarrow> (int \<times> 'e srv) option" where
  "rc_send_hb_reply ib idx s =
     (if idx \<ge> get_group_size (cid (config s)) then Some (1, s)
      else let s1 = inc_ssn s in
        if \<not> CID_IS_SERVER_ON (cid (config s1)) idx then Some (0, s1)
        else if \<not> rc_connected (ep_at s1 (unat idx)) then Some (0, s1)
        else map_option (\<lambda>(rc, p, s'). (if rc \<noteq> 0 then 1 else 0, s'))
               (post ib (unat idx) (ctrl_write off_sid 8 (off_hb (me s1)) False (unat idx) s1) None s1))"

section \<open>Election messages\<close>

definition set_vote_request :: "'e srv \<Rightarrow> 'e srv option" where
  "set_vote_request s = do {
     (ix, tm) \<leftarrow>
       (if is_log_empty (slog s) then Some (0, 0)
        else do {
          tail \<leftarrow> log_get_tail (slog s);
          last_entry \<leftarrow> fst (log_get_entry (slog s) tail);
          Some (entry_idx (log_entries (slog s)) last_entry, entry_term (log_entries (slog s)) last_entry)
        });
     Some (upd_ctrl (\<lambda>c. c\<lparr>c_vote_req := (c_vote_req c)(me s :=
       \<lparr>vr_sid = c_sid c, vr_index = ix, vr_term = tm, vr_cid = cid (config s)\<rparr>)\<rparr>) s)
   }"

definition rc_send_vote_request :: "'e ibv \<Rightarrow> 'e srv \<Rightarrow> (int \<times> 'e srv) option" where
  "rc_send_vote_request ib s = do {
     s1 \<leftarrow> set_vote_request s;
     map_option (\<lambda>(rc, p, s'). (rc, s'))
       (post_each ib False 0 (ctrl_write (off_vote_req (me s)) 40 (off_vote_req (me s)) False)
          0 (group_n s) no_sends (inc_ssn s1))
   }"

text \<open>The result of the wait is not looked at beyond an error.\<close>

definition rc_replicate_vote :: "'e ibv \<Rightarrow> 'e srv \<Rightarrow> (int \<times> 'e srv) option" where
  "rc_replicate_vote ib s = do {
     let s1 = upd_ctrl (\<lambda>c. c\<lparr>c_prv_data := (c_prv_data c)(me s := c_sid c)\<rparr>) s;
     (rc, posted, s2) \<leftarrow> post_each ib True 0 (ctrl_write (off_prv_data (me s)) 8 (off_prv_data (me s)) True)
          0 (group_n s) no_sends (inc_ssn s1);
     if rc \<noteq> 0 then Some (1, s2)
     else do {
       (rc, posted', s3) \<leftarrow> wait_for_majority ib posted CTRL_QP s2;
       Some (if rc = RC_ERROR then 1 else 0, s3)
     }
   }"

definition rc_send_vote_ack :: "'e ibv \<Rightarrow> 'e srv \<Rightarrow> (int \<times> 'e srv) option" where
  "rc_send_vote_ack ib s =
     (let candidate = SID_GET_IDX (c_sid (ctrl s)); c = unat candidate in
      if \<not> CID_IS_SERVER_ON (cid (config s)) candidate then Some (0, s)
      else if \<not> rc_connected (ep_at s c) then Some (0, s)
      else do {
        let s1 = inc_ssn s;
        let posted = (\<lambda>_. - 1)(c := 1);
        (rc, po, s2) \<leftarrow> post ib c \<lparr>pq_qp = CTRL_QP, pq_buf = (R_log, off_log_commit), pq_len = 8,
            pq_mr = R_log, pq_opc = RDMA_WRITE, pq_sig = True,
            pq_rm = rmt c CTRL_QP (of_nat (off_vote_ack (me s))) s\<rparr> (Some posted) s1;
        if rc \<noteq> 0 then Some (1, s2)
        else do {
          (rc, posted', s3) \<leftarrow> wait_for_one ib (case po of None \<Rightarrow> posted | Some p \<Rightarrow> p) CTRL_QP s2;
          Some (if rc = RC_ERROR then 1 else if rc \<noteq> RC_SUCCESS then - 1 else 0, s3)
        }
      })"

section \<open>Recovery: the last vote given\<close>

fun better_vote :: "sends \<Rightarrow> nat \<Rightarrow> nat \<Rightarrow> ctrl_data \<Rightarrow> ctrl_data" where
  "better_vote posted i 0 c = c"
| "better_vote posted i (Suc n) c =
     (if posted i = 0
      then let c1 = (if c_sid c < c_rsid c i then c\<lparr>c_sid := c_rsid c i\<rparr> else c)
           in better_vote posted (Suc i) n (c1\<lparr>c_rsid := (c_rsid c1)(i := 0)\<rparr>)
      else better_vote posted (Suc i) n c)"

definition rc_get_replicated_vote :: "'e ibv \<Rightarrow> 'e srv \<Rightarrow> (int \<times> 'e srv) option" where
  "rc_get_replicated_vote ib s = do {
     (rc, posted, s1) \<leftarrow> post_each ib True (- 1) (\<lambda>i. ctrl_read (off_rsid i) 8 (off_prv_data (me s)) i)
          0 (group_n s) no_sends (inc_ssn s);
     if rc \<noteq> 0 then Some (RC_ERROR, s1)
     else do {
       (rc, posted', s2) \<leftarrow> wait_for_majority ib posted CTRL_QP s1;
       if rc = RC_ERROR then Some (1, s2)
       else if rc \<noteq> RC_SUCCESS then Some (- 1, s2)
       else Some (0, upd_ctrl (better_vote posted' 0 (group_n s)) s2)
     }
   }"

section \<open>Log adjustment\<close>

definition upd_offsets :: "nat \<Rightarrow> (log_offsets \<Rightarrow> log_offsets) \<Rightarrow> 'e srv \<Rightarrow> 'e srv" where
  "upd_offsets i f = upd_ctrl (\<lambda>c. c\<lparr>c_log_offsets := (c_log_offsets c)(i := f (c_log_offsets c i))\<rparr>)"

abbreviation rmt_offsets :: "'e srv \<Rightarrow> nat \<Rightarrow> log_offsets" where
  "rmt_offsets s i \<equiv> c_log_offsets (ctrl s) i"

text \<open>
  The switch over the adjustment step of server \<open>i\<close>: the operation to post, or \<open>None\<close> to
  go on with the next server.  The first step falls through to the second.
\<close>

definition adjust_nce_len :: "nat \<Rightarrow> u64 \<Rightarrow> 'e srv \<Rightarrow> post_req option \<times> 'e srv" where
  "adjust_nce_len i remote_commit s =
     (let s1 = (if log_is_offset_larger (slog s) remote_commit (log_commit (slog s))
                then upd_log (\<lambda>l. l\<lparr>log_commit := remote_commit\<rparr>) s else s)
      in (Some \<lparr>pq_qp = LOG_QP, pq_buf = (R_log, off_nc_buf i), pq_len = 8, pq_mr = R_log,
             pq_opc = RDMA_READ, pq_sig = True, pq_rm = rmt i LOG_QP (of_nat (off_nc_buf i)) s1\<rparr>, s1))"

definition adjust_nce :: "nat \<Rightarrow> 'e srv \<Rightarrow> post_req option \<times> 'e srv" where
  "adjust_nce i s =
     (let n = nc_len (log_nc_buf (slog s) i) in
      if n = 0
      then (None, upd_server i (\<lambda>v. v\<lparr>next_lr_step := LR_UPDATE_LOG\<rparr>)
                    (upd_offsets i (\<lambda>r. r\<lparr>lo_end := lo_commit r\<rparr>) s))
      else (Some \<lparr>pq_qp = LOG_QP, pq_buf = (R_log, off_nc_entries i), pq_len = ucast (n * 24),
             pq_mr = R_log, pq_opc = RDMA_READ, pq_sig = True,
             pq_rm = rmt i LOG_QP (of_nat (off_nc_entries i)) s\<rparr>, s))"

definition adjust_set_end :: "nat \<Rightarrow> 'e srv \<Rightarrow> (post_req option \<times> 'e srv) option" where
  "adjust_set_end i s =
     (case log_find_remote_end_offset (slog s) (log_nc_buf (slog s) i) of
        Inl _ \<Rightarrow> None
      | Inr v \<Rightarrow>
          let s1 = upd_offsets i (\<lambda>r. r\<lparr>lo_end := v\<rparr>) s
          in Some (Some \<lparr>pq_qp = LOG_QP, pq_buf = (R_ctrl, off_log_offsets i + 24), pq_len = 8,
               pq_mr = R_ctrl, pq_opc = RDMA_WRITE, pq_sig = True,
               pq_rm = rmt i LOG_QP (of_nat off_log_end) s1\<rparr>, s1))"

definition adjust_switch :: "nat \<Rightarrow> u64 \<Rightarrow> 'e srv \<Rightarrow> (post_req option \<times> 'e srv) option" where
  "adjust_switch i remote_commit s =
     (let step = next_lr_step (srv_at s i) in
      if step = LR_GET_WRITE
      then Some (adjust_nce_len i remote_commit
             (upd_server i (\<lambda>v. v\<lparr>next_lr_step := LR_GET_NCE_LEN\<rparr>)
               (upd_offsets i (\<lambda>r. r\<lparr>lo_commit := remote_commit\<rparr>) s)))
      else if step = LR_GET_NCE_LEN then Some (adjust_nce_len i remote_commit s)
      else if step = LR_GET_NCE then Some (adjust_nce i s)
      else if step = LR_SET_END then adjust_set_end i s
      else Some (None, s))"

text \<open>Before an operation of log replication is posted: no further one until it completes.\<close>

definition expect_wr :: "nat \<Rightarrow> 'e srv \<Rightarrow> 'e srv" where
  "expect_wr i s = upd_server i (\<lambda>v. v\<lparr>send_flag := False,
     next_wr_id := WRID_SET_CONN (WRID_SET_SSN (next_wr_id v) (ssn s)) (of_nat i)\<rparr>) s"

fun log_adjustment_loop :: "'e ibv \<Rightarrow> nat \<Rightarrow> nat \<Rightarrow> bool \<Rightarrow> 'e srv \<Rightarrow> (int \<times> 'e srv) option" where
  "log_adjustment_loop ib i 0 init s = Some (0, s)"
| "log_adjustment_loop ib i (Suc n) init s =
     (let v = srv_at s i; remote_commit = c_vote_ack (ctrl s) i in
      if i = me s \<or> \<not> CID_IS_SERVER_ON (cid (config s)) (of_nat i)
         \<or> fail_count v \<ge> PERMANENT_FAILURE \<or> \<not> send_flag v \<or> \<not> rc_connected (srv_ep v)
         \<or> log_len (slog s) = remote_commit
      then log_adjustment_loop ib (Suc i) n init s
      else
        let start = (\<not> init \<and> next_lr_step v < LR_UPDATE_LOG);
            s1 = (if start then inc_ssn s else s);
            init1 = (init \<or> start)
        in do {
          (req, s2) \<leftarrow> adjust_switch i remote_commit s1;
          case req of
            None \<Rightarrow> log_adjustment_loop ib (Suc i) n init1 s2
          | Some r \<Rightarrow> do {
              (rc, po, s3) \<leftarrow> post ib i r None (expect_wr i s2);
              if rc \<noteq> 0 then Some (RC_ERROR, s3)
              else log_adjustment_loop ib (Suc i) n init1 s3
            }
        })"

definition log_adjustment :: "'e ibv \<Rightarrow> 'e srv \<Rightarrow> (int \<times> 'e srv) option" where
  "log_adjustment ib s =
     log_adjustment_loop ib 0 (unat (get_extended_group_size (cid (config s)))) False s"

section \<open>Log update\<close>

text \<open>
  What is written to server \<open>i\<close>: the entries between its end and the local end, in one or
  two parts, or its end offset.  The second operation is the part behind the
  wrap-around.
\<close>

definition log_part :: "nat \<Rightarrow> u64 \<Rightarrow> u64 \<Rightarrow> 'e srv \<Rightarrow> post_req" where
  "log_part i from len s = \<lparr>pq_qp = LOG_QP, pq_buf = (R_log, off_entries + unat from), pq_len = ucast len,
     pq_mr = R_log, pq_opc = RDMA_WRITE, pq_sig = True,
     pq_rm = rmt i LOG_QP (ucast (of_nat off_entries + from :: u64)) s\<rparr>"

definition update_log_req :: "nat \<Rightarrow> 'e srv \<Rightarrow> post_req \<times> post_req option \<times> 'e srv" where
  "update_log_req i s =
     (let remote_end = lo_end (rmt_offsets s i); e = log_end (slog s);
          s1 = upd_server i (\<lambda>v. v\<lparr>cached_end_offset := e\<rparr>) s
      in if e > remote_end
         then (log_part i remote_end (e - remote_end) s1, None,
               upd_server i (\<lambda>v. v\<lparr>lr_send_count := 1\<rparr>) s1)
         else (log_part i remote_end (log_len (slog s) - remote_end) s1,
               (if (ucast e :: u32) > 0 then Some (log_part i 0 e s1) else None),
               upd_server i (\<lambda>v. v\<lparr>lr_send_count := 2\<rparr>) s1))"

definition update_end_req :: "nat \<Rightarrow> 'e srv \<Rightarrow> post_req \<times> post_req option \<times> 'e srv" where
  "update_end_req i s =
     (let s1 = upd_offsets i (\<lambda>r. r\<lparr>lo_end := cached_end_offset (srv_at s i)\<rparr>) s
      in (\<lparr>pq_qp = LOG_QP, pq_buf = (R_ctrl, off_log_offsets i + 24), pq_len = 8, pq_mr = R_ctrl,
           pq_opc = RDMA_WRITE, pq_sig = True, pq_rm = rmt i LOG_QP (of_nat off_log_end) s1\<rparr>, None, s1))"

fun write_logs_loop :: "'e ibv \<Rightarrow> nat \<Rightarrow> nat \<Rightarrow> bool \<Rightarrow> 'e srv \<Rightarrow> (int \<times> 'e srv) option" where
  "write_logs_loop ib i 0 init s = Some (0, s)"
| "write_logs_loop ib i (Suc n) init s =
     (let v = srv_at s i; step = next_lr_step v in
      if i = me s \<or> \<not> CID_IS_SERVER_ON (cid (config s)) (of_nat i)
         \<or> fail_count v \<ge> PERMANENT_FAILURE \<or> \<not> send_flag v \<or> \<not> rc_connected (srv_ep v)
      then write_logs_loop ib (Suc i) n init s
      else if step \<noteq> LR_UPDATE_LOG \<and> step \<noteq> LR_UPDATE_END
      then write_logs_loop ib (Suc i) n init s
      else if step = LR_UPDATE_LOG \<and> log_offset_end_distance (slog s) (lo_end (rmt_offsets s i)) = 0
      then write_logs_loop ib (Suc i) n init s
      else
        let s1 = (if init then s else inc_ssn s);
            (r, r2, s2) = (if step = LR_UPDATE_LOG then update_log_req i s1 else update_end_req i s1)
        in do {
          (rc, po, s3) \<leftarrow> post ib i r None (expect_wr i s2);
          if rc \<noteq> 0 then Some (RC_ERROR, s3)
          else case r2 of
            None \<Rightarrow> write_logs_loop ib (Suc i) n True s3
          | Some r' \<Rightarrow> do {
              (rc, po, s4) \<leftarrow> post ib i r' None
                 ((upd_server i (\<lambda>v. v\<lparr>send_flag := False\<rparr>) s3)\<lparr>wa_flag := True\<rparr>);
              write_logs_loop ib (Suc i) n True s4
            }
        })"

section \<open>The median of the end offsets\<close>

text \<open>
  The code computes the smallest offset that a majority has reached; its result is
  overwritten before it is used.
\<close>

definition valid_offset :: "'e srv \<Rightarrow> nat \<Rightarrow> u64" where
  "valid_offset s i =
     (if i = me s then log_end (slog s)
      else if \<not> CID_IS_SERVER_ON (cid (config s)) (of_nat i) \<or> fail_count (srv_at s i) \<ge> PERMANENT_FAILURE
          \<or> next_lr_step (srv_at s i) \<noteq> LR_UPDATE_LOG
      then log_commit (slog s)
      else lo_end (rmt_offsets s i))"

text \<open>The inner loop of the insertion sort moves larger elements one place up.\<close>

fun shift_down :: "u64 list \<Rightarrow> nat \<Rightarrow> u64 \<Rightarrow> u64 list" where
  "shift_down xs 0 tmp = xs[0 := tmp]"
| "shift_down xs (Suc k) tmp =
     (if xs ! k > tmp then shift_down (xs[Suc k := xs ! k]) k tmp else xs[Suc k := tmp])"

definition sort_offsets :: "u64 list \<Rightarrow> u64 list" where
  "sort_offsets xs = fold (\<lambda>i xs. shift_down xs i (xs ! i)) [1..<length xs] xs"

fun majority_offset :: "'e srv \<Rightarrow> nat \<Rightarrow> nat \<Rightarrow> u64 \<Rightarrow> u64" where
  "majority_offset s j 0 min_offset = min_offset"
| "majority_offset s j (Suc fuel) min_offset =
     (let c = cid (config s); sz = unat (if j = 0 then size0 c else size1 c);
          offs = map (valid_offset s) [0..<sz];
          larger = length (filter (\<lambda>i. i \<noteq> me s \<and> CID_IS_SERVER_ON c (of_nat i)
              \<and> \<not> fail_count (srv_at s i) \<ge> PERMANENT_FAILURE \<and> next_lr_step (srv_at s i) = LR_UPDATE_LOG
              \<and> log_is_offset_larger (slog s) (offs ! i) min_offset) [0..<sz])
      in if larger < sz div 2
         then (if cstate c \<noteq> CID_TRANSIT then min_offset
               else if j = 0 then majority_offset s 1 fuel min_offset else min_offset)
         else let median = sort_offsets offs ! ((sz - 1) div 2) in
           if cstate c \<noteq> CID_TRANSIT then median
           else majority_offset s (Suc j) fuel
             (if j = 0 then median
              else if log_is_offset_larger (slog s) min_offset median then median else min_offset))"

section \<open>Committing\<close>

text \<open>
  The number of servers below \<open>sz\<close> that have stored an entry: the leader itself and those
  whose reply byte is 1.
\<close>

definition count_replies :: "mem \<Rightarrow> nat \<Rightarrow> nat \<Rightarrow> nat \<Rightarrow> nat" where
  "count_replies m p sz self = length (filter (\<lambda>i. i = self \<or> entry_reply m p i = 1) [0..<sz])"

partial_function (option) commit_scan :: "dare_log \<Rightarrow> nat \<Rightarrow> nat \<Rightarrow> u64 \<Rightarrow> u64 option" where
  "commit_scan l sz self min_offset =
     (if log_offset_end_distance l min_offset = 0 then Some min_offset
      else case log_get_entry l min_offset of
        (None, o1) \<Rightarrow> None
      | (Some entry, o1) \<Rightarrow>
          if \<not> log_fit_entry l o1 entry then commit_scan l sz self 0
          else if count_replies (log_entries l) entry sz self < sz div 2 + 1 then Some o1
          else commit_scan l sz self (o1 + ucast (log_entry_len (log_entries l) entry)))"

definition advance_commit :: "nat \<Rightarrow> 'e srv \<Rightarrow> 'e srv option" where
  "advance_commit sz s = do {
     min_offset \<leftarrow> commit_scan (slog s) sz (me s) (log_commit (slog s));
     Some (if log_is_offset_larger (slog s) min_offset (log_commit (slog s))
           then (upd_config (\<lambda>c. c\<lparr>cid_offset := min_offset\<rparr>)
                  (upd_log (\<lambda>l. l\<lparr>log_commit := min_offset\<rparr>) s))\<lparr>committed_flag := True\<rparr>
           else s)
   }"

text \<open>Lazily updating the commit offsets of the other servers.\<close>

fun commit_offsets_loop :: "'e ibv \<Rightarrow> nat \<Rightarrow> nat \<Rightarrow> bool \<Rightarrow> 'e srv \<Rightarrow> (int \<times> 'e srv) option" where
  "commit_offsets_loop ib i 0 init s = Some (0, s)"
| "commit_offsets_loop ib i (Suc n) init s =
     (let v = srv_at s i; r = rmt_offsets s i; c = log_commit (slog s) in
      if i = me s \<or> \<not> CID_IS_SERVER_ON (cid (config s)) (of_nat i)
         \<or> fail_count v \<ge> PERMANENT_FAILURE \<or> \<not> rc_connected (srv_ep v) \<or> next_lr_step v \<noteq> LR_UPDATE_LOG
         \<or> lo_commit r = lo_end r \<or> lo_commit r = c
      then commit_offsets_loop ib (Suc i) n init s
      else
        let c' = (if log_is_offset_larger (slog s) c (lo_end r) then lo_end r else c);
            s1 = upd_offsets i (\<lambda>r. r\<lparr>lo_commit := c'\<rparr>) s;
            s2 = (if init then s1 else inc_ssn s1)
        in do {
          (rc, po, s3) \<leftarrow> post ib i \<lparr>pq_qp = LOG_QP, pq_buf = (R_ctrl, off_log_offsets i + 16), pq_len = 8,
              pq_mr = R_ctrl, pq_opc = RDMA_WRITE, pq_sig = False,
              pq_rm = rmt i LOG_QP (of_nat off_log_commit) s2\<rparr> None s2;
          if rc \<noteq> 0 then Some (RC_ERROR, s3) else commit_offsets_loop ib (Suc i) n True s3
        })"

text \<open>
  After the loop over the two sizes the variable \<^verbatim>\<open>size\<close> holds the second one in a
  transitional configuration and the first one otherwise.
\<close>

definition commit_group :: "dare_cid \<Rightarrow> nat" where
  "commit_group c = unat (if cstate c = CID_TRANSIT then size1 c else size0 c)"

definition update_remote_logs :: "'e ibv \<Rightarrow> 'e srv \<Rightarrow> (int \<times> 'e srv) option" where
  "update_remote_logs ib s = do {
     (rc, s1) \<leftarrow> write_logs_loop ib 0 (unat (get_extended_group_size (cid (config s)))) False s;
     if rc \<noteq> 0 then Some (RC_ERROR, s1)
     else do {
       let unused = majority_offset s1 0 2 (log_commit (slog s1));
       let sz = commit_group (cid (config s1));
       s2 \<leftarrow> advance_commit sz s1;
       (rc, s3) \<leftarrow> commit_offsets_loop ib 0 sz False s2;
       Some (if rc \<noteq> 0 then RC_ERROR else RC_SUCCESS, s3)
     }
   }"

section \<open>Replication\<close>

text \<open>
  \<^verbatim>\<open>rc_write_remote_logs\<close>: \<open>k\<close> rounds are left before the threshold of 1000.
\<close>

fun write_remote_logs_loop :: "'e ibv \<Rightarrow> bool \<Rightarrow> nat \<Rightarrow> 'e srv \<Rightarrow> (int \<times> 'e srv) option" where
  "write_remote_logs_loop ib wait_for_commit 0 s = Some (0, s)"
| "write_remote_logs_loop ib wait_for_commit (Suc k) s = do {
     (rc, s1) \<leftarrow> (if wait_for_commit
                  then map_option (\<lambda>(rc, p, t). (rc, t))
                         (empty_completion_queue ib 0 LOG_QP False None (s\<lparr>wrl_count := wrl_count s + 1\<rparr>))
                  else Some (0, s));
     if rc \<noteq> 0 then Some (1, s1)
     else do {
       (rc, s2) \<leftarrow> log_adjustment ib s1;
       if rc = RC_ERROR then Some (1, s2)
       else do {
         (rc, s3) \<leftarrow> update_remote_logs ib s2;
         if rc = RC_ERROR then Some (1, s3)
         else if wait_for_commit \<and> committed_flag s3 then Some (0, s3)
         else if k = 0 then Some (0, s3)
         else if wait_for_commit then write_remote_logs_loop ib wait_for_commit k s3
         else Some (0, s3)
       }
     }
   }"

definition rc_write_remote_logs :: "'e ibv \<Rightarrow> bool \<Rightarrow> 'e srv \<Rightarrow> (int \<times> 'e srv) option" where
  "rc_write_remote_logs ib wait_for_commit s =
     write_remote_logs_loop ib wait_for_commit 1000
       (if wait_for_commit then s\<lparr>committed_flag := False, wrl_count := 0\<rparr> else s)"

definition rc_send_entries_reply :: "'e ibv \<Rightarrow> u8 \<Rightarrow> 'e srv \<Rightarrow> (int \<times> 'e srv) option" where
  "rc_send_entries_reply ib idx s =
     (let entry = unat (log_old_end (slog s)); byte = entry + off_reply + me s;
          s1 = inc_ssn (upd_log (\<lambda>l. l\<lparr>log_entries := wr8 (log_entries l) byte 1\<rparr>) s)
      in if \<not> rc_connected (ep_at s1 (unat idx)) then Some (0, s1)
         else map_option (\<lambda>(rc, p, s'). (if rc \<noteq> 0 then 1 else 0, s'))
           (post ib (unat idx) \<lparr>pq_qp = LOG_QP, pq_buf = (R_log, off_entries + byte), pq_len = 1, pq_mr = R_log,
              pq_opc = RDMA_WRITE, pq_sig = False,
              pq_rm = rmt (unat idx) LOG_QP (of_nat (off_entries + byte)) s1\<rparr> None s1))"

fun apply_offsets_loop :: "'e ibv \<Rightarrow> nat \<Rightarrow> nat \<Rightarrow> bool \<Rightarrow> 'e srv \<Rightarrow> (int \<times> 'e srv) option" where
  "apply_offsets_loop ib i 0 init s = Some (0, s)"
| "apply_offsets_loop ib i (Suc n) init s =
     (let v = srv_at s i in
      if i = me s \<or> \<not> CID_IS_SERVER_ON (cid (config s)) (of_nat i)
      then apply_offsets_loop ib (Suc i) n init
             (upd_ctrl (\<lambda>c. c\<lparr>c_apply_offsets := (c_apply_offsets c)(i := log_apply (slog s))\<rparr>) s)
      else if fail_count v \<ge> PERMANENT_FAILURE \<or> \<not> rc_connected (srv_ep v)
         \<or> log_len (slog s) = c_vote_ack (ctrl s) i \<or> last_get_read_ssn v \<noteq> 0
      then apply_offsets_loop ib (Suc i) n init s
      else
        let s1 = (if init then s else inc_ssn s);
            s2 = upd_server i (\<lambda>v. v\<lparr>last_get_read_ssn := ssn s1\<rparr>) s1
        in do {
          (rc, po, s3) \<leftarrow> post ib i \<lparr>pq_qp = LOG_QP, pq_buf = (R_ctrl, off_apply_offsets i), pq_len = 8,
              pq_mr = R_ctrl, pq_opc = RDMA_READ, pq_sig = False,
              pq_rm = rmt i LOG_QP (of_nat off_log_apply) s2\<rparr> None s2;
          if rc \<noteq> 0 then Some (RC_ERROR, s3) else apply_offsets_loop ib (Suc i) n True s3
        })"

definition rc_get_remote_apply_offsets :: "'e ibv \<Rightarrow> 'e srv \<Rightarrow> (int \<times> 'e srv) option" where
  "rc_get_remote_apply_offsets ib s =
     apply_offsets_loop ib 0 (unat (get_extended_group_size (cid (config s)))) False s"

declare commit_scan.simps [code]

end
