(* ===== verification/Dare_Demo.thy ===== *)
theory Dare_Demo
  imports Dare_State
begin

text \<open>
  A concrete group of three servers seen from server 0, and a concrete environment, for
  the instances of the properties: \<open>idle_ib\<close> accepts every call and never has a completion;
  the completions of \<open>demo_ib\<close> come from a list given in advance.
\<close>

definition demo_cid :: dare_cid where
  "demo_cid = \<lparr>epoch = 0, size0 = 3, size1 = 0, cstate = 0, bitmask = 7\<rparr>"

definition demo_ib_ep :: ib_ep where
  "demo_ib_ep = \<lparr>ib_ud = \<lparr>ud_lid = 0, ud_gid = [], ud_qpn = 0, ud_ah = True\<rparr>,
     rmt_mr = (\<lambda>_. \<lparr>raddr = 0, rkey = 0\<rparr>),
     rc_qps = (\<lambda>_. \<lparr>signaled_wr_id = 0, rqpn = 0, send_count = 0, qp_state = 0\<rparr>),
     ib_mtu = 0, rc_connected = True, log_access = True\<rparr>"

definition demo_server :: "u8 \<Rightarrow> u8 \<Rightarrow> server" where
  "demo_server step n = \<lparr>next_wr_id = 0, cached_end_offset = 0, last_get_read_ssn = 0,
     srv_ep = demo_ib_ep, fail_count = 0, next_lr_step = step, send_flag = False, lr_send_count = n\<rparr>"

definition demo_config :: server_config where
  "demo_config = \<lparr>cid = demo_cid, cid_offset = 0, cid_idx = 0, cfg_req_id = 0,
     servers = (\<lambda>_. demo_server 5 0), cfg_clt_id = 0, my_idx = 0, cfg_len = 3\<rparr>"

definition demo_ctrl :: ctrl_data where
  "demo_ctrl = \<lparr>c_sid = 0, c_vote_req = (\<lambda>_. \<lparr>vr_sid = 0, vr_index = 0, vr_term = 0, vr_cid = demo_cid\<rparr>),
     c_log_offsets = (\<lambda>_. \<lparr>lo_head = 0, lo_apply = 0, lo_commit = 0, lo_end = 0\<rparr>),
     c_sm_rep = (\<lambda>_. \<lparr>sr_sid = 0, sr_raddr = 0, sr_rkey = 0, sr_len = 0\<rparr>),
     c_sm_req = (\<lambda>_. 0), c_hb = (\<lambda>_. 0), c_vote_ack = (\<lambda>_. 0), c_rsid = (\<lambda>_. 0),
     c_apply_offsets = (\<lambda>_. 0), c_prv_data = (\<lambda>_. 0)\<rparr>"

definition demo_timer :: "timer_cb \<Rightarrow> ev_timer" where
  "demo_timer cb = \<lparr>tm_cb = cb, tm_repeat = 1, tm_active = True\<rparr>"

definition demo_snapshot :: snapshot where
  "demo_snapshot = \<lparr>sn_last_entry = \<lparr>det_idx = 0, det_term = 0, det_offset = 0\<rparr>, sn_len = 0, sn_data = []\<rparr>"

definition demo_srv :: "dare_log \<Rightarrow> 'e \<Rightarrow> 'e srv" where
  "demo_srv l e = \<lparr>config = demo_config, ctrl = demo_ctrl, slog = l, endpoints = Leaf,
     last_write_csm_idx = 0, last_cmt_write_csm_idx = 0, prereg_snapshot = demo_snapshot,
     snapshot_buf = None, ssn = 1, wa_flag = False, rc_max_send_wr = 4096, rc_max_inline_data = 64,
     loggp_not_inline = False, dare_state = 0, prev_log_entry_head = False,
     last_applied_entry = \<lparr>det_idx = 0, det_term = 0, det_offset = 0\<rparr>, recomputed_hb_timeout = 1,
     leader_failed = False, hb_timeout_flag = False, latest_hb_received = 0, poll_active = True,
     timer_event = demo_timer Cb_none, hb_event = demo_timer Cb_hb_receive,
     to_adjust_event = demo_timer Cb_to_adjust, prune_event = demo_timer Cb_prune_log,
     hb_total_count = 0, hb_fp_count = 0, request_id = 1, tailhead = [], committed_flag = False, wrl_count = 0, hb_period = 1, elec_timeout_low = 10,
     elec_timeout_high = 20, rc_info_period = 1, retransmit_period = 1, log_pruning_period = 1,
     sent = [], env = e\<rparr>"

definition idle_ib :: "'e ibv" where
  "idle_ib = \<lparr>ib_post_send = (\<lambda>i q w e. (0, e)), ib_poll_cq = (\<lambda>q m e. (Some [], m, e)),
     ib_modify_qp = (\<lambda>i q a e. (0, e)), ib_query_qp = (\<lambda>i q e. (IBV_QPS_RTS, e)), ib_undef = 0,
     ev_now = (\<lambda>e. (0, e)), lrand48 = (\<lambda>e. (0, e)), proxy_store_cmd = (\<lambda>d e. e),
     proxy_do_action = (\<lambda>c t d e. e), proxy_update_state = (\<lambda>e. e), proxy_get_db_size = (\<lambda>e. 0),
     proxy_create_db_snapshot = (\<lambda>e. []), proxy_apply_db_snapshot = (\<lambda>d e. (0, e)),
     ib_reg_mr = (\<lambda>r n e. (True, e)), ib_region_addr = (\<lambda>r. 0), ib_region_rkey = (\<lambda>r. 0),
     ib_snapshot = (\<lambda>e. demo_snapshot), posix_memalign = (\<lambda>e. (0, e)),
     ud_post = (\<lambda>d m e. (0, e)), ud_poll_scq = (\<lambda>e. (1, IBV_WC_SUCCESS, e)),
     ud_poll_rcq = (\<lambda>e. (0, \<lparr>uw_stat = IBV_WC_SUCCESS, uw_recv = True, uw_slid = 0, uw_src_qp = 0, uw_wr_id = 0\<rparr>,
        Msg_clt \<lparr>uh_id = 0, uh_type = 0, uh_gid = [], uh_slid = 0\<rparr> [], e)),
     ud_post_one_receive = (\<lambda>i e. e), ud_ah_create = (\<lambda>l g e. (True, e)), dev_gid = [], dev_lid = 1,
     dev_mtu = 5, unique_slid = 1, qp_num = (\<lambda>i q. 0),
     raw_ep = (\<lambda>e. \<lparr>ep_ud = \<lparr>ud_lid = 0, ud_gid = [], ud_qpn = 0, ud_ah = True\<rparr>,
        last_read_request = [], wait_for_idx = 0, last_req_id = 0, ep_cid_idx = 0, committed = False\<rparr>),
     sm_apply_cmd = (\<lambda>c e. (0, [], e))\<rparr>"

definition demo_poll :: "nat \<Rightarrow> ctrl_data \<times> dare_log \<Rightarrow> wc list list \<Rightarrow> wc list option \<times> (ctrl_data \<times> dare_log) \<times> wc list list" where
  "demo_poll q m e = (case e of [] \<Rightarrow> (Some [], m, []) | ws # e' \<Rightarrow> (Some ws, m, e'))"

definition demo_ib :: "wc list list ibv" where
  "demo_ib = idle_ib\<lparr>ib_poll_cq := demo_poll\<rparr>"

text \<open>A successful completion of a request to server \<open>i\<close> with sequence number 1.\<close>

definition demo_wc :: "u64 \<Rightarrow> wc" where
  "demo_wc i = \<lparr>wc_wr_id = 1024 OR i, wc_stat = IBV_WC_SUCCESS\<rparr>"

lemmas demo_defs = demo_cid_def demo_ib_ep_def demo_server_def demo_config_def demo_ctrl_def
  demo_timer_def demo_snapshot_def demo_srv_def demo_poll_def idle_ib_def demo_ib_def demo_wc_def

end
