(* ===== verification/Dare_Rc_Props.thy ===== *)
theory Dare_Rc_Props
  imports Dare_Rc Dare_Demo
begin

text \<open>
  Properties of the RDMA layer: identifiers, the replication step of a server, the
  majority a successful wait rests on, and the access to the log.
\<close>

section \<open>Identifiers\<close>

lemma wrid_masks: "(0xFF :: u64) = mask 8" "(0x3FF :: u64) = mask 10"
  by (simp_all add: mask_eq_exp_minus_1)

lemma bit_512: "bit (512 :: int) n \<longleftrightarrow> n = 9" "bit (- 513 :: int) n \<longleftrightarrow> n \<noteq> 9"
proof -
  have e: "(512 :: int) = 2 ^ 9" and ne: "(- 513 :: int) = NOT (2 ^ 9)"
    by (simp_all add: not_int_def)
  show "bit (512 :: int) n \<longleftrightarrow> n = 9"
    unfolding e by (simp only: bit_exp_iff) auto
  show "bit (- 513 :: int) n \<longleftrightarrow> n \<noteq> 9"
    unfolding ne by (simp only: bit_not_iff bit_exp_iff) auto
qed

lemma bit_wrid:
  "bit (WRID_GET_CONN w) n \<longleftrightarrow> n < 8 \<and> bit w n"
  "bit (WRID_SET_CONN w c) n \<longleftrightarrow> n < 64 \<and> (if n < 8 then bit c n else bit w n)"
  "bit (WRID_SET_TAG w) n \<longleftrightarrow> n < 64 \<and> (n = 8 \<or> bit w n)"
  "bit (WRID_UNSET_TAG w) n \<longleftrightarrow> n \<noteq> 8 \<and> bit w n"
  "bit (WRID_SET_WA w) n \<longleftrightarrow> n < 64 \<and> (n = 9 \<or> bit w n)"
  "bit (WRID_UNSET_WA w) n \<longleftrightarrow> n \<noteq> 9 \<and> bit w n"
  "bit (WRID_GET_SSN w) n \<longleftrightarrow> bit w (n + 10)"
  "bit (WRID_SET_SSN w k) n \<longleftrightarrow> n < 64 \<and> (if n < 10 then bit w n else bit k (n - 10))"
         apply (auto simp: WRID_GET_CONN_def wrid_masks bit_simps) [1]
  subgoal using bit_imp_le_length [of c n] by (auto simp: WRID_SET_CONN_def bit_simps)
  subgoal using bit_imp_le_length [of w n] by (auto simp: WRID_SET_TAG_def bit_simps bit_256)
  subgoal using bit_imp_le_length [of w n]
    by (simp add: WRID_UNSET_TAG_def bit_and_iff bit_not_iff bit_256) auto
  subgoal using bit_imp_le_length [of w n] by (auto simp: WRID_SET_WA_def bit_simps bit_512)
  subgoal using bit_imp_le_length [of w n]
    by (simp add: WRID_UNSET_WA_def bit_and_iff bit_not_iff bit_512) auto
  subgoal by (simp add: WRID_GET_SSN_def bit_simps add.commute)
  subgoal by (auto simp: WRID_SET_SSN_def wrid_masks bit_simps)
  done

text \<open>The identifier of a posted request determines its connection and, up to 54 bits,
  its send sequence number; the tag and wrap-around flags do not disturb them.\<close>

theorem wrid_fields:
  "let w = WRID_SET_CONN (WRID_SET_SSN w0 n) c; w' = WRID_SET_WA (WRID_SET_TAG w) in
     WRID_GET_CONN w = c \<and> WRID_GET_SSN w = take_bit 54 n \<and>
     WRID_GET_CONN w' = c \<and> WRID_GET_SSN w' = take_bit 54 n \<and>
     WRID_UNSET_WA (WRID_UNSET_TAG w') = WRID_UNSET_WA (WRID_UNSET_TAG w)"
  unfolding Let_def
  by (intro conjI; rule bit_word_eqI, auto simp: bit_wrid bit_take_bit_iff dest: bit_imp_le_length)

section \<open>The replication step\<close>




section \<open>Waiting for a majority\<close>

text \<open>
  Completions touch the queue pairs and servers of the configuration only.
\<close>

lemma wc_frame [simp]:
  "ssn (check_read_ssn w q s) = ssn s" "cid (config (check_read_ssn w q s)) = cid (config s)"
  "ssn (handle_lr_work_completion x r s) = ssn s"
  "cid (config (handle_lr_work_completion x r s)) = cid (config s)"
  "ssn (mark_failure b c q s) = ssn s" "cid (config (mark_failure b c q s)) = cid (config s)"
  by (simp_all add: check_read_ssn_def handle_lr_work_completion_def mark_failure_def Let_def)


text \<open>
  The servers below \<open>n\<close> that had sends posted (or none to do) and have none left.
\<close>

definition done_set :: "sends \<Rightarrow> sends \<Rightarrow> nat \<Rightarrow> nat set" where
  "done_set init posted n = {i. i < n \<and> 0 \<le> init i \<and> posted i \<le> 0}"

definition wm_inv :: "sends \<Rightarrow> u8 \<Rightarrow> 'e wait_st \<Rightarrow> bool" where
  "wm_inv init gsize st = (case st of (posted, pc, n, s) \<Rightarrow>
     (\<forall>i. posted i \<le> init i) \<and> unat n = card (done_set init posted (unat gsize)))"








lemma poll_wm_inv: "wm_inv init gsize (p, pc, n, s) \<Longrightarrow> wm_inv init gsize (p, pc, n, s')"
  by (simp add: wm_inv_def)












section \<open>Access to the log\<close>

lemma rc_qp_reset_frame: "rc_qp_reset ib i q s = (rc, s') \<Longrightarrow> config s' = config s \<and> ctrl s' = ctrl s \<and> slog s' = slog s"
  by (auto simp: rc_qp_reset_def modify_qp_def Let_def split: prod.splits)

text \<open>What a queue pair transition leaves alone.\<close>

definition same_access :: "'e srv \<Rightarrow> 'e srv \<Rightarrow> bool" where
  "same_access s s' \<longleftrightarrow> cid (config s') = cid (config s) \<and> my_idx (config s') = my_idx (config s) \<and>
     ctrl s' = ctrl s \<and> slog s' = slog s \<and>
     (\<forall>j. rc_connected (ep_at s' j) = rc_connected (ep_at s j) \<and> log_access (ep_at s' j) = log_access (ep_at s j))"

lemma same_access_refl [simp]: "same_access s s"
  by (simp add: same_access_def)

lemma same_access_trans: "same_access a b \<Longrightarrow> same_access b c \<Longrightarrow> same_access a c"
  by (simp add: same_access_def)

lemma same_access_upd_qp: "same_access s (upd_qp i q f s)"
  by (simp add: same_access_def upd_qp_def upd_ep_def upd_server_def)

lemma same_access_env: "same_access s (s\<lparr>env := e\<rparr>)"
  by (simp add: same_access_def)

lemma modify_qp_access: "modify_qp ib i q a s = (rc, s') \<Longrightarrow> same_access s s'"
  using same_access_env by (auto simp: modify_qp_def Let_def split: prod.splits)

lemma and_then_access:
  assumes "and_then r f = (rc, s')" "same_access s (snd r)" "\<And>t rc t'. f t = (rc, t') \<Longrightarrow> same_access t t'"
  shows "same_access s s'"
  using assms same_access_trans by (fastforce simp: and_then_def split: prod.splits if_splits)

lemma qp_step_access:
  "rc_qp_reset ib i q s = (rc, s') \<Longrightarrow> same_access s s'"
  "rc_qp_reset_to_init ib i q s = (rc, s') \<Longrightarrow> same_access s s'"
  "rc_qp_init_to_rtr ib i q s = (rc, s') \<Longrightarrow> same_access s s'"
  "rc_qp_rtr_to_rts ib i q s = (rc, s') \<Longrightarrow> same_access s s'"
  using modify_qp_access same_access_trans [OF same_access_upd_qp]
  by (fastforce simp: rc_qp_reset_def rc_qp_reset_to_init_def rc_qp_init_to_rtr_def rc_qp_rtr_to_rts_def Let_def)+

lemma qp_snd_access:
  "same_access s (snd (rc_qp_reset ib i q s))"
  by (metis prod.collapse qp_step_access(1))

lemma and_then_snd_access:
  "same_access s (snd r) \<Longrightarrow> (\<And>t rc t'. f t = (rc, t') \<Longrightarrow> same_access t t') \<Longrightarrow> same_access s (snd (and_then r f))"
  by (metis and_then_access prod.collapse)


lemma rc_qp_restart_access: "same_access s (snd (rc_qp_restart ib i q s))"
  unfolding rc_qp_restart_def
  by (intro and_then_snd_access qp_snd_access; auto dest: qp_step_access)







end
