(* ===== verification/Dare_Log_Walk.thy ===== *)
theory Dare_Log_Walk
  imports Dare_Log "HOL-Library.Sublist"
begin

text \<open>
  The shape of a well-formed log: \<open>chain L m h e os\<close> says that walking a buffer of \<open>L\<close>
  bytes from offset \<open>h\<close> to the end offset \<open>e\<close> meets exactly the entries at the
  addresses \<open>os\<close>, none of which overlap, whether or not the walk passes the end of
  the buffer.  The lemmas say how one round of the C loops moves along a chain
  and what writing one more entry does to it.
\<close>

section \<open>Entries do not depend on bytes outside them\<close>

definition elen :: "mem \<Rightarrow> nat \<Rightarrow> nat" where
  "elen m a = unat (log_entry_len m a)"

lemma unat_of_nat_small: "n < 2 ^ LENGTH('a) \<Longrightarrow> unat (of_nat n :: 'a::len word) = n"
  by (simp add: unsigned_of_nat take_bit_nat_eq_self)

lemma elen_eq:
  "elen m a = (if entry_type m a = NOOP \<or> entry_type m a = CONFIG \<or> entry_type m a = HEAD
               then 64 else 64 + unat (entry_cmd_len m a))"
proof -
  have b: "unat (entry_cmd_len m a) < 65536"
    using unsigned_less [of "entry_cmd_len m a", where 'a = nat] by simp
  have "unat (64 + ucast (entry_cmd_len m a) :: u32) = 64 + unat (entry_cmd_len m a)"
  proof -
    have "unat (64 + ucast (entry_cmd_len m a) :: u32)
      = (64 + unat (ucast (entry_cmd_len m a) :: u32)) mod 2 ^ 32"
      by (simp add: unat_word_ariths)
    also have "unat (ucast (entry_cmd_len m a) :: u32) = unat (entry_cmd_len m a)"
      using b by (simp add: unsigned_ucast_eq take_bit_nat_eq_self)
    finally show ?thesis using b by simp
  qed
  then show ?thesis by (simp add: elen_def log_entry_len_def layout_simps)
qed

lemma elen_bounds: "64 \<le> elen m a" "elen m a < 64 + 65536"
  using unsigned_less [of "entry_cmd_len m a", where 'a = nat] by (auto simp: elen_eq)

lemma elen_pos [simp]: "0 < elen m a"
  using elen_bounds(1) [of m a] by linarith

text \<open>The fields a walker reads: everything but the reply bytes, the sender and the data.\<close>

definition same_header :: "mem \<Rightarrow> nat \<Rightarrow> nat \<Rightarrow> bool" where
  "same_header m a b \<longleftrightarrow>
     entry_idx m a = entry_idx m b \<and> entry_term m a = entry_term m b \<and>
     entry_type m a = entry_type m b \<and> entry_cmd_len m a = entry_cmd_len m b"

lemma same_header_refl [simp]: "same_header m a a"
  by (simp add: same_header_def)

lemma same_header_elen: "same_header m a b \<Longrightarrow> elen m a = elen m b"
  by (simp add: same_header_def elen_eq)

definition agree :: "mem \<Rightarrow> mem \<Rightarrow> nat set \<Rightarrow> bool" where
  "agree m m' A \<longleftrightarrow> (\<forall>x\<in>A. m' x = m x)"

lemma agree_load: "agree m m' A \<Longrightarrow> {a..<a + n} \<subseteq> A \<Longrightarrow> load m' a n = load m a n"
  by (rule load_cong) (auto simp: agree_def subset_iff)

lemma agree_subset: "agree m m' A \<Longrightarrow> B \<subseteq> A \<Longrightarrow> agree m m' B"
  by (auto simp: agree_def)

lemma header_cong:
  assumes "agree m m' A" "{a..<a + 50} \<subseteq> A"
  shows "entry_idx m' a = entry_idx m a" "entry_term m' a = entry_term m a"
    "entry_type m' a = entry_type m a" "entry_cmd_len m' a = entry_cmd_len m a"
proof -
  have l: "load m' (a + k) n = load m (a + k) n" if "k + n \<le> 50" for k n
    using assms that by (intro agree_load [of m m' A]) (auto simp: subset_iff)
  show "entry_idx m' a = entry_idx m a" "entry_term m' a = entry_term m a"
    "entry_cmd_len m' a = entry_cmd_len m a"
    using l [of 0 8] l [of 8 8] l [of 48 2]
    by (simp_all add: entry_idx_def entry_term_def entry_cmd_len_def rd_defs layout_simps)
  show "entry_type m' a = entry_type m a"
    using assms by (auto simp: entry_type_def rd_defs layout_simps agree_def subset_iff)
qed

lemma elen_cong: "agree m m' A \<Longrightarrow> {a..<a + 50} \<subseteq> A \<Longrightarrow> elen m' a = elen m a"
  using header_cong [of m m' A a] by (simp add: elen_eq)

lemma same_header_cong:
  "agree m m' A \<Longrightarrow> {a..<a + 50} \<subseteq> A \<Longrightarrow> {b..<b + 50} \<subseteq> A
    \<Longrightarrow> same_header m' a b = same_header m a b"
  using header_cong [of m m' A a] header_cong [of m m' A b] by (simp add: same_header_def)

lemma entry_at_cong:
  assumes ag: "agree m m' A" and sub: "{a..<a + elen m a} \<subseteq> A"
  shows "entry_at m' a = entry_at m a"
proof -
  have n64: "{a..<a + 64} \<subseteq> A"
    using sub elen_bounds(1) [of m a] by (force simp: subset_iff)
  then have n50: "{a..<a + 50} \<subseteq> A" by (auto simp: subset_iff)
  have l: "load m' (a + k) n = load m (a + k) n" if "k + n \<le> 64" for k n
    using ag n64 that by (intro agree_load [of m m' A]) (auto simp: subset_iff)
  have b: "m' (a + 27) = m (a + 27)"
    using ag n64 by (auto simp: agree_def subset_iff)
  note h = header_cong [OF ag n50]
  have cmd: "entry_cmd m' a = entry_cmd m a"
    if "\<not> (entry_type m a = NOOP \<or> entry_type m a = CONFIG \<or> entry_type m a = HEAD)"
  proof -
    have "elen m a = 64 + unat (entry_cmd_len m a)" using that by (simp add: elen_eq)
    then have "{a + 50..<a + 50 + unat (entry_cmd_len m a)} \<subseteq> A"
      using sub by (auto simp: subset_iff)
    then show ?thesis
      using agree_load [OF ag] by (simp add: entry_cmd_def h layout_simps)
  qed
  show ?thesis
    using l [of 16 8] l [of 24 2] l [of 28 13] l [of 48 16] l [of 48 8] b cmd
    by (simp add: entry_at_def h entry_req_id_def entry_clt_id_def entry_cid_def entry_head_def
        rd_defs layout_simps)
qed

section \<open>Chains\<close>

text \<open>
  A walk leaves the end of the buffer for offset 0 either because no header fits
  there, or at a header whose command does not fit and which is repeated at 0.
\<close>

definition wrap_at :: "nat \<Rightarrow> mem \<Rightarrow> nat \<Rightarrow> bool" where
  "wrap_at L m x \<longleftrightarrow> x \<le> L \<and> (L < x + 64 \<or> L < x + elen m x \<and> same_header m x 0)"

fun chain :: "nat \<Rightarrow> mem \<Rightarrow> nat \<Rightarrow> nat \<Rightarrow> nat list \<Rightarrow> bool" where
  "chain L m h e [] \<longleftrightarrow> h = e"
| "chain L m h e (p # os) \<longleftrightarrow> h \<noteq> e \<and>
     (if h + elen m h \<le> (if h < e then e else L)
      then p = h \<and> chain L m (h + elen m h) e os
      else e < h \<and> wrap_at L m h \<and> p = 0 \<and> elen m 0 \<le> e \<and> chain L m (elen m 0) e os)"

text \<open>The bytes between two offsets, around the end of the buffer.\<close>

definition cover :: "nat \<Rightarrow> nat \<Rightarrow> nat \<Rightarrow> nat set" where
  "cover L h e = (if h \<le> e then {h..<e} else {h..<L} \<union> {0..<e})"

lemma cover_unwrapped [simp]: "h \<le> e \<Longrightarrow> cover L h e = {h..<e}"
  by (simp add: cover_def)

lemma chain_entries:
  "chain L m h e os \<Longrightarrow> e \<le> L \<Longrightarrow> p \<in> set os \<Longrightarrow> {p..<p + elen m p} \<subseteq> cover L h e"
proof (induction os arbitrary: h)
  case Nil
  then show ?case by simp
next
  case (Cons q os)
  show ?case
  proof (cases "h + elen m h \<le> (if h < e then e else L)")
    case True
    then have q: "q = h" "chain L m (h + elen m h) e os" "h \<noteq> e" using Cons.prems(1) by simp_all
    have mono: "cover L (h + elen m h) e \<subseteq> cover L h e"
      using True q(3) by (auto simp: cover_def split: if_splits)
    have "{h..<h + elen m h} \<subseteq> cover L h e"
      using True q(3) by (auto simp: cover_def split: if_splits)
    then show ?thesis using Cons.IH [OF q(2) Cons.prems(2)] Cons.prems(3) q(1) mono by auto
  next
    case False
    then have q: "q = 0" "e < h" "elen m 0 \<le> e" "chain L m (elen m 0) e os"
      using Cons.prems(1) by simp_all
    have mono: "cover L (elen m 0) e \<subseteq> cover L h e" "{0..<elen m 0} \<subseteq> cover L h e"
      using q by (auto simp: cover_def)
    then show ?thesis using Cons.IH [OF q(4) Cons.prems(2)] Cons.prems(3) q(1) by auto
  qed
qed

lemma wrap_at_cong:
  assumes "agree m m' A" "{h..<L} \<subseteq> A" "{0..<50} \<subseteq> A" "h \<le> L"
  shows "wrap_at L m' h = wrap_at L m h"
proof (cases "L < h + 64")
  case False
  then have "{h..<h + 50} \<subseteq> A" using assms by (auto simp: subset_iff)
  then show ?thesis
    using elen_cong [OF assms(1), of h] same_header_cong [OF assms(1), of h 0] assms(3)
    by (simp add: wrap_at_def)
qed (use assms in \<open>simp add: wrap_at_def\<close>)

text \<open>
  Writing one more entry at the end: contiguously, or at offset 0 after the
  offset \<open>e\<close> at which it does not fit.
\<close>

lemma chain_snoc_fit:
  assumes "chain L m h e os" "agree m m' (cover L h e)" "elen m' e = n" "e + n \<le> L"
    and "e < h \<Longrightarrow> e + n < h"
  shows "chain L m' h (e + n) (os @ [e])"
  using assms
proof (induction os arbitrary: h)
  case Nil
  then show ?case using elen_pos [of m' e] by auto
next
  case (Cons p os)
  have n0: "0 < n" using Cons.prems(3) elen_pos [of m' e] by simp
  show ?case
  proof (cases "h + elen m h \<le> (if h < e then e else L)")
    case True
    then have q: "p = h" "chain L m (h + elen m h) e os" "h \<noteq> e" using Cons.prems(1) by simp_all
    have "{h..<h + 50} \<subseteq> cover L h e"
      using True q(3) elen_bounds(1) [of m h] by (auto simp: cover_def split: if_splits)
    then have el: "elen m' h = elen m h" using elen_cong [OF Cons.prems(2)] by blast
    have "agree m m' (cover L (h + elen m h) e)"
      using True q(3) by (intro agree_subset [OF Cons.prems(2)]) (auto simp: cover_def split: if_splits)
    moreover have "e < h + elen m h \<Longrightarrow> e + n < h + elen m h"
      using True q(3) Cons.prems(5) by (auto split: if_splits)
    ultimately have "chain L m' (h + elen m h) (e + n) (os @ [e])"
      using Cons.IH q(2) Cons.prems by blast
    then show ?thesis using True q el Cons.prems(5) n0 by (auto split: if_splits)
  next
    case False
    then have q: "p = 0" "e < h" "wrap_at L m h" "elen m 0 \<le> e" "chain L m (elen m 0) e os"
      "\<not> h + elen m h \<le> L"
      using Cons.prems(1) by (simp_all split: if_splits)
    have hL: "h \<le> L" using q(3) by (simp add: wrap_at_def)
    have c0: "{0..<50} \<subseteq> cover L h e" and cL: "{h..<L} \<subseteq> cover L h e"
      using q elen_bounds(1) [of m 0] by (auto simp: cover_def)
    have w: "wrap_at L m' h" using wrap_at_cong [OF Cons.prems(2) cL c0 hL] q(3) by blast
    have el: "elen m' 0 = elen m 0" using elen_cong [OF Cons.prems(2), of 0] c0 by simp
    have nw: "\<not> h + elen m' h \<le> L"
      using w elen_bounds(1) [of m' h] by (auto simp: wrap_at_def)
    have "agree m m' (cover L (elen m 0) e)"
      using q by (intro agree_subset [OF Cons.prems(2)]) (auto simp: cover_def)
    then have "chain L m' (elen m 0) (e + n) (os @ [e])"
      using Cons.IH [OF q(5)] Cons.prems q(4) by auto
    then show ?thesis using q w el nw Cons.prems(5) by auto
  qed
qed

lemma chain_snoc_wrap:
  assumes "chain L m h e os" "agree m m' (cover L h e)" "h \<le> e" "wrap_at L m' e" "elen m' 0 < h"
  shows "chain L m' h (elen m' 0) (os @ [0])"
  using assms
proof (induction os arbitrary: h)
  case Nil
  then have "\<not> h + elen m' h \<le> L"
    using elen_bounds(1) [of m' h] by (auto simp: wrap_at_def)
  then show ?case using Nil by auto
next
  case (Cons p os)
  have eL: "e \<le> L" using Cons.prems(4) by (simp add: wrap_at_def)
  have q: "p = h" "h + elen m h \<le> e" "chain L m (h + elen m h) e os" "h < e"
    using Cons.prems(1,3) by (auto split: if_splits)
  have "elen m' h = elen m h"
    using q Cons.prems(2,3) elen_bounds(1) [of m h] by (intro elen_cong [of m m' "cover L h e"]) auto
  moreover have "agree m m' (cover L (h + elen m h) e)"
    using q by (intro agree_subset [OF Cons.prems(2)]) auto
  then have "chain L m' (h + elen m h) (elen m' 0) (os @ [0])"
    using Cons.IH [OF q(3)] q Cons.prems(4,5) by auto
  ultimately show ?case using q eL Cons.prems(5) by auto
qed

section \<open>One round of the loops\<close>

abbreviation Ln :: "dare_log \<Rightarrow> nat" where "Ln log \<equiv> unat (log_len log)"
abbreviation En :: "dare_log \<Rightarrow> nat" where "En log \<equiv> unat (log_end log)"

text \<open>A log that holds entries: its end lies inside the buffer.\<close>

definition log_live :: "dare_log \<Rightarrow> bool" where
  "log_live log \<longleftrightarrow> Ln log < 2 ^ 62 \<and> 0 < En log \<and> En log < Ln log"

definition chain_from :: "dare_log \<Rightarrow> u64 \<Rightarrow> nat list \<Rightarrow> bool" where
  "chain_from log offset os \<longleftrightarrow>
     unat offset \<le> Ln log \<and> chain (Ln log) (log_entries log) (unat offset) (En log) os"

lemma log_live_not_empty: "log_live log \<Longrightarrow> \<not> is_log_empty log"
  by (auto simp: log_live_def is_log_empty_def)

lemma fit_header_iff:
  "unat offset \<le> Ln log \<Longrightarrow> log_fit_entry_header log offset \<longleftrightarrow> unat offset + 64 \<le> Ln log"
proof -
  have "(of_nat sizeof_entry :: u64) = 64" by (simp add: layout_simps)
  moreover have "unat (64 :: u64) = 64" by simp
  ultimately show "unat offset \<le> Ln log \<Longrightarrow> ?thesis"
    by (simp only: log_fit_entry_header_def word_le_nat_alt unat_sub le_diff_conv2 add.commute)
qed

lemma unat_entry_len: "unat (ucast (log_entry_len m p) :: u64) = elen m p"
proof -
  have "elen m p < 2 ^ 64" using elen_bounds(2) [of m p] by simp
  then show ?thesis by (simp add: elen_def unsigned_ucast_eq take_bit_nat_eq_self)
qed

lemma fit_entry_iff:
  "unat offset \<le> Ln log \<Longrightarrow> log_fit_entry log offset p \<longleftrightarrow> unat offset + elen (log_entries log) p \<le> Ln log"
  by (simp add: log_fit_entry_def word_le_nat_alt unat_sub unat_entry_len le_diff_conv2 add.commute)

lemma unat_add_entry_len:
  fixes offset :: u64
  assumes "unat offset \<le> L" "L < 2 ^ 62"
  shows "unat (offset + ucast (log_entry_len m p)) = unat offset + elen m p"
proof -
  have "unat (offset + ucast (log_entry_len m p))
      = (unat offset + elen m p) mod 2 ^ 64"
    by (simp add: unat_word_ariths unat_entry_len)
  then show ?thesis using assms elen_bounds(2) [of m p] by simp
qed

lemma end_distance_0:
  assumes "log_live log" "unat offset \<le> Ln log"
  shows "log_offset_end_distance log offset = 0 \<longleftrightarrow> offset = log_end log"
proof (cases "offset \<le> log_end log")
  case True
  then show ?thesis using assms by (auto simp: log_offset_end_distance_def log_live_def)
next
  case False
  then have lt: "unat (log_end log) < unat offset" by (simp add: word_le_nat_alt)
  then have d: "unat (offset - log_end log) = unat offset - En log"
    by (simp add: unat_sub word_le_nat_alt)
  then have "log_len log - (offset - log_end log) \<noteq> 0"
    using assms lt by (auto simp: log_live_def word_unat_eq_iff unat_sub word_le_nat_alt)
  then show ?thesis using False assms by (auto simp: log_offset_end_distance_def log_live_def)
qed

lemma get_entry_none:
  assumes "log_live log" "chain_from log offset []"
  shows "log_get_entry log offset = (None, offset)"
proof -
  have "offset = log_end log" using assms by (simp add: chain_from_def word_unat_eq_iff)
  then show ?thesis
    using assms end_distance_0 [of log offset] by (simp add: log_get_entry_def chain_from_def)
qed

text \<open>
  Where \<^verbatim>\<open>log_get_entry\<close> leaves the offset, and where the loops of this file continue:
  after the entry, or after the copy of the entry at offset 0.
\<close>

definition next_off :: "dare_log \<Rightarrow> u64 \<Rightarrow> u64" where
  "next_off log offset1 = (if \<not> log_fit_entry log offset1 (unat offset1) then 0 else offset1)
       + ucast (log_entry_len (log_entries log) (unat offset1))"

lemma get_entry_some:
  assumes live: "log_live log" and ch: "chain_from log offset (p # os)"
  obtains offset1 where
    "log_get_entry log offset = (Some (unat offset1), offset1)"
    "same_header (log_entries log) (unat offset1) p"
    "unat offset1 + 64 \<le> Ln log"
    "unat offset1 \<noteq> En log"
    "offset1 = (if unat offset + 64 \<le> Ln log then offset else 0)"
    "log_fit_entry log offset1 (unat offset1) \<Longrightarrow> unat offset1 = p"
    "\<not> log_fit_entry log offset1 (unat offset1) \<Longrightarrow> p = 0 \<and> chain_from log 0 (p # os)"
    "chain_from log (next_off log offset1) os"
proof -
  let ?m = "log_entries log" and ?L = "Ln log" and ?e = "En log"
  have oL: "unat offset \<le> ?L" and c: "chain ?L ?m (unat offset) ?e (p # os)"
    using ch by (simp_all add: chain_from_def)
  have L: "?L < 2 ^ 62" and e: "0 < ?e" "?e < ?L" using live by (simp_all add: log_live_def)
  have ne: "unat offset \<noteq> ?e" using c by simp
  then have "0 \<noteq> log_offset_end_distance log offset"
    using end_distance_0 [OF live oL] by (metis)
  define offset1 where "offset1 = (if unat offset + 64 \<le> ?L then offset else 0)"
  have ge: "log_get_entry log offset = (Some (unat offset1), offset1)"
    using log_live_not_empty [OF live] \<open>0 \<noteq> log_offset_end_distance log offset\<close> fit_header_iff [OF oL]
    by (simp add: log_get_entry_def offset1_def Let_def)
  have o1L: "unat offset1 \<le> ?L" using oL by (simp add: offset1_def)
  note fit = fit_entry_iff [OF o1L, of "unat offset1"]
  note add = unat_add_entry_len [OF o1L L, of ?m "unat offset1"]
  note add0 = unat_add_entry_len [of 0, OF _ L, of ?m "unat offset1", simplified]
  have zero: "chain ?L ?m 0 ?e (0 # os)" "elen ?m 0 \<le> ?L"
    if "elen ?m 0 \<le> ?e" "chain ?L ?m (elen ?m 0) ?e os"
    using that e by (auto split: if_splits)
  show ?thesis
  proof (cases "unat offset + elen ?m (unat offset) \<le> (if unat offset < ?e then ?e else ?L)")
    case True
    then have p: "p = unat offset" "chain ?L ?m (unat offset + elen ?m (unat offset)) ?e os"
      using c by simp_all
    have le: "unat offset + elen ?m (unat offset) \<le> ?L"
      using True e by (auto split: if_splits)
    then have o1: "offset1 = offset"
      using elen_bounds(1) [of ?m "unat offset"] by (simp add: offset1_def)
    show ?thesis
      using ge p le fit add o1 ne elen_bounds(1) [of ?m "unat offset"] offset1_def
      by (intro that [of offset1]) (simp_all add: chain_from_def next_off_def)
  next
    case False
    then have w: "?e < unat offset" "wrap_at ?L ?m (unat offset)" "p = 0" "elen ?m 0 \<le> ?e"
      "chain ?L ?m (elen ?m 0) ?e os"
      using c by simp_all
    show ?thesis
    proof (cases "?L < unat offset + 64")
      case True
      then have o1: "offset1 = 0" by (simp add: offset1_def)
      show ?thesis
        using ge w zero fit add0 o1 e elen_bounds(1) [of ?m 0] True
        by (intro that [of offset1]) (auto simp: chain_from_def next_off_def)
    next
      case False
      then have o1: "offset1 = offset" by (simp add: offset1_def)
      have sh: "same_header ?m (unat offset) 0" "\<not> unat offset + elen ?m (unat offset) \<le> ?L"
        using w(2) False by (auto simp: wrap_at_def)
      have el: "elen ?m (unat offset) = elen ?m 0" using sh(1) by (rule same_header_elen)
      show ?thesis
        using ge w zero fit add0 o1 sh el False ne
        by (intro that [of offset1]) (auto simp: chain_from_def next_off_def)
    qed
  qed
qed

section \<open>The loops end, and what they compute\<close>

text \<open>
  The \<open>i\<close>-th determinant of an NC-buffer describes the \<open>i\<close>-th entry of a chain: its
  index and term, and an offset from which the rest of the chain is walked.
\<close>

definition det_of :: "dare_log \<Rightarrow> nat list \<Rightarrow> nat \<Rightarrow> dare_log_entry_det \<Rightarrow> bool" where
  "det_of log os i d \<longleftrightarrow>
     det_idx d = entry_idx (log_entries log) (os ! i) \<and>
     det_term d = entry_term (log_entries log) (os ! i) \<and>
     chain_from log (det_offset d) (drop i os)"

lemma chain_from_norm:
  assumes "log_live log" "chain_from log offset (p # os)"
    and "offset1 = (if unat offset + 64 \<le> Ln log then offset else 0)"
  shows "chain_from log offset1 (p # os)"
proof (cases "unat offset + 64 \<le> Ln log")
  case False
  then have nf: "\<not> unat offset + elen (log_entries log) (unat offset) \<le> Ln log"
    using elen_bounds(1) [of "log_entries log" "unat offset"] by linarith
  have c: "chain (Ln log) (log_entries log) (unat offset) (En log) (p # os)" and e: "En log < Ln log"
    using assms(1,2) by (simp_all add: chain_from_def log_live_def)
  have "\<not> unat offset + elen (log_entries log) (unat offset) \<le> (if unat offset < En log then En log else Ln log)"
    using nf e by (auto split: if_splits)
  then have "p = 0" "elen (log_entries log) 0 \<le> En log"
    "chain (Ln log) (log_entries log) (elen (log_entries log) 0) (En log) os"
    using c by (simp_all split: if_splits)
  then show ?thesis using assms False by (auto simp: chain_from_def log_live_def)
qed (use assms in simp)

lemma nc_buf_loop_none:
  "log_get_entry log offset = (None, o1) \<Longrightarrow>
     log_entries_to_nc_buf_loop log offset len nb = Some (Inr (nb\<lparr>nc_len := len\<rparr>))"
  by (subst log_entries_to_nc_buf_loop.simps) simp

lemma nc_buf_loop_some:
  "log_get_entry log offset = (Some (unat o1), o1) \<Longrightarrow>
     log_entries_to_nc_buf_loop log offset len nb =
       (if MAX_NC_ENTRIES \<le> unat len then Some (Inl Out_of_bounds)
        else log_entries_to_nc_buf_loop log (next_off log o1) (len + 1)
          (nb\<lparr>nc_entries := (nc_entries nb)(unat len :=
             \<lparr>det_idx = entry_idx (log_entries log) (unat o1),
              det_term = entry_term (log_entries log) (unat o1), det_offset = o1\<rparr>)\<rparr>))"
  by (subst log_entries_to_nc_buf_loop.simps) (simp add: next_off_def Let_def)

lemma tail_loop_none: "log_get_entry log offset = (None, o1) \<Longrightarrow> log_tail_loop log offset t = Some t"
  by (subst log_tail_loop.simps) simp

lemma tail_loop_some:
  "log_get_entry log offset = (Some (unat o1), o1) \<Longrightarrow>
     log_tail_loop log offset t = log_tail_loop log (next_off log o1) o1"
  by (subst log_tail_loop.simps) (simp add: next_off_def Let_def)

lemma nc_buf_loop_step:
  assumes "log_live log" "chain_from log offset (p # os)" "unat len < MAX_NC_ENTRIES"
  obtains d offset' where
    "log_entries_to_nc_buf_loop log offset len nb =
       log_entries_to_nc_buf_loop log offset' (len + 1)
         (nb\<lparr>nc_entries := (nc_entries nb)(unat len := d)\<rparr>)"
    "det_of log (p # os) 0 d" "chain_from log offset' os"
proof -
  obtain o1 where o1: "log_get_entry log offset = (Some (unat o1), o1)"
    "same_header (log_entries log) (unat o1) p"
    "o1 = (if unat offset + 64 \<le> Ln log then offset else 0)"
    "chain_from log (next_off log o1) os"
    by (rule get_entry_some [OF assms(1,2)], rule that; assumption)
  let ?d = "\<lparr>det_idx = entry_idx (log_entries log) (unat o1),
     det_term = entry_term (log_entries log) (unat o1), det_offset = o1\<rparr>"
  have "det_of log (p # os) 0 ?d"
    using o1(2) chain_from_norm [OF assms(1,2) o1(3)] by (simp add: det_of_def same_header_def)
  then show ?thesis
    using o1(4) assms(3) nc_buf_loop_some [OF o1(1)]
    by (intro that [of "next_off log o1" ?d]) simp_all
qed

lemma nc_buf_loop_correct:
  assumes "log_live log" "chain_from log offset os" "unat len + length os \<le> MAX_NC_ENTRIES"
  shows "\<exists>nb'. log_entries_to_nc_buf_loop log offset len nb = Some (Inr nb') \<and>
     unat (nc_len nb') = unat len + length os \<and>
     (\<forall>i<unat len. nc_entries nb' i = nc_entries nb i) \<and>
     (\<forall>i<length os. det_of log os i (nc_entries nb' (unat len + i)))"
  using assms(2,3)
proof (induction os arbitrary: offset len nb)
  case Nil
  then have "log_get_entry log offset = (None, offset)" by (intro get_entry_none [OF assms(1)])
  then show ?case by (simp add: nc_buf_loop_none)
next
  case (Cons p os)
  have lt: "unat len < MAX_NC_ENTRIES" using Cons.prems(2) by simp
  have l1: "unat (len + 1) = unat len + 1"
    using lt by (simp add: unat_word_ariths MAX_NC_ENTRIES_def)
  obtain d offset' where d: "log_entries_to_nc_buf_loop log offset len nb =
       log_entries_to_nc_buf_loop log offset' (len + 1) (nb\<lparr>nc_entries := (nc_entries nb)(unat len := d)\<rparr>)"
    "det_of log (p # os) 0 d" "chain_from log offset' os"
    by (rule nc_buf_loop_step [OF assms(1) Cons.prems(1) lt])
  obtain nb' where nb': "log_entries_to_nc_buf_loop log offset len nb = Some (Inr nb')"
    "unat (nc_len nb') = unat len + 1 + length os"
    "\<forall>i<unat len + 1. nc_entries nb' i = ((nc_entries nb)(unat len := d)) i"
    "\<forall>i<length os. det_of log os i (nc_entries nb' (unat len + 1 + i))"
    using Cons.IH [OF d(3), of "len + 1" "nb\<lparr>nc_entries := (nc_entries nb)(unat len := d)\<rparr>"] d(1) l1 Cons.prems(2)
    by (auto simp del: One_nat_def)
  have "det_of log (p # os) i (nc_entries nb' (unat len + i))" if "i < Suc (length os)" for i
  proof (cases i)
    case 0
    then show ?thesis using nb'(3) d(2) by simp
  next
    case (Suc j)
    then show ?thesis using nb'(4) that by (simp add: det_of_def)
  qed
  then show ?case using nb' by (intro exI [of _ nb']) auto
qed

lemma nc_buf_loop_overflow:
  assumes "log_live log" "chain_from log offset os" "unat len \<le> MAX_NC_ENTRIES"
    and "MAX_NC_ENTRIES < unat len + length os"
  shows "log_entries_to_nc_buf_loop log offset len nb = Some (Inl Out_of_bounds)"
  using assms(2-4)
proof (induction os arbitrary: offset len nb)
  case Nil
  then show ?case by simp
next
  case (Cons p os)
  show ?case
  proof (cases "unat len < MAX_NC_ENTRIES")
    case True
    then have l1: "unat (len + 1) = unat len + 1"
      by (simp add: unat_word_ariths MAX_NC_ENTRIES_def)
    obtain d offset' where "log_entries_to_nc_buf_loop log offset len nb =
       log_entries_to_nc_buf_loop log offset' (len + 1) (nb\<lparr>nc_entries := (nc_entries nb)(unat len := d)\<rparr>)"
      "chain_from log offset' os"
      by (rule nc_buf_loop_step [OF assms(1) Cons.prems(1) True], rule that; assumption)
    then show ?thesis using Cons.IH [of offset' "len + 1"] l1 Cons.prems True by simp
  next
    case False
    moreover obtain o1 where "log_get_entry log offset = (Some (unat o1), o1)"
      by (rule get_entry_some [OF assms(1) Cons.prems(1)], rule that; assumption)
    ultimately show ?thesis using nc_buf_loop_some by simp
  qed
qed

lemma tail_loop_correct:
  assumes "log_live log" "chain_from log offset os"
  shows "\<exists>t. log_tail_loop log offset tail = Some t \<and>
     (if os = [] then t = tail
      else same_header (log_entries log) (unat t) (last os) \<and>
        unat t + 64 \<le> Ln log \<and> unat t \<noteq> En log)"
  using assms(2)
proof (induction os arbitrary: offset tail)
  case Nil
  then have "log_get_entry log offset = (None, offset)" by (intro get_entry_none [OF assms(1)])
  then show ?case by (simp add: tail_loop_none)
next
  case (Cons p os)
  obtain o1 where o1: "log_get_entry log offset = (Some (unat o1), o1)"
    "same_header (log_entries log) (unat o1) p" "unat o1 + 64 \<le> Ln log" "unat o1 \<noteq> En log"
    "chain_from log (next_off log o1) os"
    by (rule get_entry_some [OF assms(1) Cons.prems], rule that; assumption)
  obtain t where "log_tail_loop log offset tail = Some t"
    "if os = [] then t = o1 else same_header (log_entries log) (unat t) (last os) \<and>
        unat t + 64 \<le> Ln log \<and> unat t \<noteq> En log"
    using Cons.IH [OF o1(5), of o1] tail_loop_some [OF o1(1)] by auto
  then show ?case using o1 by (intro exI [of _ t]) (auto split: if_splits)
qed

section \<open>Walks that start over at offset 0\<close>

text \<open>
  The loops of the server code do not skip a header whose command does not fit: they
  set the offset to 0 and look again.  One or two rounds bring them to the next entry.
\<close>

lemma walk_step:
  assumes live: "log_live log" and ch: "chain_from log offset (p # os)"
  obtains (entry) o1 where "log_get_entry log offset = (Some p, o1)" "unat o1 = p"
      "log_fit_entry log o1 p" "chain_from log (next_off log o1) os"
  | (over) q o1 where "log_get_entry log offset = (Some q, o1)" "\<not> log_fit_entry log o1 q"
      "p = 0" "log_get_entry log 0 = (Some 0, 0)" "log_fit_entry log 0 0" "chain_from log (next_off log 0) os"
proof -
  obtain o1 where o1: "log_get_entry log offset = (Some (unat o1), o1)"
    "log_fit_entry log o1 (unat o1) \<Longrightarrow> unat o1 = p"
    "\<not> log_fit_entry log o1 (unat o1) \<Longrightarrow> p = 0 \<and> chain_from log 0 (p # os)"
    "chain_from log (next_off log o1) os"
    by (rule get_entry_some [OF live ch], rule that; assumption)
  show ?thesis
  proof (cases "log_fit_entry log o1 (unat o1)")
    case True
    then show ?thesis using o1 entry by metis
  next
    case False
    then have p: "p = 0" and ch0: "chain_from log 0 (p # os)" using o1(3) by blast+
    obtain o2 where o2: "log_get_entry log 0 = (Some (unat o2), o2)" "unat o2 + 64 \<le> Ln log"
      "o2 = (if unat (0 :: u64) + 64 \<le> Ln log then 0 else 0)" "chain_from log (next_off log o2) os"
      by (rule get_entry_some [OF live ch0], rule that; assumption)
    have z: "o2 = 0" using o2(3) by simp
    have "elen (log_entries log) 0 \<le> Ln log"
      using ch0 live p by (auto simp: chain_from_def log_live_def split: if_splits)
    then have "log_fit_entry log 0 0" by (simp add: fit_entry_iff)
    then show ?thesis using over [OF o1(1) False p] o2 z by simp
  qed
qed

section \<open>The order of offsets\<close>

text \<open>The circular distance to the end, as a number.\<close>

definition end_dist :: "dare_log \<Rightarrow> u64 \<Rightarrow> nat" where
  "end_dist log offset =
     (if unat offset \<le> En log then En log - unat offset else Ln log - (unat offset - En log))"

lemma offset_larger_dist:
  assumes "log_live log" "unat a \<le> Ln log" "unat b \<le> Ln log"
  shows "log_is_offset_larger log a b \<longleftrightarrow> end_dist log a < end_dist log b"
proof -
  have d: "unat (if log_end log \<ge> x then log_end log - x else log_len log - (x - log_end log)) = end_dist log x"
    if "unat x \<le> Ln log" for x
    using that assms(1)
    by (auto simp: end_dist_def unat_sub word_le_nat_alt log_live_def)
  have "log_end log \<noteq> log_len log" using assms(1) by (auto simp: log_live_def)
  then show ?thesis
    using d [OF assms(2)] d [OF assms(3)]
    by (simp only: log_is_offset_larger_def Let_def if_False word_less_nat_alt)
qed

lemma next_off_dist:
  assumes live: "log_live log" and ch: "chain_from log offset (p # os)"
    and o1: "o1 = (if unat offset + 64 \<le> Ln log then offset else 0)"
  shows "end_dist log (next_off log o1) < end_dist log offset" "end_dist log o1 \<le> end_dist log offset"
proof -
  let ?m = "log_entries log" and ?L = "Ln log" and ?e = "En log"
  have L: "?L < 2 ^ 62" and e: "0 < ?e" "?e < ?L" using live by (simp_all add: log_live_def)
  have oL: "unat offset \<le> ?L" and c: "chain ?L ?m (unat offset) ?e (p # os)"
    using ch by (simp_all add: chain_from_def)
  have o1L: "unat o1 \<le> ?L" using oL o1 by simp
  note fit = fit_entry_iff [OF o1L, of "unat o1"]
  note add = unat_add_entry_len [OF o1L L, of ?m "unat o1"]
  note add0 = unat_add_entry_len [of 0, OF _ L, of ?m "unat o1", simplified]
  have el: "64 \<le> elen ?m x" for x by (rule elen_bounds)
  have "end_dist log (next_off log o1) < end_dist log offset \<and> end_dist log o1 \<le> end_dist log offset"
  proof (cases "unat offset + elen ?m (unat offset) \<le> (if unat offset < ?e then ?e else ?L)")
    case True
    then have le: "unat offset + elen ?m (unat offset) \<le> ?L" using e by (auto split: if_splits)
    then have "o1 = offset" using el [of "unat offset"] o1 by simp
    moreover have "unat offset \<noteq> ?e" using c by simp
    ultimately show ?thesis
      using True le fit add el [of "unat offset"] by (auto simp: next_off_def end_dist_def split: if_splits)
  next
    case False
    then have w: "?e < unat offset" "wrap_at ?L ?m (unat offset)" "elen ?m 0 \<le> ?e"
      using c by simp_all
    have el0: "elen ?m (unat o1) = elen ?m 0"
      using w(2) same_header_elen [of ?m "unat offset" 0] o1 by (auto simp: wrap_at_def)
    have nf: "unat o1 = 0 \<or> \<not> unat o1 + elen ?m (unat o1) \<le> ?L"
      using w(2) el [of "unat offset"] o1 by (auto simp: wrap_at_def)
    have "unat (next_off log o1) = elen ?m 0"
      using nf fit add add0 el0 w(3) e by (auto simp: next_off_def)
    then show ?thesis
      using w el [of 0] oL e o1 by (auto simp: end_dist_def)
  qed
  then show "end_dist log (next_off log o1) < end_dist log offset" "end_dist log o1 \<le> end_dist log offset"
    by blast+
qed

lemma walk_dist:
  assumes "log_live log" "chain_from log offset (p # os)" "log_get_entry log offset = (Some q, o1)"
  shows "end_dist log (next_off log o1) < end_dist log offset" "end_dist log o1 \<le> end_dist log offset"
    "chain_from log o1 (p # os)" "unat o1 \<le> Ln log"
proof -
  obtain o2 where o2: "log_get_entry log offset = (Some (unat o2), o2)"
    "o2 = (if unat offset + 64 \<le> Ln log then offset else 0)"
    by (rule get_entry_some [OF assms(1,2)], rule that; assumption)
  have o1: "o1 = (if unat offset + 64 \<le> Ln log then offset else 0)" using o2 assms(3) by simp
  show "end_dist log (next_off log o1) < end_dist log offset" "end_dist log o1 \<le> end_dist log offset"
    by (rule next_off_dist [OF assms(1,2) o1])+
  show "chain_from log o1 (p # os)" by (rule chain_from_norm [OF assms(1,2) o1])
  then show "unat o1 \<le> Ln log" by (simp add: chain_from_def)
qed

lemma walk_over:
  assumes live: "log_live log" and ch: "chain_from log offset (p # os)"
    and ge: "log_get_entry log offset = (Some q, o1)" and nf: "\<not> log_fit_entry log o1 q"
  shows "chain_from log 0 (p # os)" "end_dist log 0 < end_dist log offset"
proof -
  obtain o2 where o2: "log_get_entry log offset = (Some (unat o2), o2)"
    "o2 = (if unat offset + 64 \<le> Ln log then offset else 0)"
    "\<not> log_fit_entry log o2 (unat o2) \<Longrightarrow> p = 0 \<and> chain_from log 0 (p # os)"
    by (rule get_entry_some [OF live ch], rule that; assumption)
  have o1: "o1 = o2" "q = unat o2" using o2(1) ge by simp_all
  show "chain_from log 0 (p # os)" and "end_dist log 0 < end_dist log offset"
  proof -
    have "\<not> log_fit_entry log o2 (unat o2)" using nf o1 by simp
    then have p0: "p = 0" and c0: "chain_from log 0 (p # os)" using o2(3) by blast+
    show "chain_from log 0 (p # os)" by (rule c0)
    have "elen (log_entries log) 0 \<le> Ln log"
      using c0 live p0 by (auto simp: chain_from_def log_live_def split: if_splits)
    then have "o2 \<noteq> 0" using nf o1 by (auto simp: fit_entry_iff)
    then have fits: "o2 = offset" "unat offset + 64 \<le> Ln log" using o2(2) by (auto split: if_splits)
    have "\<not> unat offset + elen (log_entries log) (unat offset) \<le> Ln log"
      using nf o1 fits ch by (simp add: fit_entry_iff chain_from_def)
    then have "En log < unat offset"
      using ch live by (auto simp: chain_from_def log_live_def split: if_splits)
    then show "end_dist log 0 < end_dist log offset" using fits by (simp add: end_dist_def)
  qed
qed

lemma distance_nonzero:
  assumes "log_live log" "chain_from log offset (p # os)"
  shows "log_offset_end_distance log offset \<noteq> 0"
  using assms end_distance_0 [OF assms(1)] by (auto simp: chain_from_def)

lemma distance_zero:
  assumes "log_live log" "chain_from log offset []"
  shows "log_offset_end_distance log offset = 0"
  using assms end_distance_0 [OF assms(1)] by (auto simp: chain_from_def word_unat_eq_iff)

end
