(* ===== verification/Dare_Log_Append.thy ===== *)
theory Dare_Log_Append
  imports Dare_Log_Walk
begin

text \<open>
  The invariant of the log and the effect of \<^verbatim>\<open>log_append_entry\<close>: on a log with room for
  the entry it adds exactly one entry after the existing ones, leaves those
  untouched, numbers the new one after the last, and keeps the invariant.
\<close>

section \<open>Writing one entry\<close>

text \<open>What the bytes at \<^verbatim>\<open>data\<close> mean for each entry type, and how many of them are needed.\<close>

definition data_of :: "u8 \<Rightarrow> u8 list \<Rightarrow> entry_data" where
  "data_of typ data =
     (if typ = NOOP then D_noop
      else if typ = CONFIG then D_cid (cid_of_bytes (take sizeof_cid data))
      else if typ = HEAD then D_head (from_le (take 8 data))
      else D_cmd (take (unat (cmd_len_of data)) (drop 2 data)))"

definition data_wf :: "u8 \<Rightarrow> u8 list \<Rightarrow> bool" where
  "data_wf typ data \<longleftrightarrow>
     (typ = CONFIG \<longrightarrow> sizeof_cid \<le> length data) \<and> (typ = HEAD \<longrightarrow> 8 \<le> length data) \<and>
     (typ \<noteq> NOOP \<and> typ \<noteq> CONFIG \<and> typ \<noteq> HEAD \<longrightarrow> 2 + unat (cmd_len_of data) \<le> length data)"

definition need :: "u8 \<Rightarrow> u8 list \<Rightarrow> nat" where
  "need typ data = (if typ = NOOP \<or> typ = CONFIG \<or> typ = HEAD then 64
                    else 64 + unat (cmd_len_of data))"

lemma need_bounds: "64 \<le> need typ data" "need typ data < 64 + 65536"
  using unsigned_less [of "cmd_len_of data", where 'a = nat] by (auto simp: need_def)

definition write_data :: "mem \<Rightarrow> nat \<Rightarrow> u8 \<Rightarrow> u8 list \<Rightarrow> mem" where
  "write_data m p typ data =
     (if typ = NOOP then m
      else if typ = CONFIG then store m (p + 48) (take 16 data)
      else if typ = HEAD then wr64 m (p + 48) (from_le (take 8 data))
      else store (wr16 m (p + 48) (cmd_len_of data)) (p + 50)
             (take (unat (cmd_len_of data)) (drop 2 data)))"

lemma header_load:
  "x + n \<le> p \<or> p + 41 \<le> x \<Longrightarrow>
    load (write_entry_header m p idx trm req_id clt_id typ) x n = load m x n"
  by (elim disjE)
    (simp_all add: write_entry_header_def Let_def wr_defs layout_simps fill_def load_store_disjoint)

lemma header_fields:
  assumes m': "m' = write_entry_header m p idx trm req_id clt_id typ"
  shows "load m' p 8 = le64 idx" "load m' (p + 8) 8 = le64 trm" "load m' (p + 16) 8 = le64 req_id"
    "load m' (p + 24) 2 = le16 clt_id" "load m' (p + 26) 1 = [typ]"
    "load m' (p + 27) 1 = load m (p + 27) 1" "load m' (p + 28) 13 = replicate 13 0"
  by (simp_all add: m' write_entry_header_def Let_def wr_defs layout_simps fill_def
      load_store_disjoint load_store_same)

lemma write_data_load:
  assumes "x + n \<le> p + 48 \<or> p + need typ data \<le> x"
  shows "load (write_data m p typ data) x n = load m x n"
proof -
  consider "typ = NOOP" | "typ = CONFIG" | "typ = HEAD"
    | "typ \<noteq> NOOP" "typ \<noteq> CONFIG" "typ \<noteq> HEAD" by blast
  then show ?thesis
    using assms by cases (auto simp: write_data_def need_def entry_types wr_defs load_store_disjoint)
qed

lemma write_data_result:
  assumes "data_wf typ data" and m': "m' = write_data m p typ data"
  shows "typ = CONFIG \<Longrightarrow> load m' (p + 48) 16 = take 16 data"
    and "typ = HEAD \<Longrightarrow> load m' (p + 48) 8 = le64 (from_le (take 8 data))"
    and "typ \<noteq> NOOP \<Longrightarrow> typ \<noteq> CONFIG \<Longrightarrow> typ \<noteq> HEAD \<Longrightarrow>
      load m' (p + 48) 2 = le16 (cmd_len_of data) \<and>
      load m' (p + 50) (unat (cmd_len_of data)) = take (unat (cmd_len_of data)) (drop 2 data)"
  using assms
  by (auto simp: m' write_data_def data_wf_def entry_types wr_defs layout_simps
      load_store_disjoint load_store_same)

text \<open>The entry as it stands after both writes.\<close>

definition put_entry :: "mem \<Rightarrow> nat \<Rightarrow> u64 \<Rightarrow> u64 \<Rightarrow> u64 \<Rightarrow> u16 \<Rightarrow> u8 \<Rightarrow> u8 list \<Rightarrow> mem" where
  "put_entry m p idx trm req_id clt_id typ data =
     write_data (write_entry_header m p idx trm req_id clt_id typ) p typ data"

lemma put_entry_loads:
  assumes "data_wf typ data" and m': "m' = put_entry m p idx trm req_id clt_id typ data"
  shows "load m' p 8 = le64 idx" "load m' (p + 8) 8 = le64 trm" "load m' (p + 16) 8 = le64 req_id"
    "load m' (p + 24) 2 = le16 clt_id" "load m' (p + 26) 1 = [typ]"
    "load m' (p + 27) 1 = load m (p + 27) 1" "load m' (p + 28) 13 = replicate 13 0"
  unfolding m' put_entry_def
  by (simp_all add: write_data_load header_fields [OF refl] del: One_nat_def)

lemma load_1: "load m a 1 = [v] \<longleftrightarrow> m a = v"
  by (simp add: load_def)

lemma put_entry_at:
  assumes wf: "data_wf typ data"
  shows "entry_at (put_entry m p idx trm req_id clt_id typ data) p =
    \<lparr>e_idx = idx, e_term = trm, e_req_id = req_id, e_clt_id = clt_id, e_type = typ,
     e_sender = m (p + 27), e_reply = replicate 13 0, e_data = data_of typ data\<rparr>"
proof -
  let ?m = "put_entry m p idx trm req_id clt_id typ data"
  note l = put_entry_loads [OF wf refl, of m p idx trm req_id clt_id]
  have t: "?m (p + 26) = typ" and s: "?m (p + 27) = m (p + 27)"
    using l(5) l(6) by (simp_all add: load_def)
  note r = write_data_result [OF wf refl, of "write_entry_header m p idx trm req_id clt_id typ" p,
      folded put_entry_def]
  show ?thesis
    using l t s r
    by (auto simp: entry_at_def entry_idx_def entry_term_def entry_req_id_def entry_clt_id_def
        entry_type_def entry_cid_def entry_head_def entry_cmd_def entry_cmd_len_def data_of_def
        rd_defs layout_simps)
qed

lemma put_entry_elen:
  assumes wf: "data_wf typ data"
  shows "elen (put_entry m p idx trm req_id clt_id typ data) p = need typ data"
    "entry_idx (put_entry m p idx trm req_id clt_id typ data) p = idx"
proof -
  let ?m = "put_entry m p idx trm req_id clt_id typ data"
  note l = put_entry_loads [OF wf refl, of m p idx trm req_id clt_id]
  have t: "entry_type ?m p = typ"
    using l(5) by (simp add: entry_type_def rd_defs layout_simps load_def)
  note r = write_data_result(3) [OF wf refl, of "write_entry_header m p idx trm req_id clt_id typ" p,
      folded put_entry_def]
  show "elen ?m p = need typ data"
    using r by (auto simp: elen_eq t need_def entry_cmd_len_def rd_defs layout_simps)
  show "entry_idx ?m p = idx"
    using l(1) by (simp add: entry_idx_def rd_defs layout_simps)
qed

lemma agree_iff_load: "agree m m' A \<longleftrightarrow> (\<forall>x\<in>A. load m' x 1 = load m x 1)"
  by (simp add: agree_def load_def)

lemma put_entry_agree:
  "agree m (put_entry m p idx trm req_id clt_id typ data) (- {p..<p + need typ data})"
  using need_bounds(1) [of "typ" data]
  by (auto simp: agree_iff_load put_entry_def write_data_load header_load)

section \<open>The two ways an append ends\<close>

abbreviation is_cmd :: "u8 \<Rightarrow> bool" where
  "is_cmd typ \<equiv> typ \<noteq> NOOP \<and> typ \<noteq> CONFIG \<and> typ \<noteq> HEAD"

text \<open>The header and command length, written before the command is known to fit.\<close>

definition stub :: "mem \<Rightarrow> nat \<Rightarrow> u64 \<Rightarrow> u64 \<Rightarrow> u64 \<Rightarrow> u16 \<Rightarrow> u8 \<Rightarrow> u8 list \<Rightarrow> mem" where
  "stub m p idx trm req_id clt_id typ data =
     wr16 (write_entry_header m p idx trm req_id clt_id typ) (p + 48) (cmd_len_of data)"

lemma stub_fields:
  assumes "is_cmd typ" and m': "m' = stub m p idx trm req_id clt_id typ data"
  shows "entry_idx m' p = idx" "entry_term m' p = trm" "entry_type m' p = typ"
    "entry_cmd_len m' p = cmd_len_of data" "elen m' p = need typ data"
proof -
  let ?h = "write_entry_header m p idx trm req_id clt_id typ"
  have l: "load m' (p + k) n = load ?h (p + k) n" if "k + n \<le> 48" for k n
    using that by (simp add: m' stub_def wr_defs load_store_disjoint)
  show "entry_idx m' p = idx" "entry_term m' p = trm"
    using l [of 0 8] l [of 8 8] header_fields [OF refl, of m p idx trm req_id clt_id "typ"]
    by (simp_all add: entry_idx_def entry_term_def rd_defs layout_simps)
  have "load m' (p + 26) 1 = [typ]"
    using l [of 26 1] header_fields(5) [OF refl, of m p idx trm req_id clt_id "typ"] by simp
  then show t: "entry_type m' p = typ"
    by (simp add: entry_type_def rd_defs layout_simps load_def)
  show c: "entry_cmd_len m' p = cmd_len_of data"
    by (simp add: entry_cmd_len_def rd_defs layout_simps m' stub_def wr_defs load_store_same)
  show "elen m' p = need typ data"
    using assms(1) by (simp add: elen_eq t c need_def)
qed

lemma put_entry_stub:
  "is_cmd typ \<Longrightarrow> put_entry m p idx trm req_id clt_id typ data =
     store (stub m p idx trm req_id clt_id typ data) (p + 50) (take (unat (cmd_len_of data)) (drop 2 data))"
  by (simp add: put_entry_def write_data_def stub_def)

lemma copy_cmd_stub:
  assumes "is_cmd typ"
  shows "copy_cmd (stub m p idx trm req_id clt_id typ data) p data
    = put_entry m p idx trm req_id clt_id typ data"
  using stub_fields(4) [OF assms refl] assms
  by (auto simp: copy_cmd_def put_entry_stub layout_simps)

lemma stub_agree:
  "agree m (stub m p idx trm req_id clt_id typ data) (- {p..<p + 50})"
  by (auto simp: agree_iff_load stub_def wr_defs load_store_disjoint header_load)

lemma append_cmd_fit:
  assumes "is_cmd typ" "unat (log_end log) \<le> Ln log" "unat (log_end log) + need typ data \<le> Ln log"
    and "log_entries log = write_entry_header m p idx trm req_id clt_id typ"
  shows "append_cmd log p idx trm req_id clt_id typ data =
     (log\<lparr>log_entries := put_entry m p idx trm req_id clt_id typ data\<rparr>, Some p)"
proof -
  let ?log1 = "log\<lparr>log_entries := stub m p idx trm req_id clt_id typ data\<rparr>"
  note st = stub_fields [OF assms(1) refl, of m p idx trm req_id clt_id data]
  have fit: "log_fit_entry ?log1 (log_end log) p"
    using assms(2,3) st(5) by (subst fit_entry_iff) simp_all
  show ?thesis
    using fit copy_cmd_stub [OF assms(1)]
    by (simp add: append_cmd_def Let_def assms(4) layout_simps flip: stub_def)
qed

lemma append_cmd_wrap:
  assumes "is_cmd typ" "unat (log_end log) \<le> Ln log" "Ln log < unat (log_end log) + need typ data"
    and "log_entries log = write_entry_header m p idx trm req_id clt_id typ"
    and "log_head log \<noteq> 0" "64 \<le> Ln log"
  shows "append_cmd log p idx trm req_id clt_id typ data =
     (log\<lparr>log_end := 0, log_entries := put_entry (stub m p idx trm req_id clt_id typ data) 0
            idx trm req_id clt_id typ data\<rparr>, Some 0)"
proof -
  let ?m1 = "stub m p idx trm req_id clt_id typ data"
  let ?log1 = "log\<lparr>log_entries := ?m1\<rparr>"
  note st = stub_fields [OF assms(1) refl, of m p idx trm req_id clt_id data]
  have fit: "\<not> log_fit_entry ?log1 (log_end log) p"
    using assms(2,3) st(5) by (subst fit_entry_iff) simp_all
  have "log_add_new_entry (?log1\<lparr>log_end := 0\<rparr>) = Some 0"
    using assms(5) by (simp add: log_add_new_entry_def is_log_full_def)
  moreover have "wr16 (write_entry_header ?m1 0 idx trm req_id clt_id typ) 48 (cmd_len_of data)
      = stub ?m1 0 idx trm req_id clt_id typ data"
    by (simp add: stub_def)
  ultimately show ?thesis
    using fit copy_cmd_stub [OF assms(1)]
    by (simp add: append_cmd_def Let_def assms(4) layout_simps
        stub_def [of m p idx trm req_id clt_id "typ" data, symmetric])
qed

lemma tail_update_irrelevant [simp]:
  "is_log_empty (log\<lparr>log_tail := t\<rparr>) = is_log_empty log"
  "is_log_full (log\<lparr>log_tail := t\<rparr>) = is_log_full log"
  "log_fit_entry_header (log\<lparr>log_tail := t\<rparr>) = log_fit_entry_header log"
  "log_fit_entry_header (log\<lparr>log_tail := t, log_entries := m\<rparr>) = log_fit_entry_header log"
  "log_offset_end_distance (log\<lparr>log_tail := t\<rparr>) = log_offset_end_distance log"
  "log_get_entry (log\<lparr>log_tail := t\<rparr>) = log_get_entry log"
  "log_add_new_entry (log\<lparr>log_tail := t\<rparr>) = log_add_new_entry log"
  by (simp_all add: fun_eq_iff is_log_empty_def is_log_full_def log_fit_entry_header_def
      log_offset_end_distance_def log_get_entry_def log_add_new_entry_def)

text \<open>
  The entry goes to offset \<open>e\<close>: the end of the log, or 0 where no header fits there.
\<close>

lemma append_data_fit:
  assumes "unat (log_end log) \<le> Ln log" "unat (log_end log) + need typ data \<le> Ln log"
    and "log_entries log = write_entry_header m p idx trm req_id clt_id typ"
  shows "append_data log p idx trm req_id clt_id typ data =
    (log\<lparr>log_entries := put_entry m p idx trm req_id clt_id typ data\<rparr>, Some p)"
proof (cases "is_cmd typ")
  case True
  then show ?thesis using append_cmd_fit [OF True assms] by (simp add: append_data_def)
next
  case False
  then show ?thesis
    using assms(3) by (auto simp: append_data_def put_entry_def write_data_def layout_simps entry_types)
qed

lemma append_entry_at_fit:
  assumes wf: "data_wf typ data" and L: "unat e + need typ data \<le> Ln log" "Ln log < 2 ^ 62"
    and e: "e = (if log_fit_entry_header log (log_end log) then log_end log else 0)"
  shows "append_entry_at log (unat e) idx trm req_id clt_id typ data =
    (idx, log\<lparr>log_tail := e, log_end := e + of_nat (need typ data),
       log_entries := put_entry (log_entries log) (unat e) idx trm req_id clt_id typ data\<rparr>)"
proof -
  let ?h = "write_entry_header (log_entries log) (unat e) idx trm req_id clt_id typ"
  let ?m = "put_entry (log_entries log) (unat e) idx trm req_id clt_id typ data"
  let ?log3 = "log\<lparr>log_entries := ?h, log_end := e\<rparr>"
  have log3: "(if \<not> log_fit_entry_header (log\<lparr>log_entries := ?h\<rparr>) (log_end (log\<lparr>log_entries := ?h\<rparr>))
      then log\<lparr>log_entries := ?h, log_end := 0\<rparr> else log\<lparr>log_entries := ?h\<rparr>) = ?log3"
    by (simp add: e log_fit_entry_header_def)
  have d: "append_data ?log3 (unat e) idx trm req_id clt_id typ data =
      (?log3\<lparr>log_entries := ?m\<rparr>, Some (unat e))"
    using L by (intro append_data_fit) simp_all
  have "unat (ucast (log_entry_len ?m (unat e)) :: u64) = need typ data"
    by (simp add: unat_entry_len put_entry_elen [OF wf])
  then have len: "(ucast (log_entry_len ?m (unat e)) :: u64) = of_nat (need typ data)"
    by (metis of_nat_unat ucast_id)
  show ?thesis
    unfolding append_entry_at_def Let_def log3 d by (simp add: len)
qed

lemma append_fit:
  assumes wf: "data_wf typ data"
    and t: "(if log_tail log = log_len log then log_get_tail log else Some (log_tail log)) = Some tail"
    and full: "\<not> is_log_full log"
    and e: "e = (if log_fit_entry_header log (log_end log) then log_end log else 0)"
    and fit: "unat e + need typ data \<le> Ln log" and L: "Ln log < 2 ^ 62"
    and i: "idx = next_idx (log\<lparr>log_tail := tail\<rparr>)"
  shows "log_append_entry log ph trm req_id clt_id typ data =
    Some (idx,
      log\<lparr>log_tail := e, log_end := e + of_nat (need typ data),
          log_entries := put_entry (log_entries log) (unat e) idx trm req_id clt_id typ data\<rparr>,
      (if typ \<noteq> HEAD then False else ph))"
proof -
  have "log_fit_entry_header log (log_end log) \<Longrightarrow> \<not> is_log_empty log"
    by (auto simp: is_log_empty_def log_fit_entry_header_def layout_simps)
  then have add: "log_add_new_entry log = Some (unat e)"
    using full by (auto simp: log_add_new_entry_def e)
  have "append_entry_at (log\<lparr>log_tail := tail\<rparr>) (unat e) idx trm req_id clt_id typ data =
    (idx, log\<lparr>log_tail := e, log_end := e + of_nat (need typ data),
       log_entries := put_entry (log_entries log) (unat e) idx trm req_id clt_id typ data\<rparr>)"
    using fit L by (subst append_entry_at_fit [OF wf]) (simp_all add: e)
  then show ?thesis
    using t by (simp add: log_append_entry_def Let_def add i)
qed

text \<open>A command that does not fit after its header leaves the header there and goes to 0.\<close>

lemma append_wrap:
  assumes wf: "data_wf typ data" and c: "is_cmd typ"
    and t: "(if log_tail log = log_len log then log_get_tail log else Some (log_tail log)) = Some tail"
    and full: "\<not> is_log_full log" and emp: "\<not> is_log_empty log"
    and endL: "unat (log_end log) \<le> Ln log"
    and hd: "log_fit_entry_header log (log_end log)" "log_head log \<noteq> 0"
    and nofit: "Ln log < unat (log_end log) + need typ data"
    and i: "idx = next_idx (log\<lparr>log_tail := tail\<rparr>)"
  shows "log_append_entry log ph trm req_id clt_id typ data =
    Some (idx,
      log\<lparr>log_tail := 0, log_end := of_nat (need typ data),
          log_entries := put_entry (stub (log_entries log) (En log) idx trm req_id clt_id typ data)
             0 idx trm req_id clt_id typ data\<rparr>, False)"
proof -
  have add: "log_add_new_entry log = Some (En log)"
    using full emp hd by (simp add: log_add_new_entry_def)
  have L64: "64 \<le> Ln log" using hd(1) fit_header_iff [OF endL] by simp
  let ?h = "write_entry_header (log_entries log) (En log) idx trm req_id clt_id typ"
  let ?m = "put_entry (stub (log_entries log) (En log) idx trm req_id clt_id typ data)
             0 idx trm req_id clt_id typ data"
  let ?log3 = "log\<lparr>log_tail := tail, log_entries := ?h\<rparr>"
  have d: "append_cmd ?log3 (En log) idx trm req_id clt_id typ data =
      (?log3\<lparr>log_end := 0, log_entries := ?m\<rparr>, Some 0)"
    using c endL nofit hd(2) L64 by (intro append_cmd_wrap) simp_all
  have "unat (ucast (log_entry_len ?m 0) :: u64) = need typ data"
    by (simp add: unat_entry_len put_entry_elen [OF wf])
  then have len: "(ucast (log_entry_len ?m 0) :: u64) = of_nat (need typ data)"
    by (metis of_nat_unat ucast_id)
  have "append_entry_at (log\<lparr>log_tail := tail\<rparr>) (En log) idx trm req_id clt_id typ data =
    (idx, log\<lparr>log_tail := 0, log_end := of_nat (need typ data), log_entries := ?m\<rparr>)"
    using hd(1) c d by (simp add: append_entry_at_def append_data_def Let_def len)
  then show ?thesis
    using t c by (simp add: log_append_entry_def Let_def add i)
qed

section \<open>The invariant\<close>

text \<open>An offset lies on the arc from \<open>h\<close> to \<open>e\<close> of the circular buffer.\<close>

definition between :: "nat \<Rightarrow> nat \<Rightarrow> nat \<Rightarrow> bool" where
  "between h e c \<longleftrightarrow> (if h \<le> e then h \<le> c \<and> c \<le> e else h \<le> c \<or> c \<le> e)"

lemma cover_between:
  "between h e c \<Longrightarrow> e \<le> L \<Longrightarrow> cover L c e \<subseteq> cover L h e"
  by (auto simp: between_def cover_def split: if_splits)

text \<open>
  The stored tail, when the leader has one, is an offset at which the header of the
  last entry is found.
\<close>

definition tail_ok :: "dare_log \<Rightarrow> nat list \<Rightarrow> bool" where
  "tail_ok log os \<longleftrightarrow>
     log_tail log = log_len log \<or>
     unat (log_tail log) + 64 \<le> Ln log \<and> unat (log_tail log) \<noteq> En log \<and>
     entry_idx (log_entries log) (unat (log_tail log)) = entry_idx (log_entries log) (last os)"

text \<open>Entries are numbered consecutively.\<close>

definition consecutive :: "u64 list \<Rightarrow> bool" where
  "consecutive is \<longleftrightarrow> successively (\<lambda>i j. j = i + 1) is"

definition idxs :: "dare_log \<Rightarrow> nat list \<Rightarrow> u64 list" where
  "idxs log os = map (entry_idx (log_entries log)) os"

text \<open>
  \<open>log_inv log os oa oc\<close>: the log holds the entries at \<open>os\<close>, of which \<open>oa\<close> are not yet
  applied and \<open>oc\<close> not yet committed.
\<close>

definition log_inv_empty :: "dare_log \<Rightarrow> bool" where
  "log_inv_empty log \<longleftrightarrow>
     64 \<le> Ln log \<and> Ln log < 2 ^ 62 \<and> is_log_empty log \<and> log_tail log = log_len log \<and>
     log_head log = 0 \<and> log_apply log = 0 \<and> log_commit log = 0"

definition log_inv_live :: "dare_log \<Rightarrow> nat list \<Rightarrow> nat list \<Rightarrow> nat list \<Rightarrow> bool" where
  "log_inv_live log os oa oc \<longleftrightarrow>
     log_live log \<and> os \<noteq> [] \<and>
     chain_from log (log_head log) os \<and> chain_from log (log_apply log) oa \<and>
     chain_from log (log_commit log) oc \<and> suffix oa os \<and> suffix oc oa \<and>
     between (unat (log_head log)) (En log) (unat (log_apply log)) \<and>
     between (unat (log_head log)) (En log) (unat (log_commit log)) \<and>
     tail_ok log os \<and> consecutive (idxs log os)"

definition log_inv :: "dare_log \<Rightarrow> nat list \<Rightarrow> nat list \<Rightarrow> nat list \<Rightarrow> bool" where
  "log_inv log os oa oc \<longleftrightarrow>
     (if is_log_empty log then log_inv_empty log \<and> os = [] \<and> oa = [] \<and> oc = []
      else log_inv_live log os oa oc)"

definition log_contents :: "dare_log \<Rightarrow> nat list \<Rightarrow> dare_log_entry list" where
  "log_contents log os = map (entry_at (log_entries log)) os"

lemma log_inv_new: "log_new True = Some log \<Longrightarrow> log_inv log [] [] []"
proof -
  have "unat LOG_SIZE = 67108864" by (simp add: LOG_SIZE_def)
  then show "log_new True = Some log \<Longrightarrow> log_inv log [] [] []"
    by (auto simp: log_new_def Let_def log_inv_def log_inv_empty_def is_log_empty_def)
qed

section \<open>The tail of a well-formed log\<close>

lemma suffix_last: "suffix xs ys \<Longrightarrow> xs \<noteq> [] \<Longrightarrow> last xs = last ys"
  by (auto simp: suffix_def)

lemma get_tail_correct:
  assumes "log_inv_live log os oa oc"
  shows "\<exists>t. log_get_tail log = Some t \<and> unat t + 64 \<le> Ln log \<and> unat t \<noteq> En log \<and>
     entry_idx (log_entries log) (unat t) = entry_idx (log_entries log) (last os)"
proof (cases "log_tail log = log_len log")
  case False
  then show ?thesis
    using assms by (auto simp: log_get_tail_def log_inv_live_def tail_ok_def)
next
  case True
  have live: "log_live log" and ne: "os \<noteq> []" and sf: "suffix oa os" "suffix oc oa"
    and ch: "chain_from log (log_head log) os" "chain_from log (log_apply log) oa"
      "chain_from log (log_commit log) oc"
    using assms by (simp_all add: log_inv_live_def)
  have last_c: "oc \<noteq> [] \<Longrightarrow> last oc = last os" and last_a: "oa \<noteq> [] \<Longrightarrow> last oa = last os"
    using sf suffix_last suffix_order.trans by metis+
  note emp = log_live_not_empty [OF live]
  obtain t1 where t1: "log_tail_loop log (log_commit log) (log_len log) = Some t1"
    "if oc = [] then t1 = log_len log else same_header (log_entries log) (unat t1) (last oc) \<and>
        unat t1 + 64 \<le> Ln log \<and> unat t1 \<noteq> En log"
    using tail_loop_correct [OF live ch(3)] by blast
  obtain t2 where t2: "log_tail_loop log (log_apply log) (log_len log) = Some t2"
    "if oa = [] then t2 = log_len log else same_header (log_entries log) (unat t2) (last oa) \<and>
        unat t2 + 64 \<le> Ln log \<and> unat t2 \<noteq> En log"
    using tail_loop_correct [OF live ch(2)] by blast
  obtain t3 where t3: "log_tail_loop log (log_head log) (log_len log) = Some t3"
    "same_header (log_entries log) (unat t3) (last os) \<and> unat t3 + 64 \<le> Ln log \<and> unat t3 \<noteq> En log"
    using tail_loop_correct [OF live ch(1)] ne by auto
  have len: "unat t + 64 \<le> Ln log \<Longrightarrow> t \<noteq> log_len log" for t by auto
  show ?thesis
    using True emp t1 t2 t3 last_c last_a len
    by (cases "oc = []"; cases "oa = []") (auto simp: log_get_tail_def same_header_def)
qed

section \<open>Appending keeps the invariant\<close>

text \<open>
  The room the code needs and does not check for: the new end must not reach the
  head, nor be exactly the length of the buffer.
\<close>

definition log_room :: "dare_log \<Rightarrow> nat \<Rightarrow> bool" where
  "log_room log n \<longleftrightarrow>
     (if is_log_empty log then n < Ln log
      else if unat (log_head log) \<le> En log
           then En log + n < Ln log \<or> Ln log < En log + n \<and> n < unat (log_head log)
           else En log + n < unat (log_head log))"

text \<open>Where the entry of \<open>n\<close> bytes lands, in terms of the buffer before and after.\<close>

definition lands :: "nat \<Rightarrow> mem \<Rightarrow> nat \<Rightarrow> nat \<Rightarrow> nat \<Rightarrow> nat \<Rightarrow> bool" where
  "lands L m' h e p n \<longleftrightarrow>
     p = e \<and> e + n < L \<and> (e < h \<longrightarrow> e + n < h) \<or>
     p = 0 \<and> h \<le> e \<and> wrap_at L m' e \<and> n < h"

lemma chain_from_snoc:
  assumes "chain_from log c os" "log_live log"
    and "log' = log\<lparr>log_tail := t, log_end := e', log_entries := m'\<rparr>" "unat e' = p + n"
    and "agree (log_entries log) m' (cover (Ln log) h (En log))"
    and "between h (En log) (unat c)" "lands (Ln log) m' h (En log) p n" "elen m' p = n"
  shows "chain_from log' c (os @ [p])" "between h (p + n) (unat c)"
proof -
  have e: "En log \<le> Ln log" using assms(2) by (simp add: log_live_def)
  have ch: "chain (Ln log) (log_entries log) (unat c) (En log) os" and cL: "unat c \<le> Ln log"
    using assms(1) by (simp_all add: chain_from_def)
  note ag = agree_subset [OF assms(5) cover_between [OF assms(6) e]]
  consider (fit) "p = En log" "En log + n < Ln log" "En log < h \<longrightarrow> En log + n < h"
    | (wrap) "p = 0" "h \<le> En log" "wrap_at (Ln log) m' (En log)" "n < h"
    using assms(7) by (auto simp: lands_def)
  then have "chain (Ln log) m' (unat c) (p + n) (os @ [p]) \<and> between h (p + n) (unat c)"
  proof cases
    case fit
    have "En log < unat c \<Longrightarrow> En log + n < unat c"
      using fit(3) assms(6) by (auto simp: between_def split: if_splits)
    then have "chain (Ln log) m' (unat c) (En log + n) (os @ [En log])"
      using chain_snoc_fit [OF ch ag] fit(1,2) assms(8) by simp
    then show ?thesis using fit assms(6) by (auto simp: between_def split: if_splits)
  next
    case wrap
    then have "h \<le> unat c" "unat c \<le> En log" using assms(6) by (simp_all add: between_def)
    then show ?thesis
      using chain_snoc_wrap [OF ch ag _ wrap(3)] wrap assms(8) by (simp add: between_def)
  qed
  then show "chain_from log' c (os @ [p])" "between h (p + n) (unat c)"
    using cL by (simp_all add: chain_from_def assms(3,4))
qed

lemma chain_contents:
  assumes "chain_from log c os" "En log \<le> Ln log"
    and "agree (log_entries log) m' (cover (Ln log) (unat c) (En log))"
  shows "map (entry_at m') os = map (entry_at (log_entries log)) os"
    "map (entry_idx m') os = map (entry_idx (log_entries log)) os"
proof -
  have "entry_at m' x = entry_at (log_entries log) x" if "x \<in> set os" for x
    using chain_entries [OF _ assms(2) that] assms(1) entry_at_cong [OF assms(3)]
    by (simp add: chain_from_def)
  moreover have "entry_idx m x = e_idx (entry_at m x)" for m x by (simp add: entry_at_def)
  ultimately show "map (entry_at m') os = map (entry_at (log_entries log)) os"
    "map (entry_idx m') os = map (entry_idx (log_entries log)) os"
    by simp_all
qed

lemma log_inv_live_snoc:
  assumes inv: "log_inv_live log os oa oc"
    and log': "log' = log\<lparr>log_tail := t, log_end := e', log_entries := m'\<rparr>"
    and pos: "unat e' = p + n" "unat t = p" "64 \<le> n"
    and ag: "agree (log_entries log) m' (cover (Ln log) (unat (log_head log)) (En log))"
    and lands: "lands (Ln log) m' (unat (log_head log)) (En log) p n" "elen m' p = n"
    and idx: "entry_idx m' p = entry_idx (log_entries log) (last os) + 1"
  shows "log_inv_live log' (os @ [p]) (oa @ [p]) (oc @ [p])"
    and "log_contents log' (os @ [p]) = log_contents log os @ [entry_at m' p]"
proof -
  have live: "log_live log" and ne: "os \<noteq> []" and sf: "suffix oa os" "suffix oc oa"
    and ch: "chain_from log (log_head log) os" "chain_from log (log_apply log) oa"
      "chain_from log (log_commit log) oc"
    and bt: "between (unat (log_head log)) (En log) (unat (log_apply log))"
      "between (unat (log_head log)) (En log) (unat (log_commit log))"
    and con: "consecutive (idxs log os)"
    using inv by (simp_all add: log_inv_live_def)
  have hb: "between (unat (log_head log)) (En log) (unat (log_head log))"
    by (simp add: between_def)
  have eL: "En log \<le> Ln log" using live by (simp add: log_live_def)
  note snoc = chain_from_snoc [OF _ live log' pos(1) ag _ lands]
  have pn: "p + n < Ln log"
  proof (cases "p = En log \<and> En log + n < Ln log")
    case False
    then have "p = 0" "n < unat (log_head log)" using lands(1) by (auto simp: lands_def)
    then show ?thesis using ch(1) by (simp add: chain_from_def)
  qed simp
  have live': "log_live log'"
    using live pos pn by (simp add: log_live_def log')
  have "idxs log' (os @ [p]) = idxs log os @ [last (idxs log os) + 1]"
    using chain_contents(2) [OF ch(1) eL ag] ne idx by (simp add: idxs_def log' last_map)
  then have con': "consecutive (idxs log' (os @ [p]))"
    using con by (simp add: consecutive_def successively_append_iff)
  have tail': "tail_ok log' (os @ [p])"
    using pos pn by (simp add: tail_ok_def log')
  show "log_inv_live log' (os @ [p]) (oa @ [p]) (oc @ [p])"
    using snoc [OF ch(1) hb] snoc [OF ch(2) bt(1)] snoc [OF ch(3) bt(2)] sf live' con' tail' pos(1)
    by (simp add: log_inv_live_def log')
  show "log_contents log' (os @ [p]) = log_contents log os @ [entry_at m' p]"
    using chain_contents(1) [OF ch(1) eL ag] by (simp add: log_contents_def log')
qed

lemma next_idx_live:
  assumes "log_live log" "unat t + 64 \<le> Ln log" "unat t \<noteq> En log"
  shows "next_idx (log\<lparr>log_tail := t\<rparr>) = entry_idx (log_entries log) (unat t) + 1"
proof -
  have tL: "unat t \<le> Ln log" using assms(2) by simp
  have "0 \<noteq> log_offset_end_distance log t"
    using end_distance_0 [OF assms(1) tL] assms(3) by metis
  then have "log_get_entry log t = (Some (unat t), t)"
    using log_live_not_empty [OF assms(1)] fit_header_iff [OF tL] assms(2)
    by (simp add: log_get_entry_def)
  then show ?thesis by (simp add: next_idx_def)
qed

lemma chain_h_neq_e: "chain L m h e os \<Longrightarrow> os \<noteq> [] \<Longrightarrow> h \<noteq> e"
  by (cases os) auto

text \<open>
  What an append promises: one more entry, after the ones there were, with the index
  \<open>idx\<close>, no replies yet, and the data given; nothing committed, applied or pruned.
\<close>

definition appends :: "dare_log \<Rightarrow> nat list \<Rightarrow> nat list \<Rightarrow> nat list \<Rightarrow> u64 \<Rightarrow> u64 \<Rightarrow> u64 \<Rightarrow> u16 \<Rightarrow> u8
    \<Rightarrow> u8 list \<Rightarrow> dare_log \<Rightarrow> bool" where
  "appends log os oa oc idx trm req_id clt_id typ data log' \<longleftrightarrow>
     (\<exists>p s. log_inv log' (os @ [p]) (oa @ [p]) (oc @ [p]) \<and>
        log_contents log' (os @ [p]) = log_contents log os @
          [\<lparr>e_idx = idx, e_term = trm, e_req_id = req_id, e_clt_id = clt_id, e_type = typ,
            e_sender = s, e_reply = replicate 13 0, e_data = data_of typ data\<rparr>]) \<and>
     log_head log' = log_head log \<and> log_apply log' = log_apply log \<and>
     log_commit log' = log_commit log \<and> log_len log' = log_len log"

lemma log_inv_liveI: "log_inv_live log os oa oc \<Longrightarrow> log_inv log os oa oc"
  using log_live_not_empty by (auto simp: log_inv_def log_inv_live_def)

lemma unat_need: "unat (of_nat (need typ data) :: u64) = need typ data"
  using need_bounds(2) [of "typ" data] by (simp add: unat_of_nat_small)

lemma live_tail:
  assumes "log_inv_live log os oa oc"
  obtains tail where
    "(if log_tail log = log_len log then log_get_tail log else Some (log_tail log)) = Some tail"
    "entry_idx (log_entries log) (last os) + 1 = next_idx (log\<lparr>log_tail := tail\<rparr>)"
proof -
  have live: "log_live log" using assms by (simp add: log_inv_live_def)
  show ?thesis
  proof (cases "log_tail log = log_len log")
    case True
    then show ?thesis using get_tail_correct [OF assms] next_idx_live [OF live] that by auto
  next
    case False
    then show ?thesis
      using assms next_idx_live [OF live, of "log_tail log"] that [of "log_tail log"]
      by (auto simp: log_inv_live_def tail_ok_def)
  qed
qed

lemma live_not_full: "log_inv_live log os oa oc \<Longrightarrow> \<not> is_log_full log"
  using chain_h_neq_e [of "Ln log" "log_entries log" "unat (log_head log)" "En log" os]
  by (auto simp: is_log_full_def log_inv_live_def chain_from_def)

lemma put_live_snoc:
  assumes inv: "log_inv_live log os oa oc" and wf: "data_wf typ data"
    and i: "idx = entry_idx (log_entries log) (last os) + 1"
    and m': "m' = put_entry m p idx trm req_id clt_id typ data"
    and pos: "unat e' = p + need typ data" "unat t = p"
    and ag: "agree (log_entries log) m' (cover (Ln log) (unat (log_head log)) (En log))"
    and ld: "lands (Ln log) m' (unat (log_head log)) (En log) p (need typ data)"
  shows "appends log os oa oc idx trm req_id clt_id typ data
    (log\<lparr>log_tail := t, log_end := e', log_entries := m'\<rparr>)"
proof -
  have "elen m' p = need typ data" "entry_idx m' p = entry_idx (log_entries log) (last os) + 1"
    using put_entry_elen [OF wf] by (simp_all add: m' i)
  note r = log_inv_live_snoc [OF inv refl pos need_bounds(1) ag ld this]
  show ?thesis
    using log_inv_liveI [OF r(1)] r(2) put_entry_at [OF wf, of m p idx trm req_id clt_id]
    by (auto simp: appends_def m')
qed

lemma append_live_fit:
  assumes inv: "log_inv_live log os oa oc" and wf: "data_wf typ data"
    and fit: "En log + need typ data < Ln log"
      "En log < unat (log_head log) \<Longrightarrow> En log + need typ data < unat (log_head log)"
  shows "\<exists>log'. log_append_entry log ph trm req_id clt_id typ data =
      Some (entry_idx (log_entries log) (last os) + 1, log', (if typ \<noteq> HEAD then False else ph)) \<and>
    appends log os oa oc (entry_idx (log_entries log) (last os) + 1) trm req_id clt_id typ data log'"
proof -
  let ?n = "need typ data" and ?i = "entry_idx (log_entries log) (last os) + 1"
  let ?m' = "put_entry (log_entries log) (En log) ?i trm req_id clt_id typ data"
  obtain tail where t: "(if log_tail log = log_len log then log_get_tail log else Some (log_tail log)) = Some tail"
    "?i = next_idx (log\<lparr>log_tail := tail\<rparr>)"
    by (rule live_tail [OF inv])
  have L: "Ln log < 2 ^ 62" using inv by (simp add: log_inv_live_def log_live_def)
  have hd: "log_fit_entry_header log (log_end log)"
    using fit(1) need_bounds(1) [of "typ" data] by (subst fit_header_iff) simp_all
  have "log_append_entry log ph trm req_id clt_id typ data = Some (?i,
      log\<lparr>log_tail := log_end log, log_end := log_end log + of_nat ?n, log_entries := ?m'\<rparr>,
      (if typ \<noteq> HEAD then False else ph))"
    using fit(1) L t(2) hd by (intro append_fit [OF wf t(1) live_not_full [OF inv]]) simp_all
  moreover have "appends log os oa oc ?i trm req_id clt_id typ data
      (log\<lparr>log_tail := log_end log, log_end := log_end log + of_nat ?n, log_entries := ?m'\<rparr>)"
  proof (rule put_live_snoc [OF inv wf refl refl _ refl])
    show "unat (log_end log + of_nat ?n) = En log + ?n"
      using fit(1) L unat_need by (simp add: unat_word_ariths)
    show "agree (log_entries log) ?m' (cover (Ln log) (unat (log_head log)) (En log))"
      using fit(2) by (intro agree_subset [OF put_entry_agree]) (auto simp: cover_def)
    show "lands (Ln log) ?m' (unat (log_head log)) (En log) (En log) ?n"
      using fit by (simp add: lands_def)
  qed
  ultimately show ?thesis by blast
qed

lemma append_live_nohead:
  assumes inv: "log_inv_live log os oa oc" and wf: "data_wf typ data"
    and nohead: "Ln log < En log + 64" "unat (log_head log) \<le> En log" "need typ data < unat (log_head log)"
  shows "\<exists>log'. log_append_entry log ph trm req_id clt_id typ data =
      Some (entry_idx (log_entries log) (last os) + 1, log', (if typ \<noteq> HEAD then False else ph)) \<and>
    appends log os oa oc (entry_idx (log_entries log) (last os) + 1) trm req_id clt_id typ data log'"
proof -
  let ?n = "need typ data" and ?i = "entry_idx (log_entries log) (last os) + 1"
  let ?m' = "put_entry (log_entries log) 0 ?i trm req_id clt_id typ data"
  obtain tail where t: "(if log_tail log = log_len log then log_get_tail log else Some (log_tail log)) = Some tail"
    "?i = next_idx (log\<lparr>log_tail := tail\<rparr>)"
    by (rule live_tail [OF inv])
  have L: "Ln log < 2 ^ 62" and eL: "En log < Ln log"
    using inv by (simp_all add: log_inv_live_def log_live_def)
  have hd: "\<not> log_fit_entry_header log (log_end log)"
    using nohead(1) eL by (subst fit_header_iff) simp_all
  have "log_append_entry log ph trm req_id clt_id typ data = Some (?i,
      log\<lparr>log_tail := 0, log_end := of_nat ?n, log_entries := ?m'\<rparr>, (if typ \<noteq> HEAD then False else ph))"
    using append_fit [OF wf t(1) live_not_full [OF inv] refl _ L t(2)] nohead hd eL by simp
  moreover have "appends log os oa oc ?i trm req_id clt_id typ data
      (log\<lparr>log_tail := 0, log_end := of_nat ?n, log_entries := ?m'\<rparr>)"
  proof (rule put_live_snoc [OF inv wf refl refl])
    show "unat (of_nat ?n :: u64) = 0 + ?n" by (simp add: unat_need)
    show "agree (log_entries log) ?m' (cover (Ln log) (unat (log_head log)) (En log))"
      using nohead by (intro agree_subset [OF put_entry_agree]) auto
    show "lands (Ln log) ?m' (unat (log_head log)) (En log) 0 ?n"
      using nohead eL by (simp add: lands_def wrap_at_def)
  qed simp
  ultimately show ?thesis by blast
qed

lemma stub_wrap_at:
  assumes c: "is_cmd typ" and wf: "data_wf typ data"
    and m': "m' = put_entry (stub m e idx trm req_id clt_id typ data) 0 idx trm req_id clt_id typ data"
    and "need typ data \<le> e" "e \<le> L" "L < e + need typ data"
  shows "wrap_at L m' e"
proof -
  let ?s = "stub m e idx trm req_id clt_id typ data"
  have ag: "agree ?s m' (- {0..<need typ data})" using put_entry_agree [of ?s 0] by (simp add: m')
  note st = stub_fields [OF c refl, of m e idx trm req_id clt_id data]
  have "{e..<e + 50} \<subseteq> - {0..<need typ data}" using assms(4) by auto
  note hc = header_cong [OF ag this]
  have el: "elen m' e = need typ data" using st hc by (simp add: elen_eq need_def c)
  have at0: "entry_idx m' 0 = idx" "entry_term m' 0 = trm" "entry_type m' 0 = typ"
    using put_entry_at [OF wf, of ?s 0 idx trm req_id clt_id] by (simp_all add: entry_at_def m')
  have "elen m' 0 = need typ data" unfolding m' by (rule put_entry_elen [OF wf])
  then have "entry_cmd_len m' 0 = cmd_len_of data"
    using at0(3) c by (simp add: elen_eq need_def word_unat_eq_iff)
  then show ?thesis using assms(5,6) el st hc at0 by (simp add: wrap_at_def same_header_def)
qed

lemma append_live_nocmd:
  assumes inv: "log_inv_live log os oa oc" and wf: "data_wf typ data"
    and nocmd: "En log + 64 \<le> Ln log" "Ln log < En log + need typ data"
      "unat (log_head log) \<le> En log" "need typ data < unat (log_head log)"
  shows "\<exists>log'. log_append_entry log ph trm req_id clt_id typ data =
      Some (entry_idx (log_entries log) (last os) + 1, log', (if typ \<noteq> HEAD then False else ph)) \<and>
    appends log os oa oc (entry_idx (log_entries log) (last os) + 1) trm req_id clt_id typ data log'"
proof -
  let ?n = "need typ data" and ?i = "entry_idx (log_entries log) (last os) + 1"
  let ?s = "stub (log_entries log) (En log) ?i trm req_id clt_id typ data"
  let ?m' = "put_entry ?s 0 ?i trm req_id clt_id typ data"
  have c: "is_cmd typ" using nocmd by (auto simp: need_def)
  obtain tail where t: "(if log_tail log = log_len log then log_get_tail log else Some (log_tail log)) = Some tail"
    "?i = next_idx (log\<lparr>log_tail := tail\<rparr>)"
    by (rule live_tail [OF inv])
  have eL: "En log \<le> Ln log" and emp: "\<not> is_log_empty log"
    using inv log_live_not_empty by (auto simp: log_inv_live_def log_live_def)
  have hd: "log_fit_entry_header log (log_end log)" using nocmd(1) fit_header_iff [OF eL] by simp
  have h0: "log_head log \<noteq> 0" using nocmd(4) by auto
  have "log_append_entry log ph trm req_id clt_id typ data = Some (?i,
      log\<lparr>log_tail := 0, log_end := of_nat ?n, log_entries := ?m'\<rparr>, (if typ \<noteq> HEAD then False else ph))"
    using append_wrap [OF wf c t(1) live_not_full [OF inv] emp eL hd h0 nocmd(2) t(2)] c by simp
  moreover have "appends log os oa oc ?i trm req_id clt_id typ data
      (log\<lparr>log_tail := 0, log_end := of_nat ?n, log_entries := ?m'\<rparr>)"
  proof (rule put_live_snoc [OF inv wf refl refl])
    show "unat (of_nat ?n :: u64) = 0 + ?n" by (simp add: unat_need)
    show "agree (log_entries log) ?m' (cover (Ln log) (unat (log_head log)) (En log))"
      using stub_agree [of "log_entries log" "En log"] put_entry_agree [of ?s 0] nocmd
      by (auto simp: agree_def)
    show "lands (Ln log) ?m' (unat (log_head log)) (En log) 0 ?n"
      using nocmd stub_wrap_at [OF c wf refl _ eL nocmd(2)] by (simp add: lands_def)
  qed simp
  ultimately show ?thesis by blast
qed

definition last_idx :: "dare_log \<Rightarrow> nat list \<Rightarrow> u64" where
  "last_idx log os = (if os = [] then 0 else entry_idx (log_entries log) (last os))"

lemma append_first:
  assumes inv: "log_inv_empty log" and wf: "data_wf typ data" and room: "need typ data < Ln log"
  shows "\<exists>log'. log_append_entry log ph trm req_id clt_id typ data =
      Some (1, log', (if typ \<noteq> HEAD then False else ph)) \<and>
    appends log [] [] [] 1 trm req_id clt_id typ data log'"
proof -
  let ?n = "need typ data"
  let ?m' = "put_entry (log_entries log) 0 1 trm req_id clt_id typ data"
  let ?log' = "log\<lparr>log_tail := 0, log_end := of_nat ?n, log_entries := ?m'\<rparr>"
  have emp: "is_log_empty log" and tl: "log_tail log = log_len log" and L: "Ln log < 2 ^ 62"
    and z: "log_head log = 0" "log_apply log = 0" "log_commit log = 0"
    using inv by (simp_all add: log_inv_empty_def)
  have end_len: "log_end log = log_len log" using emp by (simp add: is_log_empty_def)
  have t: "(if log_tail log = log_len log then log_get_tail log else Some (log_tail log)) = Some (log_len log)"
    using tl emp by (simp add: log_get_tail_def)
  have full: "\<not> is_log_full log" using z end_len room by (auto simp: is_log_full_def)
  have hd: "\<not> log_fit_entry_header log (log_end log)"
    by (simp add: end_len log_fit_entry_header_def layout_simps)
  have i: "1 = next_idx (log\<lparr>log_tail := log_len log\<rparr>)"
    using emp by (simp add: next_idx_def log_get_entry_def)
  have ap: "log_append_entry log ph trm req_id clt_id typ data =
      Some (1, ?log', (if typ \<noteq> HEAD then False else ph))"
    using append_fit [OF wf t full refl _ L i] hd room by simp
  have live: "log_live ?log'"
    using room L need_bounds(1) [of "typ" data] by (simp add: log_live_def unat_need)
  have "elen ?m' 0 = ?n" "entry_idx ?m' 0 = 1" using put_entry_elen [OF wf] by simp_all
  then have "log_inv_live ?log' [0] [0] [0]"
    using live z room need_bounds(1) [of "typ" data]
    by (simp add: log_inv_live_def chain_from_def unat_need between_def tail_ok_def consecutive_def idxs_def)
  then have "appends log [] [] [] 1 trm req_id clt_id typ data ?log'"
    using put_entry_at [OF wf, of "log_entries log" 0 1 trm req_id clt_id] log_inv_liveI
    by (auto simp: appends_def log_contents_def intro!: exI [of _ "0 :: nat"])
  with ap show ?thesis by blast
qed

lemma append_correct:
  assumes inv: "log_inv log os oa oc" and wf: "data_wf typ data" and room: "log_room log (need typ data)"
  shows "\<exists>log'. log_append_entry log ph trm req_id clt_id typ data =
      Some (last_idx log os + 1, log', (if typ \<noteq> HEAD then False else ph)) \<and>
    appends log os oa oc (last_idx log os + 1) trm req_id clt_id typ data log'"
proof (cases "is_log_empty log")
  case True
  then have "log_inv_empty log" "os = []" "oa = []" "oc = []" "need typ data < Ln log"
    using inv room by (simp_all add: log_inv_def log_room_def)
  then show ?thesis using append_first [OF _ wf] by (simp add: last_idx_def)
next
  case False
  then have lv: "log_inv_live log os oa oc" using inv by (simp add: log_inv_def)
  then have ne: "os \<noteq> []" and hL: "unat (log_head log) \<le> Ln log"
    by (simp_all add: log_inv_live_def chain_from_def)
  have r: "if unat (log_head log) \<le> En log
      then En log + need typ data < Ln log \<or>
        Ln log < En log + need typ data \<and> need typ data < unat (log_head log)
      else En log + need typ data < unat (log_head log)"
    using room False by (simp add: log_room_def)
  consider (fit) "En log + need typ data < Ln log"
      "En log < unat (log_head log) \<Longrightarrow> En log + need typ data < unat (log_head log)"
    | (nohead) "Ln log < En log + 64" "unat (log_head log) \<le> En log" "need typ data < unat (log_head log)"
    | (nocmd) "En log + 64 \<le> Ln log" "Ln log < En log + need typ data"
      "unat (log_head log) \<le> En log" "need typ data < unat (log_head log)"
    using r hL by (cases "Ln log < En log + 64") (auto split: if_splits)
  then show ?thesis
    using append_live_fit [OF lv wf] append_live_nohead [OF lv wf] append_live_nocmd [OF lv wf] ne
    by cases (simp_all add: last_idx_def)
qed

text \<open>A full log refuses the entry and changes nothing but the cached tail.\<close>

lemma append_full:
  assumes "is_log_full log"
    and "(if log_tail log = log_len log then log_get_tail log else Some (log_tail log)) = Some tail"
  shows "log_append_entry log ph trm req_id clt_id typ data =
    Some (0, log\<lparr>log_tail := tail\<rparr>, (if typ \<noteq> HEAD then False else ph))"
  using assms by (simp add: log_append_entry_def Let_def log_add_new_entry_def)

end
