(* ===== verification/Dare_Log_Adjust.thy ===== *)
theory Dare_Log_Adjust
  imports Dare_Log_Append
begin

text \<open>
  Log adjustment: a new leader compares its log with the determinants a server
  stored of its not committed entries, and \<^verbatim>\<open>log_find_remote_end_offset\<close> returns where the
  two logs part.  The theory also has the circular order on offsets.
\<close>

section \<open>The loop over the determinants\<close>

lemma find_remote_match:
  assumes live: "log_live log" and d: "det_of log os i (nc_entries nb i)"
    and i: "i < length os" "i < MAX_NC_ENTRIES"
  obtains v where "log_find_remote_end_loop log nb i (Suc n) offset
      = log_find_remote_end_loop log nb (Suc i) n (Some v)"
    "chain_from log v (drop (Suc i) os)"
proof -
  have ch: "chain_from log (det_offset (nc_entries nb i)) (os ! i # drop (Suc i) os)"
    using d i(1) by (simp add: det_of_def Cons_nth_drop_Suc)
  obtain o1 where o1: "log_get_entry log (det_offset (nc_entries nb i)) = (Some (unat o1), o1)"
    "same_header (log_entries log) (unat o1) (os ! i)" "chain_from log (next_off log o1) (drop (Suc i) os)"
    by (rule get_entry_some [OF live ch], rule that; assumption)
  have "entry_idx (log_entries log) (unat o1) = det_idx (nc_entries nb i)"
    "entry_term (log_entries log) (unat o1) = det_term (nc_entries nb i)"
    using o1(2) d by (simp_all add: same_header_def det_of_def)
  then show ?thesis
    using o1(1,3) i(2) by (intro that [of "next_off log o1"]) (simp_all add: next_off_def)
qed

definition parts_at :: "dare_log \<Rightarrow> nat list \<Rightarrow> nat \<Rightarrow> dare_log_entry_det \<Rightarrow> bool" where
  "parts_at log os k d \<longleftrightarrow>
     chain_from log (det_offset d) (drop k os) \<and>
     (k < length os \<longrightarrow> det_idx d \<noteq> entry_idx (log_entries log) (os ! k) \<or>
        det_term d \<noteq> entry_term (log_entries log) (os ! k))"

lemma find_remote_part:
  assumes live: "log_live log" and d: "parts_at log os i (nc_entries nb i)" and i: "i < MAX_NC_ENTRIES"
  shows "\<exists>v. log_find_remote_end_loop log nb i (Suc n) offset = Inr v \<and> chain_from log v (drop i os)"
proof (cases "i < length os")
  case True
  then have ch: "chain_from log (det_offset (nc_entries nb i)) (os ! i # drop (Suc i) os)"
    using d by (simp add: parts_at_def Cons_nth_drop_Suc)
  obtain o1 where o1: "log_get_entry log (det_offset (nc_entries nb i)) = (Some (unat o1), o1)"
    "same_header (log_entries log) (unat o1) (os ! i)"
    "o1 = (if unat (det_offset (nc_entries nb i)) + 64 \<le> Ln log then det_offset (nc_entries nb i) else 0)"
    by (rule get_entry_some [OF live ch], rule that; assumption)
  have "entry_idx (log_entries log) (unat o1) \<noteq> det_idx (nc_entries nb i) \<or>
    entry_term (log_entries log) (unat o1) \<noteq> det_term (nc_entries nb i)"
    using o1(2) d True by (auto simp: same_header_def parts_at_def)
  then show ?thesis
    using o1(1) i chain_from_norm [OF live ch o1(3)] True
    by (auto simp: Cons_nth_drop_Suc)
next
  case False
  then have ch: "chain_from log (det_offset (nc_entries nb i)) []"
    using d by (simp add: parts_at_def)
  then show ?thesis using get_entry_none [OF live ch] i False by simp
qed

text \<open>
  If the first \<open>k\<close> determinants match the local entries \<open>os\<close> and the next one does not
  (or there is none), the result is where the \<open>k\<close>-th local entry starts.
\<close>

lemma find_remote_loop_correct:
  assumes live: "log_live log" and "i + n \<le> MAX_NC_ENTRIES" "k \<le> n" "i + k \<le> length os"
    and "\<forall>j. i \<le> j \<and> j < i + k \<longrightarrow> det_of log os j (nc_entries nb j)"
    and "k < n \<longrightarrow> parts_at log os (i + k) (nc_entries nb (i + k))"
    and "n = 0 \<longrightarrow> (\<exists>v. offset = Some v \<and> chain_from log v (drop i os))"
  shows "\<exists>v. log_find_remote_end_loop log nb i n offset = Inr v \<and> chain_from log v (drop (i + k) os)"
  using assms(2-)
proof (induction n arbitrary: i k offset)
  case 0
  then show ?case by auto
next
  case (Suc n)
  show ?case
  proof (cases k)
    case 0
    then show ?thesis using find_remote_part [OF live, of os i nb] Suc.prems by simp
  next
    case (Suc k')
    obtain v where v: "log_find_remote_end_loop log nb i (Suc n) offset
        = log_find_remote_end_loop log nb (Suc i) n (Some v)" "chain_from log v (drop (Suc i) os)"
      by (rule find_remote_match [OF live, of os i nb n offset])
        (use Suc Suc.prems in auto)
    show ?thesis
      using Suc.IH [of "Suc i" k' "Some v"] v Suc.prems Suc by auto
  qed
qed

section \<open>Two logs with a common prefix\<close>

text \<open>Two servers hold the same entry at \<open>p\<close>, as far as index, term and length go.\<close>

definition same_entry :: "dare_log \<Rightarrow> dare_log \<Rightarrow> nat \<Rightarrow> bool" where
  "same_entry l r p \<longleftrightarrow>
     entry_idx (log_entries l) p = entry_idx (log_entries r) p \<and>
     entry_term (log_entries l) p = entry_term (log_entries r) p \<and>
     elen (log_entries l) p = elen (log_entries r) p"

lemma next_off_same:
  assumes live: "log_live l" "log_live r" and len: "log_len l = log_len r"
    and ch: "chain_from l c (p # ls)" "chain_from r c (p # rs)" and same: "same_entry l r p"
    and o1: "o1 = (if unat c + 64 \<le> Ln l then c else 0)"
  shows "next_off l o1 = next_off r o1" "chain_from l (next_off l o1) ls" "chain_from r (next_off r o1) rs"
proof -
  let ?fit = "\<lambda>log. log_fit_entry log o1 (unat o1)"
  obtain ol where "ol = (if unat c + 64 \<le> Ln l then c else 0)" and
    l: "same_header (log_entries l) (unat ol) p" "log_fit_entry l ol (unat ol) \<Longrightarrow> unat ol = p"
    "\<not> log_fit_entry l ol (unat ol) \<Longrightarrow> p = 0 \<and> chain_from l 0 (p # ls)"
    "chain_from l (next_off l ol) ls" "unat ol + 64 \<le> Ln l"
    by (rule get_entry_some [OF live(1) ch(1)], rule that; assumption)
  then have ol: "ol = o1" by (simp add: o1)
  obtain r1 where "r1 = (if unat c + 64 \<le> Ln r then c else 0)" and
    r: "same_header (log_entries r) (unat r1) p" "chain_from r (next_off r r1) rs"
    by (rule get_entry_some [OF live(2) ch(2)], rule that; assumption)
  then have r1: "r1 = o1" by (simp add: o1 len)
  have el: "elen (log_entries l) (unat o1) = elen (log_entries r) (unat o1)"
    using same_header_elen [OF l(1)] same_header_elen [OF r(1)] same
    by (simp add: same_entry_def ol r1)
  then have "log_entry_len (log_entries l) (unat o1) = log_entry_len (log_entries r) (unat o1)"
    by (simp add: elen_def word_unat_eq_iff)
  moreover have "?fit l = ?fit r"
    using l(5) el by (simp add: fit_entry_iff ol len)
  ultimately show nx: "next_off l o1 = next_off r o1" by (simp add: next_off_def)
  show "chain_from l (next_off l o1) ls" "chain_from r (next_off r o1) rs"
    using l(4) r(2) ol r1 by simp_all
qed

text \<open>
  The determinants the server \<open>r\<close> writes carry offsets from which the local log \<open>l\<close> is
  walked as well, up to the first entry in which the logs differ.
\<close>

lemma nc_buf_two_logs:
  assumes live: "log_live l" "log_live r" and len: "log_len l = log_len r" and ls: "ls \<noteq> []"
    and "chain_from l c (cs @ ls)" "chain_from r c (cs @ rs)" "\<forall>p\<in>set cs. same_entry l r p"
    and "unat n + length (cs @ rs) \<le> MAX_NC_ENTRIES"
  shows "\<exists>nb'. log_entries_to_nc_buf_loop r c n nb = Some (Inr nb') \<and>
    unat (nc_len nb') = unat n + length (cs @ rs) \<and>
    (\<forall>i<unat n. nc_entries nb' i = nc_entries nb i) \<and>
    (\<forall>i<length cs. det_of l (cs @ ls) i (nc_entries nb' (unat n + i))) \<and>
    (rs \<noteq> [] \<longrightarrow> (let d = nc_entries nb' (unat n + length cs) in
       chain_from l (det_offset d) ls \<and> det_idx d = entry_idx (log_entries r) (hd rs) \<and>
       det_term d = entry_term (log_entries r) (hd rs)))"
  using assms(5-)
proof (induction cs arbitrary: c n nb)
  case Nil
  show ?case
  proof (cases rs)
    case Nil
    then have "log_get_entry r c = (None, c)"
      using Nil.prems(2) get_entry_none [OF live(2)] by simp
    then show ?thesis by (simp add: Nil nc_buf_loop_none)
  next
    case (Cons p rs')
    have lt: "\<not> MAX_NC_ENTRIES \<le> unat n" using Nil.prems(4) Cons by simp
    have ch: "chain_from r c (p # rs')" using Nil.prems(2) Cons by simp
    obtain o1 where o1: "log_get_entry r c = (Some (unat o1), o1)"
      "same_header (log_entries r) (unat o1) p" "o1 = (if unat c + 64 \<le> Ln r then c else 0)"
      "chain_from r (next_off r o1) rs'"
      by (rule get_entry_some [OF live(2) ch], rule that; assumption)
    let ?d = "\<lparr>det_idx = entry_idx (log_entries r) (unat o1),
              det_term = entry_term (log_entries r) (unat o1), det_offset = o1\<rparr>"
    have n1: "unat (n + 1) = unat n + 1" using lt by (simp add: unat_word_ariths MAX_NC_ENTRIES_def)
    obtain nb' where nb': "log_entries_to_nc_buf_loop r (next_off r o1) (n + 1)
        (nb\<lparr>nc_entries := (nc_entries nb)(unat n := ?d)\<rparr>) = Some (Inr nb')"
      "unat (nc_len nb') = unat n + 1 + length rs'"
      "\<forall>i<unat n + 1. nc_entries nb' i = ((nc_entries nb)(unat n := ?d)) i"
      using nc_buf_loop_correct [OF live(2) o1(4), of "n + 1"] n1 Nil.prems(4) Cons by fastforce
    have "chain_from l o1 ls"
      using Nil.prems(1) ls chain_from_norm [OF live(1), of c "hd ls" "tl ls" o1] o1(3) len by simp
    then show ?thesis
      using nb' nc_buf_loop_some [OF o1(1)] o1(2) lt Cons by (simp add: same_header_def)
  qed
next
  case (Cons p cs)
  have lt: "\<not> MAX_NC_ENTRIES \<le> unat n" using Cons.prems(4) by simp
  have chl: "chain_from l c (p # cs @ ls)" and chr: "chain_from r c (p # cs @ rs)"
    and same: "same_entry l r p" using Cons.prems by simp_all
  obtain o1 where o1: "log_get_entry r c = (Some (unat o1), o1)"
    "same_header (log_entries r) (unat o1) p" "o1 = (if unat c + 64 \<le> Ln r then c else 0)"
    by (rule get_entry_some [OF live(2) chr], rule that; assumption)
  have o1l: "o1 = (if unat c + 64 \<le> Ln l then c else 0)" using o1(3) len by simp
  note nx = next_off_same [OF live len chl chr same o1l]
  let ?d = "\<lparr>det_idx = entry_idx (log_entries r) (unat o1),
            det_term = entry_term (log_entries r) (unat o1), det_offset = o1\<rparr>"
  have d: "det_of l (p # cs @ ls) 0 ?d"
    using o1(2) same chain_from_norm [OF live(1) chl o1l]
    by (simp add: det_of_def same_header_def same_entry_def)
  have n1: "unat (n + 1) = unat n + 1" using lt by (simp add: unat_word_ariths MAX_NC_ENTRIES_def)
  obtain nb' where nb': "log_entries_to_nc_buf_loop r (next_off r o1) (n + 1)
        (nb\<lparr>nc_entries := (nc_entries nb)(unat n := ?d)\<rparr>) = Some (Inr nb')"
    "unat (nc_len nb') = unat n + 1 + length (cs @ rs)"
    "\<forall>i<unat n + 1. nc_entries nb' i = ((nc_entries nb)(unat n := ?d)) i"
    "\<forall>i<length cs. det_of l (cs @ ls) i (nc_entries nb' (unat n + 1 + i))"
    "rs \<noteq> [] \<longrightarrow> (let d = nc_entries nb' (unat n + 1 + length cs) in
       chain_from l (det_offset d) ls \<and> det_idx d = entry_idx (log_entries r) (hd rs) \<and>
       det_term d = entry_term (log_entries r) (hd rs))"
    using Cons.IH [of "next_off r o1" "n + 1" "nb\<lparr>nc_entries := (nc_entries nb)(unat n := ?d)\<rparr>"]
      nx n1 Cons.prems(3,4) by fastforce
  have "det_of l ((p # cs) @ ls) i (nc_entries nb' (unat n + i))" if "i < length (p # cs)" for i
    using that nb'(3,4) d by (cases i) (auto simp: det_of_def)
  then show ?case
    using nb' nc_buf_loop_some [OF o1(1)] lt by simp
qed

lemma find_remote_end_correct:
  assumes live: "log_live l" "log_live r" and len: "log_len l = log_len r" and ls: "ls \<noteq> []"
    and ch: "chain_from l (log_commit r) (cs @ ls)" "chain_from r (log_commit r) (cs @ rs)"
    and same: "\<forall>p\<in>set cs. same_entry l r p"
    and sz: "cs @ rs \<noteq> []" "length (cs @ rs) \<le> MAX_NC_ENTRIES"
    and differ: "rs \<noteq> [] \<Longrightarrow> entry_idx (log_entries r) (hd rs) \<noteq> entry_idx (log_entries l) (hd ls) \<or>
       entry_term (log_entries r) (hd rs) \<noteq> entry_term (log_entries l) (hd ls)"
  shows "\<exists>nb v. log_entries_to_nc_buf r nb0 = Some (Inr nb) \<and>
     log_find_remote_end_offset l nb = Inr v \<and> chain_from l v ls"
proof -
  obtain nb where nb: "log_entries_to_nc_buf r nb0 = Some (Inr nb)"
    "unat (nc_len nb) = length (cs @ rs)"
    "\<forall>i<length cs. det_of l (cs @ ls) i (nc_entries nb i)"
    "rs \<noteq> [] \<longrightarrow> (let d = nc_entries nb (length cs) in
       chain_from l (det_offset d) ls \<and> det_idx d = entry_idx (log_entries r) (hd rs) \<and>
       det_term d = entry_term (log_entries r) (hd rs))"
    using nc_buf_two_logs [OF live len ls ch same, of 0 nb0] sz(2)
    by (auto simp: log_entries_to_nc_buf_def)
  have "parts_at l (cs @ ls) (length cs) (nc_entries nb (length cs))" if "rs \<noteq> []"
    using nb(4) that differ ls by (auto simp: parts_at_def Let_def nth_append hd_conv_nth)
  then have "\<exists>v. log_find_remote_end_loop l nb 0 (length (cs @ rs)) None = Inr v \<and>
     chain_from l v (drop (0 + length cs) (cs @ ls))"
    using sz nb(3) by (intro find_remote_loop_correct [OF live(1)]) auto
  then show ?thesis using nb(1,2) by (auto simp: log_find_remote_end_offset_def)
qed

end
