(* ===== verification/Dare_Log_Props.thy ===== *)
theory Dare_Log_Props
  imports Dare_Log_Adjust
begin

text \<open>
  What the log guarantees its users: the properties of \<^verbatim>\<open>include/dare/dare_log.h\<close>, each
  with an instance on a concrete log.
\<close>

section \<open>Appending\<close>

text \<open>C1: \<^verbatim>\<open>log_append_entry\<close> on a well-formed log with room for the entry returns the index
  after the last one, adds exactly the given entry (term, request, client, type, data,
  no replies) behind the entries there were, whether it fits, starts over at offset 0
  or leaves its header behind, and keeps the log well formed.\<close>

theorem log_append_entry_appends:
  assumes "log_inv log os oa oc" and "data_wf typ data" and "log_room log (need typ data)"
  shows "\<exists>log'. log_append_entry log ph trm req_id clt_id typ data =
      Some (last_idx log os + 1, log', (if typ \<noteq> HEAD then False else ph)) \<and>
    appends log os oa oc (last_idx log os + 1) trm req_id clt_id typ data log'"
  by (rule append_correct [OF assms])

lemma log_append_entry_appends_witness:
  "\<exists>log'. log_append_entry (the (log_new True)) True 3 7 9 CSM (cmd_bytes [10, 20, 30]) =
      Some (1, log', False) \<and>
    appends (the (log_new True)) [] [] [] 1 3 7 9 CSM (cmd_bytes [10, 20, 30]) log'"
proof -
  let ?log = "the (log_new True)" and ?d = "cmd_bytes [10, 20, 30]"
  have "log_inv ?log [] [] []" by (rule log_inv_new) (simp add: log_new_def Let_def)
  moreover have len: "cmd_len_of ?d = 3" by (simp add: cmd_len_of_def cmd_bytes_def)
  then have "data_wf CSM ?d" by (simp add: data_wf_def entry_types) (simp add: cmd_bytes_def)
  moreover have "unat (log_len ?log) = 67108864" by (simp add: log_new_def LOG_SIZE_def Let_def)
  then have "log_room ?log (need CSM ?d)"
    using len by (simp add: log_room_def need_def entry_types log_new_def Let_def is_log_empty_def)
  ultimately show ?thesis
    using log_append_entry_appends [of ?log "[]" "[]" "[]" CSM ?d True 3 7 9]
    by (simp add: last_idx_def entry_types)
qed

text \<open>A small log used by the instances below: 1024 bytes, two entries of 64 bytes at 0 and 64.\<close>

definition demo_mem :: "u8 \<Rightarrow> mem" where
  "demo_mem t = (\<lambda>x. if x = 0 then 1 else if x = 64 then 2 else if x = 72 then t else 0)"

definition demo_log :: "u8 \<Rightarrow> u64 \<Rightarrow> dare_log" where
  "demo_log t e = \<lparr>log_head = 0, log_apply = 0, log_commit = 64, log_end = e, log_tail = 1024,
     log_old_end = 0, log_old_commit = 0, log_len = 1024,
     log_nc_buf = (\<lambda>_. \<lparr>nc_len = 0, nc_entries = (\<lambda>_. \<lparr>det_idx = 0, det_term = 0, det_offset = 0\<rparr>)\<rparr>),
     log_entries = demo_mem t\<rparr>"

lemma demo_elen [simp]: "elen (demo_mem t) 0 = 64" "elen (demo_mem t) 64 = 64"
  by (simp_all add: elen_eq entry_type_def rd_defs layout_simps demo_mem_def entry_types)

lemma demo_idx [simp]:
  "entry_idx (demo_mem t) 0 = 1" "entry_idx (demo_mem t) 64 = 2"
  "entry_term (demo_mem t) 0 = 0" "entry_term (demo_mem t) 64 = ucast t"
  by (simp_all add: entry_idx_def entry_term_def rd_defs layout_simps demo_mem_def load_def
      upt_conv_Cons)

lemma demo_inv: "log_inv_live (demo_log t 128) [0, 64] [0, 64] [64]"
  by (simp add: log_inv_live_def demo_log_def log_live_def chain_from_def between_def tail_ok_def
      consecutive_def idxs_def suffix_def)



text \<open>C24: an entry that ends exactly at the end of the buffer makes the log look empty:
  the append returns its index, and then no offset yields an entry any more.\<close>

theorem log_append_entry_exact_fill:
  assumes inv: "log_inv_live log os oa oc" and "data_wf typ data"
    and "unat (log_head log) \<le> En log" "En log + need typ data = Ln log"
  shows "\<exists>log'. log_append_entry log ph trm req_id clt_id typ data =
      Some (last_idx log os + 1, log', (if typ \<noteq> HEAD then False else ph)) \<and>
     is_log_empty log' \<and> (\<forall>offset. fst (log_get_entry log' offset) = None)"
proof -
  let ?i = "entry_idx (log_entries log) (last os) + 1"
  obtain tail where t: "(if log_tail log = log_len log then log_get_tail log else Some (log_tail log)) = Some tail"
    "?i = next_idx (log\<lparr>log_tail := tail\<rparr>)"
    by (rule live_tail [OF inv])
  have L: "Ln log < 2 ^ 62" and ne: "os \<noteq> []"
    using inv by (simp_all add: log_inv_live_def log_live_def)
  have hd: "log_fit_entry_header log (log_end log)"
    using assms(4) need_bounds(1) [of "typ" data] by (subst fit_header_iff) simp_all
  have "unat (log_end log + of_nat (need typ data)) = Ln log"
    using assms(4) L unat_need by (simp add: unat_word_ariths)
  then have "log_end log + of_nat (need typ data) = log_len log" by (simp add: word_unat_eq_iff)
  then show ?thesis
    using append_fit [OF assms(2) t(1) live_not_full [OF inv] refl _ L t(2)] hd assms(4) ne
    by (simp add: last_idx_def is_log_empty_def log_get_entry_def)
qed

lemma log_append_entry_exact_fill_witness:
  "\<exists>log'. log_append_entry (demo_log 5 128) True 1 2 3 CSM (le16 832 @ replicate 832 0) =
      Some (3, log', False) \<and>
     is_log_empty log' \<and> (\<forall>offset. fst (log_get_entry log' offset) = None)"
proof -
  have c: "cmd_len_of (le16 832 @ xs) = 832" for xs by (simp add: cmd_len_of_def)
  have "data_wf CSM (le16 832 @ replicate 832 0)"
    unfolding data_wf_def c by (simp add: entry_types)
  then show ?thesis
    using log_append_entry_exact_fill [OF demo_inv, of CSM "le16 832 @ replicate 832 0" 5 True 1 2 3]
    by (simp add: entry_types need_def c last_idx_def) (simp add: demo_log_def)
qed

section \<open>NC-buffers and log adjustment\<close>

text \<open>C17: \<^verbatim>\<open>log_entries_to_nc_buf\<close> terminates on a well-formed log and stores, in order, the index
  and term of exactly the not committed entries, with offsets the log can be walked
  from; only more than \<open>MAX_NC_ENTRIES\<close> of them run over the buffer.\<close>

theorem log_entries_to_nc_buf_correct:
  assumes "log_inv_live log os oa oc"
  shows "if length oc \<le> MAX_NC_ENTRIES
     then \<exists>nb. log_entries_to_nc_buf log nb0 = Some (Inr nb) \<and> unat (nc_len nb) = length oc \<and>
            (\<forall>i<length oc. det_of log oc i (nc_entries nb i))
     else log_entries_to_nc_buf log nb0 = Some (Inl Out_of_bounds)"
  using nc_buf_loop_correct [of log "log_commit log" oc 0 nb0]
    nc_buf_loop_overflow [of log "log_commit log" oc 0 nb0] assms
  by (auto simp: log_inv_live_def log_entries_to_nc_buf_def)

lemma log_entries_to_nc_buf_correct_witness:
  "\<exists>nb. log_entries_to_nc_buf (demo_log 5 128) (log_nc_buf (demo_log 5 128) 0) = Some (Inr nb) \<and>
     unat (nc_len nb) = 1 \<and> det_idx (nc_entries nb 0) = 2 \<and> det_term (nc_entries nb 0) = 5"
  using log_entries_to_nc_buf_correct [OF demo_inv, of 5 "log_nc_buf (demo_log 5 128) 0"]
  by (auto simp: MAX_NC_ENTRIES_def det_of_def demo_log_def)



section \<open>The tail and the order of offsets\<close>

text \<open>\<^verbatim>\<open>log_get_tail\<close> terminates on a well-formed log, cached or not, and the header found at
  the offset it returns is the last entry's.\<close>

theorem log_get_tail_last:
  assumes "log_inv_live log os oa oc"
  shows "\<exists>t. log_get_tail log = Some t \<and> unat t + 64 \<le> Ln log \<and> unat t \<noteq> En log \<and>
     entry_idx (log_entries log) (unat t) = entry_idx (log_entries log) (last os)"
  by (rule get_tail_correct [OF assms])

lemma log_get_tail_last_witness:
  "\<exists>t. log_get_tail (demo_log 5 128) = Some t \<and> unat t + 64 \<le> 1024 \<and> unat t \<noteq> 128 \<and>
     entry_idx (demo_mem 5) (unat t) = 2"
  using log_get_tail_last [OF demo_inv, of 5] by (simp add: demo_log_def)

text \<open>On a log that holds entries, \<^verbatim>\<open>log_is_offset_larger\<close> is a strict total order on the
  offsets inside the buffer, and no offset is larger than the end.\<close>

theorem log_is_offset_larger_order:
  assumes "log_live log" "unat a < Ln log" "unat b < Ln log" "unat c < Ln log"
  shows "\<not> log_is_offset_larger log a a \<and>
     (log_is_offset_larger log a b \<longrightarrow> log_is_offset_larger log b c \<longrightarrow> log_is_offset_larger log a c) \<and>
     (a \<noteq> b \<longrightarrow> log_is_offset_larger log a b \<or> log_is_offset_larger log b a) \<and>
     \<not> log_is_offset_larger log a (log_end log)"
proof -
  have "end_dist log a = end_dist log b \<Longrightarrow> a = b"
    using assms by (auto simp: end_dist_def word_unat_eq_iff log_live_def split: if_splits)
  then have inj: "a \<noteq> b \<Longrightarrow> end_dist log a < end_dist log b \<or> end_dist log b < end_dist log a"
    by (metis nat_neq_iff)
  have "end_dist log (log_end log) = 0" by (simp add: end_dist_def)
  then show ?thesis
    using inj assms by (auto simp: offset_larger_dist log_live_def)
qed

lemma log_is_offset_larger_order_witness:
  "\<not> log_is_offset_larger (demo_log 5 128) 900 900 \<and> \<not> log_is_offset_larger (demo_log 5 128) 900 128"
  using log_is_offset_larger_order [of "demo_log 5 128" 900 900 900]
  by (simp add: demo_log_def log_live_def)

end
