(* ===== verification/Dare_Repl_Props.thy ===== *)
theory Dare_Repl_Props
  imports Dare_Repl Dare_Rc_Props Dare_Log_Props
begin

text \<open>
  Properties of replication: the commit rule, the bytes a log update transfers, and the
  order in which a majority's offsets are sorted.
\<close>

section \<open>The commit rule\<close>

definition acked :: "dare_log \<Rightarrow> nat \<Rightarrow> nat \<Rightarrow> nat \<Rightarrow> bool" where
  "acked l sz self p \<longleftrightarrow> sz div 2 + 1 \<le> count_replies (log_entries l) p sz self"

lemma commit_scan_entry:
  assumes "log_get_entry l offset = (Some q, o1)" "log_offset_end_distance l offset \<noteq> 0"
  shows "commit_scan l sz self offset =
    (if \<not> log_fit_entry l o1 q then commit_scan l sz self 0
     else if \<not> acked l sz self q then Some o1
     else commit_scan l sz self (o1 + ucast (log_entry_len (log_entries l) q)))"
  using assms by (subst commit_scan.simps) (simp add: acked_def not_le)

lemma commit_scan_end:
  "log_offset_end_distance l offset = 0 \<Longrightarrow> commit_scan l sz self offset = Some offset"
  by (subst commit_scan.simps) simp

text \<open>Where the scan stops, and that the offset it returns is closer to the end than its start.\<close>

definition scan_result :: "dare_log \<Rightarrow> nat \<Rightarrow> nat \<Rightarrow> nat list \<Rightarrow> u64 \<Rightarrow> u64 \<Rightarrow> bool" where
  "scan_result l sz self os offset v \<longleftrightarrow>
     chain_from l v (dropWhile (acked l sz self) os) \<and>
     (if takeWhile (acked l sz self) os = [] then end_dist l v \<le> end_dist l offset
      else end_dist l v < end_dist l offset)"

lemma scan_result_mono:
  "scan_result l sz self os offset v \<Longrightarrow> end_dist l offset \<le> end_dist l offset'
    \<Longrightarrow> scan_result l sz self os offset' v"
  by (auto simp: scan_result_def split: if_splits)

lemma commit_scan_at_entry:
  assumes live: "log_live l" and ch: "chain_from l offset (p # os)"
    and ge: "log_get_entry l offset = (Some p, o1)" and o1: "unat o1 = p" and fit: "log_fit_entry l o1 p"
    and IH: "\<exists>v. commit_scan l sz self (next_off l o1) = Some v \<and> scan_result l sz self os (next_off l o1) v"
  shows "\<exists>v. commit_scan l sz self offset = Some v \<and> scan_result l sz self (p # os) offset v"
proof -
  note d = walk_dist [OF live ch ge]
  have nx: "o1 + ucast (log_entry_len (log_entries l) p) = next_off l o1"
    using o1 fit by (simp add: next_off_def)
  note st = commit_scan_entry [OF ge distance_nonzero [OF live ch], of sz self]
  show ?thesis
  proof (cases "acked l sz self p")
    case True
    obtain v where v: "commit_scan l sz self (next_off l o1) = Some v"
      "scan_result l sz self os (next_off l o1) v" using IH by blast
    have "commit_scan l sz self offset = Some v" using st fit True nx v(1) by simp
    moreover have "scan_result l sz self (p # os) offset v"
      using v(2) d(1) True by (auto simp: scan_result_def split: if_splits)
    ultimately show ?thesis by blast
  next
    case False
    then have "commit_scan l sz self offset = Some o1" using st fit by simp
    then show ?thesis using False d(2,3) by (simp add: scan_result_def)
  qed
qed

lemma commit_scan_correct:
  assumes live: "log_live l"
  shows "chain_from l offset os \<Longrightarrow>
    \<exists>v. commit_scan l sz self offset = Some v \<and> scan_result l sz self os offset v"
proof (induction os arbitrary: offset)
  case Nil
  then show ?case
    using commit_scan_end [OF distance_zero [OF live Nil]] by (simp add: scan_result_def)
next
  case (Cons p os)
  show ?case
  proof (cases rule: walk_step [OF live Cons.prems])
    case (1 o1)
    show ?thesis by (rule commit_scan_at_entry [OF live Cons.prems 1(1-3) Cons.IH [OF 1(4)]])
  next
    case (2 q o1)
    note ov = walk_over [OF live Cons.prems 2(1,2)]
    have ge0: "log_get_entry l 0 = (Some p, 0)" "unat (0 :: u64) = p" "log_fit_entry l 0 p"
      using 2 by simp_all
    obtain v where v: "commit_scan l sz self 0 = Some v" "scan_result l sz self (p # os) 0 v"
      using commit_scan_at_entry [OF live ov(1) ge0 Cons.IH [OF 2(6)]] by blast
    have "commit_scan l sz self offset = commit_scan l sz self 0"
      using commit_scan_entry [OF 2(1) distance_nonzero [OF live Cons.prems]] 2(2) by simp
    then show ?thesis using v scan_result_mono ov(2) by (metis less_imp_le)
  qed
qed

lemma advance_commit_correct:
  assumes live: "log_live (slog s)" and ch: "chain_from (slog s) (log_commit (slog s)) os"
  shows "\<exists>s'. advance_commit sz s = Some s' \<and>
    chain_from (slog s') (log_commit (slog s')) (dropWhile (acked (slog s) sz (me s)) os) \<and>
    slog s' = (slog s)\<lparr>log_commit := log_commit (slog s')\<rparr> \<and>
    (takeWhile (acked (slog s) sz (me s)) os \<noteq> [] \<longrightarrow> committed_flag s')"
proof -
  let ?l = "slog s" and ?c = "log_commit (slog s)"
  obtain v where v: "commit_scan ?l sz (me s) ?c = Some v" "scan_result ?l sz (me s) os ?c v"
    using commit_scan_correct [OF live ch] by blast
  have cv: "chain_from ?l v (dropWhile (acked ?l sz (me s)) os)" using v(2) by (simp add: scan_result_def)
  have b: "unat v \<le> Ln ?l" "unat ?c \<le> Ln ?l" using cv ch by (simp_all add: chain_from_def)
  have frame: "chain_from (?l\<lparr>log_commit := x\<rparr>) = chain_from ?l" for x
    by (intro ext) (simp add: chain_from_def)
  show ?thesis
  proof (cases "log_is_offset_larger ?l v ?c")
    case True
    then show ?thesis using v(1) cv frame by (auto simp: advance_commit_def)
  next
    case False
    then have "\<not> end_dist ?l v < end_dist ?l ?c" using offset_larger_dist [OF live b] by simp
    then have none: "takeWhile (acked ?l sz (me s)) os = []"
      using v(2) by (auto simp: scan_result_def split: if_splits)
    then have "dropWhile (acked ?l sz (me s)) os = os"
      by (metis append_Nil takeWhile_dropWhile_id)
    then show ?thesis using v(1) False none ch by (auto simp: advance_commit_def)
  qed
qed

text \<open>C3: the commit rule of \<^verbatim>\<open>update_remote_logs\<close>: the scan over the entries behind the commit
  offset ends; every entry it commits has been stored by a majority of the group (the
  leader and the servers whose reply byte is set), the first entry left uncommitted has
  not, and nothing but the commit offset of the log changes.\<close>

theorem update_remote_logs_commit_rule:
  assumes "log_live (slog s)" and "chain_from (slog s) (log_commit (slog s)) os"
  shows "\<exists>s' com rest. advance_commit sz s = Some s' \<and> os = com @ rest \<and>
    (\<forall>p\<in>set com. sz div 2 + 1 \<le> count_replies (log_entries (slog s)) p sz (me s)) \<and>
    (rest \<noteq> [] \<longrightarrow> count_replies (log_entries (slog s)) (hd rest) sz (me s) < sz div 2 + 1) \<and>
    chain_from (slog s') (log_commit (slog s')) rest \<and>
    slog s' = (slog s)\<lparr>log_commit := log_commit (slog s')\<rparr> \<and> (com \<noteq> [] \<longrightarrow> committed_flag s')"
proof -
  let ?P = "acked (slog s) sz (me s)"
  obtain s' where s': "advance_commit sz s = Some s'"
    "chain_from (slog s') (log_commit (slog s')) (dropWhile ?P os)"
    "slog s' = (slog s)\<lparr>log_commit := log_commit (slog s')\<rparr>"
    "takeWhile ?P os \<noteq> [] \<longrightarrow> committed_flag s'"
    using advance_commit_correct [OF assms, of sz] by blast
  moreover have "\<forall>p\<in>set (takeWhile ?P os). sz div 2 + 1 \<le> count_replies (log_entries (slog s)) p sz (me s)"
    using set_takeWhileD [of _ ?P os] by (auto simp: acked_def)
  moreover have "dropWhile ?P os \<noteq> [] \<longrightarrow>
      count_replies (log_entries (slog s)) (hd (dropWhile ?P os)) sz (me s) < sz div 2 + 1"
    using hd_dropWhile [of ?P os] by (auto simp only: acked_def not_le)
  ultimately show ?thesis by (metis takeWhile_dropWhile_id)
qed

text \<open>A log of three entries of which server 1 has acknowledged the first two.\<close>

definition commit_mem :: mem where
  "commit_mem = (\<lambda>x. if x = 28 + 1 \<or> x = 64 + 28 + 1 then 1 else 0)"

definition commit_log :: dare_log where
  "commit_log = (demo_log 0 192)\<lparr>log_commit := 0, log_entries := commit_mem\<rparr>"

lemma update_remote_logs_commit_rule_witness:
  "\<exists>s' com rest. advance_commit 3 (demo_srv commit_log ()) = Some s' \<and> [0, 64, 128] = com @ rest \<and>
    (\<forall>p\<in>set com. 3 div 2 + 1 \<le> count_replies commit_mem p 3 0) \<and>
    (rest \<noteq> [] \<longrightarrow> count_replies commit_mem (hd rest) 3 0 < 3 div 2 + 1) \<and>
    chain_from (slog s') (log_commit (slog s')) rest"
proof -
  let ?s = "demo_srv commit_log () :: unit srv"
  have sl: "slog ?s = commit_log" "log_entries commit_log = commit_mem" "me ?s = 0"
    by (simp_all add: demo_srv_def demo_config_def commit_log_def)
  have el: "elen commit_mem 0 = 64" "elen commit_mem 64 = 64" "elen commit_mem 128 = 64"
    by (simp_all add: elen_eq entry_type_def rd_defs layout_simps commit_mem_def entry_types)
  have "log_live (slog ?s)" "chain_from (slog ?s) (log_commit (slog ?s)) [0, 64, 128]"
    using el by (simp_all add: sl chain_from_def log_live_def) (simp_all add: commit_log_def demo_log_def)
  from update_remote_logs_commit_rule [OF this, of 3, unfolded sl] show ?thesis by blast
qed

section \<open>The bytes of a log update\<close>

text \<open>The bytes of the entries a request transfers; local and remote offsets are the same.\<close>

definition part_bytes :: "post_req \<Rightarrow> nat set" where
  "part_bytes r = {snd (pq_buf r) - off_entries ..< snd (pq_buf r) - off_entries + unat (pq_len r)}"

definition mirrored :: "nat \<Rightarrow> 'e srv \<Rightarrow> post_req \<Rightarrow> bool" where
  "mirrored i s r \<longleftrightarrow> fst (pq_buf r) = R_log \<and> pq_opc r = RDMA_WRITE \<and>
     raddr (pq_rm r) = raddr (rmt_mr (ep_at s i) LOG_QP) + of_nat (snd (pq_buf r))"

lemma part_bytes_log:
  assumes "unat from + unat len < 2 ^ 31"
  shows "part_bytes (log_part i from len s) = {unat from ..< unat from + unat len}"
    and "mirrored i s (log_part i from len s)"
proof -
  have "unat (ucast len :: u32) = unat len"
    using assms by (simp add: unsigned_ucast_eq take_bit_nat_eq_self)
  then show "part_bytes (log_part i from len s) = {unat from ..< unat from + unat len}"
    by (simp add: part_bytes_def log_part_def)
  have "unat (of_nat off_entries + from) = off_entries + unat from"
    using assms by (simp add: unat_word_ariths off_entries_def)
  moreover have "off_entries + unat from < 2 ^ 32" using assms by (simp add: off_entries_def)
  ultimately have "unat (ucast (of_nat off_entries + from :: u64) :: u32) = off_entries + unat from"
    by (simp add: unsigned_ucast_eq take_bit_nat_eq_self)
  then have "ucast (ucast (of_nat off_entries + from :: u64) :: u32) = (of_nat (off_entries + unat from) :: u64)"
    by (metis of_nat_unat)
  then show "mirrored i s (log_part i from len s)"
    by (simp add: mirrored_def log_part_def rmt_def)
qed

text \<open>C19: the RDMA writes of a log update to a server carry exactly the bytes between the
  server's end offset and the leader's, in one part or around the end of the buffer in
  two, each to the offset in the remote log it has in the local one, and the end that
  is written afterwards is the leader's.\<close>

theorem update_log_req_covers:
  assumes "log_live (slog s)" "Ln (slog s) < 2 ^ 31"
    and "unat (lo_end (rmt_offsets s i)) \<le> Ln (slog s)" "lo_end (rmt_offsets s i) \<noteq> log_end (slog s)"
    and r: "update_log_req i s = (r1, r2, s')"
  shows "part_bytes r1 \<union> (case r2 of None \<Rightarrow> {} | Some r \<Rightarrow> part_bytes r)
      = cover (Ln (slog s)) (unat (lo_end (rmt_offsets s i))) (En (slog s)) \<and>
    mirrored i s r1 \<and> (\<forall>r. r2 = Some r \<longrightarrow> mirrored i s r) \<and>
    cached_end_offset (srv_at s' i) = log_end (slog s) \<and> ctrl s' = ctrl s \<and> slog s' = slog s"
proof -
  let ?a = "lo_end (rmt_offsets s i)" and ?e = "log_end (slog s)" and ?L = "log_len (slog s)"
  let ?s1 = "upd_server i (\<lambda>v. v\<lparr>cached_end_offset := ?e\<rparr>) s"
  have e: "0 < En (slog s)" "En (slog s) < Ln (slog s)" using assms(1) by (simp_all add: log_live_def)
  have mir: "mirrored i s (log_part i f n ?s1)" if "unat f + unat n < 2 ^ 31" for f n
    using part_bytes_log(2) [OF that, of i ?s1] by (simp add: mirrored_def)
  show ?thesis
  proof (cases "?a < ?e")
    case True
    then have d: "unat (?e - ?a) = En (slog s) - unat ?a" "unat ?a < En (slog s)"
      by (simp_all add: unat_sub word_less_nat_alt word_le_nat_alt)
    have lt: "unat ?a + unat (?e - ?a) < 2 ^ 31" using d e assms(2) by simp
    show ?thesis
      using r True part_bytes_log(1) [OF lt] mir [OF lt] d by (auto simp: update_log_req_def Let_def)
  next
    case False
    then have d: "unat (?L - ?a) = Ln (slog s) - unat ?a" "En (slog s) < unat ?a"
      using assms(3,4) by (auto simp: unat_sub word_less_nat_alt word_le_nat_alt word_unat_eq_iff)
    have lt: "unat ?a + unat (?L - ?a) < 2 ^ 31" "unat (0 :: u64) + unat ?e < 2 ^ 31"
      using d e assms(2,3) by simp_all
    have "unat (ucast ?e :: u32) = En (slog s)"
      using lt(2) by (simp add: unsigned_ucast_eq take_bit_nat_eq_self)
    then have pos: "(ucast ?e :: u32) > 0" using e by (simp add: word_less_nat_alt)
    show ?thesis
      using r False pos part_bytes_log(1) [OF lt(1), of i ?s1] part_bytes_log(1) [OF lt(2), of i ?s1] mir [OF lt(1)] mir [OF lt(2)] d assms(3)
      by (auto simp: update_log_req_def Let_def cover_def)
  qed
qed

lemma update_log_req_covers_witness:
  "case update_log_req 1 (demo_srv commit_log ()) of (r1, r2, s') \<Rightarrow>
     part_bytes r1 = {0..<192} \<and> r2 = None \<and> cached_end_offset (srv_at s' 1) = 192"
proof -
  let ?s = "demo_srv commit_log () :: unit srv"
  obtain r1 r2 s' where r: "update_log_req 1 ?s = (r1, r2, s')" by (cases "update_log_req 1 ?s")
  have sl: "slog ?s = commit_log" "lo_end (rmt_offsets ?s 1) = 0"
    "log_end commit_log = 192" "log_len commit_log = 1024"
    by (simp_all add: demo_srv_def demo_ctrl_def commit_log_def demo_log_def)
  have "r2 = None" using r sl by (simp add: update_log_req_def Let_def)
  moreover have "log_live (slog ?s)" by (simp add: sl log_live_def)
  ultimately show ?thesis using update_log_req_covers [OF _ _ _ _ r] sl unfolding r by (simp add: cover_def)
qed

end
