(* ===== verification/Dare_Election.thy ===== *)
theory Dare_Election
  imports Dare_Repl
begin

text \<open>
  Leader election and heartbeats, from \<^verbatim>\<open>dare_server.c\<close>: the state identifier, starting an
  election, answering vote requests, the transition to a follower and the callbacks
  of the heartbeat timers.  \<^verbatim>\<open>error_exit\<close> and \<^verbatim>\<open>dare_server_shutdown\<close> end the process: the
  result is \<open>None\<close>.  Durations are rational numbers of seconds.
\<close>

section \<open>Timers\<close>

definition set_hb :: "rat \<Rightarrow> 'e srv \<Rightarrow> 'e srv" where
  "set_hb r s = s\<lparr>hb_event := ev_timer_again ((hb_event s)\<lparr>tm_repeat := r\<rparr>)\<rparr>"

definition set_hb_cb :: "timer_cb \<Rightarrow> rat \<Rightarrow> 'e srv \<Rightarrow> 'e srv" where
  "set_hb_cb cb r s = s\<lparr>hb_event := ev_timer_again ((hb_event s)\<lparr>tm_cb := cb, tm_repeat := r\<rparr>)\<rparr>"

definition set_prune :: "rat \<Rightarrow> 'e srv \<Rightarrow> 'e srv" where
  "set_prune r s = s\<lparr>prune_event := ev_timer_again ((prune_event s)\<lparr>tm_repeat := r\<rparr>)\<rparr>"

definition set_to_adjust :: "rat \<Rightarrow> 'e srv \<Rightarrow> 'e srv" where
  "set_to_adjust r s = s\<lparr>to_adjust_event := ev_timer_again ((to_adjust_event s)\<lparr>tm_repeat := r\<rparr>)\<rparr>"

text \<open>
  A pseudo-random number of microseconds between the two bounds; with equal bounds
  the remainder is undefined.
\<close>

definition random_election_timeout :: "'e ibv \<Rightarrow> 'e srv \<Rightarrow> (rat \<times> 'e srv) option" where
  "random_election_timeout ib s =
     (if elec_timeout_high s = elec_timeout_low s then None
      else let (r, e) = lrand48 ib (env s);
               timeout = r mod (elec_timeout_high s - elec_timeout_low s) + elec_timeout_low s
           in Some (of_nat (unat timeout) / 1000000, s\<lparr>env := e\<rparr>))"

definition hb_timeout :: "'e srv \<Rightarrow> rat" where
  "hb_timeout s = (if hb_timeout_flag s then recomputed_hb_timeout s else 10 * hb_period s)"

section \<open>The state identifier\<close>

text \<open>A compare-and-swap; a mismatch ends the process.\<close>

definition server_update_sid :: "u64 \<Rightarrow> u64 \<Rightarrow> 'e srv \<Rightarrow> 'e srv option" where
  "server_update_sid new_sid old_sid s =
     (if c_sid (ctrl s) = old_sid then Some (upd_ctrl (\<lambda>c. c\<lparr>c_sid := new_sid\<rparr>) s) else None)"

definition is_leader :: "'e srv \<Rightarrow> bool" where
  "is_leader s = IS_LEADER s"

definition get_node_id :: "'e srv \<Rightarrow> u8" where
  "get_node_id s = my_idx (config s)"

section \<open>Starting an election\<close>

definition candidate_sid :: "'e srv \<Rightarrow> u64" where
  "candidate_sid s =
     SID_SET_IDX (SID_UNSET_L (SID_SET_TERM 0 (SID_GET_TERM (c_sid (ctrl s)) + 1))) (my_idx (config s))"

text \<open>The votes of an earlier election are cleared, the replication of all logs starts over.\<close>

definition clear_votes :: "nat \<Rightarrow> 'e srv \<Rightarrow> 'e srv" where
  "clear_votes n s =
     upd_config (\<lambda>c. c\<lparr>servers := (\<lambda>i. if i < n then (servers c i)\<lparr>next_lr_step := LR_GET_WRITE, send_flag := True\<rparr>
                                       else servers c i)\<rparr>)
       (upd_ctrl (\<lambda>c. c\<lparr>c_vote_ack := (\<lambda>i. if i < n then log_len (slog s) else c_vote_ack c i)\<rparr>) s)"

definition start_election :: "'e ibv \<Rightarrow> 'e srv \<Rightarrow> 'e srv option" where
  "start_election ib s = do {
     s1 \<leftarrow> server_update_sid (candidate_sid s) (c_sid (ctrl s)) s;
     let (rc, s2) = rc_revoke_log_access ib s1;
     if rc \<noteq> 0 then None
     else do {
       let s3 = clear_votes (group_n s2) s2;
       (to, s4) \<leftarrow> random_election_timeout ib s3;
       (rc, s5) \<leftarrow> rc_send_vote_request ib (set_hb_cb Cb_hb_receive to s4);
       if rc \<noteq> 0 then None else Some s5
     }
   }"

section \<open>Becoming a follower\<close>

definition stop_leading :: "'e srv \<Rightarrow> 'e srv" where
  "stop_leading s =
     (let s1 = (set_prune 0 s)\<lparr>leader_failed := False\<rparr>
      in if \<not> hb_timeout_flag s1 then set_to_adjust (recomputed_hb_timeout s1) s1 else s1)"

text \<open>The not committed entries are copied to the server's own NC-buffer.\<close>

definition fill_nc_buf :: "'e srv \<Rightarrow> 'e srv option" where
  "fill_nc_buf s =
     (case log_entries_to_nc_buf (slog s) (log_nc_buf (slog s) (me s)) of
        Some (Inr nb) \<Rightarrow> Some (upd_log (\<lambda>l. l\<lparr>log_nc_buf := (log_nc_buf l)(me s := nb)\<rparr>) s)
      | _ \<Rightarrow> None)"

definition server_to_follower :: "'e ibv \<Rightarrow> 'e srv \<Rightarrow> 'e srv option" where
  "server_to_follower ib s = do {
     let s1 = stop_leading (set_hb 0 s);
     let s2 = snd (rc_revoke_log_access ib s1);
     s3 \<leftarrow> fill_nc_buf s2;
     let s4 = snd (rc_restore_log_access ib s3);
     (rc, s5) \<leftarrow> (if has_L (c_sid (ctrl s4)) then rc_send_vote_ack ib s4 else Some (0, s4));
     if rc < 0 then start_election ib s5
     else if rc \<noteq> 0 then None
     else Some (set_hb_cb Cb_hb_receive (hb_timeout s5) s5)
   }"

section \<open>Verifying the leadership\<close>

text \<open>A better leader among the SIDs that were read.\<close>

definition better_leader :: "sends \<Rightarrow> 'e srv \<Rightarrow> nat \<Rightarrow> u64 \<Rightarrow> u64" where
  "better_leader posted s i new_sid =
     (if i = me s \<or> posted i \<noteq> 0 then new_sid
      else let sid = c_rsid (ctrl s) i in if sid > new_sid \<and> has_L sid then sid else new_sid)"

text \<open>The result is the return code and the output parameter \<^verbatim>\<open>leader\<close>, given its old value.\<close>

definition rc_verify_leadership :: "'e ibv \<Rightarrow> bool \<Rightarrow> 'e srv \<Rightarrow> (int \<times> bool \<times> 'e srv) option" where
  "rc_verify_leadership ib leader s = do {
     (rc, posted, s1) \<leftarrow> post_each ib True 0 (\<lambda>i. ctrl_read (off_rsid i) 8 off_sid i) 0 (group_n s) no_sends (inc_ssn s);
     if rc \<noteq> 0 then Some (1, leader, s1)
     else do {
       (rc, posted', s2) \<leftarrow> wait_for_majority ib posted CTRL_QP s1;
       if rc = RC_ERROR then Some (1, leader, s2)
       else
         let new_sid = fold (better_leader posted' s2) [0..<group_n s] (c_sid (ctrl s2))
         in if new_sid \<noteq> c_sid (ctrl s2)
            then do {
              s3 \<leftarrow> server_update_sid new_sid (c_sid (ctrl s2)) s2;
              s4 \<leftarrow> server_to_follower ib s3;
              Some (0, False, s4)
            }
            else Some (0, True, s2)
     }
   }"

section \<open>Updating the configuration\<close>

fun depart_loop :: "'e ibv \<Rightarrow> dare_cid \<Rightarrow> nat \<Rightarrow> nat \<Rightarrow> 'e srv \<Rightarrow> 'e srv option" where
  "depart_loop ib c i 0 s = Some s"
| "depart_loop ib c i (Suc n) s =
     (if \<not> CID_IS_SERVER_ON c (of_nat i) \<and> CID_IS_SERVER_ON (cid (config s)) (of_nat i)
      then if i = me s then None
           else depart_loop ib c (Suc i) n (snd (rc_disconnect_server ib (of_nat i) s))
      else depart_loop ib c (Suc i) n s)"

definition update_cid :: "'e ibv \<Rightarrow> dare_cid \<Rightarrow> 'e srv \<Rightarrow> (int \<times> 'e srv) option" where
  "update_cid ib c s =
     (if equal_cid (cid (config s)) c then Some (1, s)
      else do {
        s1 \<leftarrow> depart_loop ib c 0 (unat (if size1 c > size0 c then size1 c else size0 c)) s;
        Some (0, upd_config (\<lambda>g. g\<lparr>cid := c\<rparr>) s1)
      })"

section \<open>Vote requests\<close>

definition drop_request :: "nat \<Rightarrow> ctrl_data \<Rightarrow> ctrl_data" where
  "drop_request i c = c\<lparr>c_vote_req := (c_vote_req c)(i := (c_vote_req c i)\<lparr>vr_sid := 0\<rparr>)\<rparr>"

text \<open>The first loop: the best SID among the requests.\<close>

fun scan_requests :: "nat \<Rightarrow> nat \<Rightarrow> nat \<Rightarrow> u64 \<Rightarrow> ctrl_data \<Rightarrow> u64 \<times> ctrl_data" where
  "scan_requests self i 0 best_sid c = (best_sid, c)"
| "scan_requests self i (Suc n) best_sid c =
     (if i = self then scan_requests self (Suc i) n best_sid c
      else if best_sid \<ge> vr_sid (c_vote_req c i)
      then scan_requests self (Suc i) n best_sid (drop_request i c)
      else scan_requests self (Suc i) n (vr_sid (c_vote_req c i)) c)"

text \<open>The second loop: the best request whose log is at least as recent as the best one so far.\<close>

fun choose_request :: "nat \<Rightarrow> nat \<Rightarrow> vote_req \<Rightarrow> u64 \<Rightarrow> ctrl_data \<Rightarrow> vote_req \<times> u64 \<times> ctrl_data" where
  "choose_request i 0 best highest c = (best, highest, c)"
| "choose_request i (Suc n) best highest c =
     (let r = c_vote_req c i in
      if vr_sid best > vr_sid r then choose_request (Suc i) n best highest (drop_request i c)
      else
        let highest' = (if highest < SID_GET_TERM (vr_sid r) then SID_GET_TERM (vr_sid r) else highest)
        in if vr_term best > vr_term r \<or> vr_term best = vr_term r \<and> vr_index best > vr_index r
           then choose_request (Suc i) n best highest' (drop_request i c)
           else choose_request (Suc i) n r highest' (drop_request i c))"

text \<open>
  Index and term of the local log's last entry, from the NC-buffer or the tail.
\<close>

definition local_last :: "'e srv \<Rightarrow> (u64 \<times> u64) option" where
  "local_last s =
     (let l = slog s; nb = log_nc_buf l (me s) in
      if nc_len nb = 0
      then do {
        tail \<leftarrow> log_get_tail l;
        if tail = log_len l then Some (0, 0)
        else do {
          last_entry \<leftarrow> fst (log_get_entry l tail);
          Some (entry_idx (log_entries l) last_entry, entry_term (log_entries l) last_entry)
        }
      }
      else let d = nc_entries nb (unat (nc_len nb - 1)) in Some (det_idx d, det_term d))"

text \<open>After the decision: the vote is replicated, the log opened to the candidate, which is notified.\<close>

definition cast_vote :: "'e ibv \<Rightarrow> vote_req \<Rightarrow> 'e srv \<Rightarrow> 'e srv option" where
  "cast_vote ib best s = do {
     s1 \<leftarrow> server_update_sid (vr_sid best) (c_sid (ctrl s)) (set_hb 0 s);
     (rc, s2) \<leftarrow> update_cid ib (vr_cid best) s1;
     (rc, s3) \<leftarrow> rc_replicate_vote ib s2;
     if rc \<noteq> 0 then None
     else do {
       let (rc, s4) = rc_restore_log_access ib (stop_leading s3);
       if rc \<noteq> 0 then None
       else do {
         (rc, s5) \<leftarrow> rc_send_vote_ack ib s4;
         if rc < 0 then start_election ib s5
         else if rc \<noteq> 0 then None
         else Some (set_hb_cb Cb_hb_receive (hb_timeout s5) s5)
       }
     }
   }"

text \<open>
  With exclusive access to the log, compare it with the candidates.  The request the
  loop starts from has the local index and term; its configuration is not set.
\<close>

definition judge_requests :: "'e ibv \<Rightarrow> u64 \<Rightarrow> u64 \<Rightarrow> 'e srv \<Rightarrow> 'e srv option" where
  "judge_requests ib old_sid best_sid s = do {
     let (rc, s1) = rc_revoke_log_access ib s;
     if rc \<noteq> 0 then None
     else do {
       s2 \<leftarrow> fill_nc_buf s1;
       (ix, tm) \<leftarrow> local_last s2;
       let own = \<lparr>vr_sid = old_sid, vr_index = ix, vr_term = tm, vr_cid = cid (config s2)\<rparr>;
       let (best, highest_term, c) = choose_request 0 (group_n s) own (SID_GET_TERM best_sid) (ctrl s2);
       let s3 = s2\<lparr>ctrl := c\<rparr>;
       if vr_sid best = old_sid
       then server_update_sid (SID_SET_IDX (SID_SET_TERM (c_sid c) highest_term) (my_idx (config s3))) (c_sid c) s3
       else cast_vote ib best s3
     }
   }"

definition poll_vote_requests :: "'e ibv \<Rightarrow> 'e srv \<Rightarrow> 'e srv option" where
  "poll_vote_requests ib s =
     (let sid = c_sid (ctrl s); hb = c_hb (ctrl s) (unat (SID_GET_IDX sid)) in
      if has_L sid then Some s
      else if hb \<noteq> 0 \<and> SID_GET_TERM hb = SID_GET_TERM sid then server_update_sid hb sid s
      else
        let old_sid = SID_SET_L sid;
            (best_sid, c) = scan_requests (me s) 0 (group_n s) old_sid (ctrl s);
            s1 = s\<lparr>ctrl := c\<rparr>
        in if best_sid = old_sid then Some s1 else judge_requests ib old_sid best_sid s1)"

section \<open>Heartbeat callbacks\<close>

definition reset_hb :: "nat \<Rightarrow> 'e srv \<Rightarrow> 'e srv" where
  "reset_hb i = upd_ctrl (\<lambda>c. c\<lparr>c_hb := (c_hb c)(i := 0)\<rparr>)"

definition to_adjust_cb :: "'e srv \<Rightarrow> 'e srv" where
  "to_adjust_cb s =
     (if hb_timeout_flag s then set_to_adjust 0 s
      else
        let leader = unat (SID_GET_IDX (c_sid (ctrl s)));
            s1 = s\<lparr>hb_total_count := hb_total_count s + 1\<rparr>;
            hb = c_hb (ctrl s1) leader;
            s2 = reset_hb leader s1;
            s3 = (if hb \<noteq> 0
                  then let t = s2\<lparr>latest_hb_received := hb\<rparr>
                       in if leader_failed t
                          then t\<lparr>hb_fp_count := hb_fp_count t + 1, leader_failed := False,
                                 recomputed_hb_timeout := recomputed_hb_timeout t + hb_period t\<rparr>
                          else t
                  else s2\<lparr>leader_failed := True\<rparr>)
        in if hb_total_count s3 > 100000
              \<and> (of_nat (unat (hb_fp_count s3)) / of_nat (unat (hb_total_count s3)) :: rat) < 1 / 10000
           then set_to_adjust 0 (s3\<lparr>hb_timeout_flag := True\<rparr>)
           else set_to_adjust (recomputed_hb_timeout s3) s3)"

text \<open>The heartbeat of server \<open>i\<close>, read and reset; the leader's may have been read already.\<close>

definition take_hb :: "nat \<Rightarrow> nat \<Rightarrow> 'e srv \<Rightarrow> u64 \<times> 'e srv" where
  "take_hb leader i s =
     (if i = leader
      then let s1 = (if latest_hb_received s = 0
                     then reset_hb leader (s\<lparr>latest_hb_received := c_hb (ctrl s) leader\<rparr>) else s)
           in (latest_hb_received s1, s1\<lparr>latest_hb_received := 0\<rparr>)
      else (c_hb (ctrl s) i, reset_hb i s))"

fun receive_loop :: "'e ibv \<Rightarrow> nat \<Rightarrow> nat \<Rightarrow> nat \<Rightarrow> u64 \<Rightarrow> bool \<Rightarrow> 'e srv \<Rightarrow> (u64 \<times> bool \<times> 'e srv) option" where
  "receive_loop ib leader i 0 new_sid timeout s = Some (new_sid, timeout, s)"
| "receive_loop ib leader i (Suc n) new_sid timeout s =
     (if i = me s \<or> \<not> CID_IS_SERVER_ON (cid (config s)) (of_nat i)
      then receive_loop ib leader (Suc i) n new_sid timeout s
      else let (hb, s1) = take_hb leader i s in
        if hb = 0 then receive_loop ib leader (Suc i) n new_sid timeout s1
        else if hb < new_sid
        then if has_L hb
             then do {
               (rc, s2) \<leftarrow> rc_send_hb_reply ib (of_nat i) s1;
               receive_loop ib leader (Suc i) n new_sid timeout
                 (s2\<lparr>recomputed_hb_timeout := recomputed_hb_timeout s2 + hb_period s2 / 10\<rparr>)
             }
             else receive_loop ib leader (Suc i) n new_sid timeout s1
        else receive_loop ib leader (Suc i) n (if has_L hb then hb else new_sid) False s1)"

definition hb_receive_cb :: "'e ibv \<Rightarrow> 'e srv \<Rightarrow> 'e srv option" where
  "hb_receive_cb ib s =
     (if me s \<ge> group_n s then Some (set_hb (hb_timeout s) s)
      else do {
        let s1 = upd_log (\<lambda>l. l\<lparr>log_tail := log_len l\<rparr>) s;
        (new_sid, timeout, s2) \<leftarrow>
          receive_loop ib (unat (SID_GET_IDX (c_sid (ctrl s1)))) 0 (group_n s1) (c_sid (ctrl s1)) True s1;
        if timeout then start_election ib (set_hb 0 s2)
        else if new_sid \<noteq> c_sid (ctrl s2)
        then do {
          s3 \<leftarrow> server_update_sid new_sid (c_sid (ctrl s2)) s2;
          if SID_GET_TERM (c_sid (ctrl s2)) \<noteq> SID_GET_TERM (c_sid (ctrl s3))
          then server_to_follower ib s3 else Some s3
        }
        else Some (set_hb (hb_timeout s2) s2)
      })"

text \<open>The loop of \<^verbatim>\<open>hb_send_cb\<close>: whether a server answered with a SID that is not smaller.\<close>

fun send_loop :: "nat \<Rightarrow> nat \<Rightarrow> u64 \<Rightarrow> 'e srv \<Rightarrow> bool \<times> 'e srv" where
  "send_loop i 0 new_sid s = (False, s)"
| "send_loop i (Suc n) new_sid s =
     (if i = me s \<or> \<not> CID_IS_SERVER_ON (cid (config s)) (of_nat i)
      then send_loop (Suc i) n new_sid s
      else let hb = c_hb (ctrl s) i; s1 = reset_hb i s in
        if hb < new_sid then send_loop (Suc i) n new_sid s1 else (True, s1))"

definition hb_send_cb :: "'e ibv \<Rightarrow> 'e srv \<Rightarrow> 'e srv option" where
  "hb_send_cb ib s =
     (let new_sid = c_sid (ctrl s); (higher, s1) = send_loop 0 (group_n s) new_sid s
      in if higher
         then do {
           s2 \<leftarrow> server_update_sid new_sid (c_sid (ctrl s1)) s1;
           server_to_follower ib s2
         }
         else do {
           (rc, s2) \<leftarrow> rc_send_hb ib s1;
           if rc \<noteq> 0 then None else Some (set_hb (hb_period s2) s2)
         })"

end
