(* ===== verification/Dare_Frame.thy ===== *)
theory Dare_Frame
  imports Dare_Election
begin

text \<open>
  What the communication layer cannot change.  The locale \<open>rc_frame\<close> takes a relation
  between the state before and after a call: a preorder that holds for an assignment
  to a server's data, for a call of the environment and for a poll.  Every function
  of \<^verbatim>\<open>dare_ibv_rc.c\<close> below the protocol then satisfies it.  The interpretation at the end
  is the one the election needs: provided that remote servers write neither the SID
  nor the log's length, no call of this layer changes the SID, the configuration
  identifier, the server's index, its state flags or the main timer.
\<close>

locale rc_frame =
  fixes ib :: "'e ibv" and R :: "'e srv \<Rightarrow> 'e srv \<Rightarrow> bool"
  assumes R_refl: "R s s"
    and R_trans: "R s t \<Longrightarrow> R t u \<Longrightarrow> R s u"
    and R_server: "R s (upd_server i f s)"
    and R_env: "R s (s\<lparr>env := e\<rparr>)"
    and R_sent: "R s (s\<lparr>sent := x\<rparr>)"
    and R_ssn: "R s (s\<lparr>ssn := n\<rparr>)"
    and R_wa: "R s (s\<lparr>wa_flag := b\<rparr>)"
    and R_poll: "R s (snd (poll ib q s))"
begin

lemma R_ep: "R s (upd_ep i f s)"
  by (simp add: upd_ep_def R_server)

lemma R_qp: "R s (upd_qp i q f s)"
  by (simp add: upd_qp_def R_ep)

lemma R_if: "R s t \<Longrightarrow> R s u \<Longrightarrow> R s (if b then t else u)"
  by simp

text \<open>The laws in the form that follows a sequence of assignments backwards.\<close>

lemmas then_R = R_trans [OF _ R_server] R_trans [OF _ R_ep] R_trans [OF _ R_qp] R_trans [OF _ R_env]
  R_trans [OF _ R_sent] R_trans [OF _ R_ssn] R_trans [OF _ R_wa] R_if R_refl

lemma poll_R: "poll ib q s = (r, s') \<Longrightarrow> R s s'"
  using R_poll [of s q] by simp

lemma check_read_ssn_R: "R s (check_read_ssn wrid q s)"
  by (simp add: check_read_ssn_def Let_def R_refl R_server)

lemma check_signaled_wr_R: "check_signaled_wr wrid q s = (b, f, s') \<Longrightarrow> R s s'"
  by (auto simp: check_signaled_wr_def Let_def intro: then_R split: if_splits)

lemma handle_lr_R: "R s (handle_lr_work_completion w rc s)"
  by (simp add: handle_lr_work_completion_def Let_def R_refl R_server)

lemma mark_failure_R: "R s (mark_failure b c q s)"
  by (auto simp: mark_failure_def Let_def R_refl R_qp R_server intro: R_trans [OF R_qp R_server])

lemmas steps_R = R_refl R_server check_read_ssn_R handle_lr_R mark_failure_R

lemma checks_R:
  "check_signaled_wr wrid q (check_read_ssn wrid q s) = (b, f, s') \<Longrightarrow> R s s'"
  by (rule R_trans [OF check_read_ssn_R check_signaled_wr_R])

lemma ecq_one_R: "R s (snd (snd (ecq_one i q w (wait, posted, s))))"
proof -
  obtain b f s1 where c: "check_signaled_wr (wc_wr_id w) q (check_read_ssn (wc_wr_id w) q s) = (b, f, s1)"
    by (cases "check_signaled_wr (wc_wr_id w) q (check_read_ssn (wc_wr_id w) q s)")
  have 2: "R s (handle_lr_work_completion w rc s1)" for rc
    by (rule R_trans [OF checks_R [OF c] handle_lr_R])
  show ?thesis
    using 2 R_trans [OF 2 R_server] R_trans [OF 2 mark_failure_R] by (simp add: ecq_one_def c Let_def)
qed

lemma ecq_fold_R: "R s (snd (snd (fold (ecq_one i q) ws (wait, posted, s))))"
proof (induction ws arbitrary: wait posted s)
  case Nil
  then show ?case by (simp add: R_refl)
next
  case (Cons w ws)
  obtain w1 p1 s1 where o: "ecq_one i q w (wait, posted, s) = (w1, p1, s1)"
    by (cases "ecq_one i q w (wait, posted, s)")
  then have "R s s1" using ecq_one_R [of s i q w wait posted] by simp
  then show ?case using o R_trans Cons.IH by (metis fold_simps(2))
qed

lemma empty_completion_queue_R:
  assumes "empty_completion_queue ib i q wait posted s = Some r"
  shows "R s (snd (snd r))"
proof -
  have "ib = ib \<longrightarrow> R s (snd (snd r))"
  proof (rule empty_completion_queue.raw_induct
      [where P = "\<lambda>ib' i q wait posted s r. ib' = ib \<longrightarrow> R s (snd (snd r))", OF _ assms])
    fix ecq :: "'e ibv \<Rightarrow> u8 \<Rightarrow> nat \<Rightarrow> bool \<Rightarrow> sends option \<Rightarrow> 'e srv \<Rightarrow> (int \<times> sends option \<times> 'e srv) option"
      and ib' i q wait posted s r
    assume IH: "\<And>ib' i q wait posted s r. ecq ib' i q wait posted s = Some r \<Longrightarrow> ib' = ib \<longrightarrow> R s (snd (snd r))"
      and eq: "(case poll ib' q s of
        (None, s1) \<Rightarrow> Some (1, posted, s1)
      | (Some [], s1) \<Rightarrow> (if wait then ecq ib' i q wait posted s1 else Some (0, posted, s1))
      | (Some (w # ws), s1) \<Rightarrow>
          (case fold (ecq_one i q) (w # ws) (wait, posted, s1) of
             (wait', posted', s2) \<Rightarrow> ecq ib' i q wait' posted' s2)) = Some r"
    show "ib' = ib \<longrightarrow> R s (snd (snd r))"
    proof
      assume ib: "ib' = ib"
      obtain x s1 where p: "poll ib q s = (x, s1)" by (cases "poll ib q s")
      have s1: "R s s1" by (rule poll_R [OF p])
      show "R s (snd (snd r))"
      proof (cases x)
        case None
        then show ?thesis using eq p s1 ib by auto
      next
        case (Some ws)
        obtain wt po s2 where f: "fold (ecq_one i q) ws (wait, posted, s1) = (wt, po, s2)"
          by (cases "fold (ecq_one i q) ws (wait, posted, s1)")
        have s2: "R s s2" using R_trans [OF s1 ecq_fold_R [of s1 i q ws wait posted]] f by simp
        show ?thesis
          using eq p s1 s2 f ib Some IH R_trans by (cases ws) (auto split: if_splits)
      qed
    qed
  qed
  then show ?thesis by blast
qed

lemma modify_qp_R: "R s (snd (modify_qp ib i q a s))"
  by (simp add: modify_qp_def R_env split: prod.splits)

lemma and_then_R:
  assumes "R s (snd r)" "\<And>t. R t (snd (f t))"
  shows "R s (snd (and_then r f))"
  using assms R_trans by (auto simp: and_then_def split: prod.splits)

lemma qp_transitions_R:
  "R s (snd (rc_qp_reset ib i q s))" "R s (snd (rc_qp_reset_to_init ib i q s))"
  "R s (snd (rc_qp_init_to_rtr ib i q s))" "R s (snd (rc_qp_rtr_to_rts ib i q s))"
  by (simp_all add: rc_qp_reset_def rc_qp_reset_to_init_def rc_qp_init_to_rtr_def rc_qp_rtr_to_rts_def
      Let_def modify_qp_R R_trans [OF R_qp modify_qp_R])

lemma rc_qp_restart_R: "R s (snd (rc_qp_restart ib i q s))"
  unfolding rc_qp_restart_def by (intro and_then_R qp_transitions_R) (simp add: R_refl)

lemma rc_qp_reset_to_rts_R: "R s (snd (rc_qp_reset_to_rts ib i q s))"
  unfolding rc_qp_reset_to_rts_def by (intro and_then_R qp_transitions_R) (simp add: R_refl)

lemma rc_connect_server_R: "R s (snd (rc_connect_server ib i q s))"
proof -
  obtain st e where q: "ib_query_qp ib i q (env s) = (st, e)" by (cases "ib_query_qp ib i q (env s)")
  have "R s (snd (if st \<noteq> IBV_QPS_RESET then rc_qp_reset ib i q (s\<lparr>env := e\<rparr>) else (0, s\<lparr>env := e\<rparr>)))"
    using R_trans [OF R_env qp_transitions_R(1)] R_env by simp
  then show ?thesis
    unfolding rc_connect_server_def Let_def q prod.case
    by (intro and_then_R qp_transitions_R) (simp_all add: R_refl)
qed

lemma rc_disconnect_server_R: "R s (snd (rc_disconnect_server ib i s))"
  unfolding rc_disconnect_server_def Let_def
  by (auto simp: R_refl intro!: and_then_R qp_transitions_R R_trans [OF R_ep qp_transitions_R(1)])

lemma revoke_loop_R: "R s (snd (revoke_loop ib i n s))"
proof (induction n arbitrary: i s)
  case (Suc n)
  obtain rc s1 where r: "rc_qp_reset ib (of_nat i) LOG_QP s = (rc, s1)"
    by (cases "rc_qp_reset ib (of_nat i) LOG_QP s")
  then have "R s s1" using qp_transitions_R(1) [of s "of_nat i" LOG_QP] by simp
  then have "R s (upd_ep i (\<lambda>ep. ep\<lparr>log_access := False\<rparr>) s1)" using R_trans R_ep by blast
  then show ?case using Suc.IH R_trans \<open>R s s1\<close> by (auto simp: r)
qed (simp add: R_refl)

lemma rc_revoke_log_access_R: "R s (snd (rc_revoke_log_access ib s))"
  by (simp add: rc_revoke_log_access_def revoke_loop_R)

lemma restore_one_R:
  assumes "rc_qp_reset_to_rts ib i LOG_QP s = (rc, s1)"
  shows "R s s1" "R s (upd_ep j (\<lambda>ep. ep\<lparr>log_access := True\<rparr>) s1)"
proof -
  show 1: "R s s1" using rc_qp_reset_to_rts_R [of s i LOG_QP] assms by simp
  show "R s (upd_ep j (\<lambda>ep. ep\<lparr>log_access := True\<rparr>) s1)" by (rule R_trans [OF 1 R_ep])
qed

lemma restore_loop_R: "R s (snd (restore_loop ib i n s))"
proof (induction n arbitrary: i s)
  case (Suc n)
  obtain rc s1 where r: "rc_qp_reset_to_rts ib (of_nat i) LOG_QP s = (rc, s1)"
    by (cases "rc_qp_reset_to_rts ib (of_nat i) LOG_QP s")
  show ?case
    using R_trans [OF restore_one_R(2) [OF r] Suc.IH] restore_one_R(1) [OF r] Suc.IH by (simp add: r)
qed (simp add: R_refl)

lemma rc_restore_log_access_R: "R s (snd (rc_restore_log_access ib s))"
proof -
  let ?l = "SID_GET_IDX (c_sid (ctrl s))"
  obtain rc s1 where r: "rc_qp_reset_to_rts ib ?l LOG_QP s = (rc, s1)"
    by (cases "rc_qp_reset_to_rts ib ?l LOG_QP s")
  show ?thesis
    using restore_one_R [OF r] restore_loop_R
    by (auto simp: rc_restore_log_access_def Let_def r R_refl)
qed

lemma prepare_wr_R: "prepare_wr i q buf len mr opc sig rm s = (wr, wait, s') \<Longrightarrow> R s s'"
  unfolding prepare_wr_def Let_def prod.inject by (elim conjE, hypsubst, intro then_R)

lemma post_send_R:
  assumes "post_send ib i q buf len mr opc sig rm posted s = Some r"
  shows "R s (snd (snd r))"
proof -
  let ?pre = "if qp_state (qp_at s (unat i) q) = RC_QP_BLOCKED
     then map_option (\<lambda>(rc, p, t). (rc, t)) (empty_completion_queue ib i q True None s) else Some (0, s)"
  obtain rc0 s0 where pre: "?pre = Some (rc0, s0)"
    using assms by (auto simp: post_send_def split: bind_splits)
  have s0: "R s s0"
    using pre empty_completion_queue_R [of i q True None s] R_refl by (auto split: if_splits)
  let ?s1 = "if qp_state (qp_at s0 (unat i) q) = RC_QP_ERROR
     then upd_qp (unat i) q (\<lambda>q. q\<lparr>qp_state := RC_QP_ACTIVE, send_count := 0\<rparr>) (snd (rc_qp_restart ib i q s0)) else s0"
  have s1: "R s ?s1" using s0 R_trans [OF s0 R_trans [OF rc_qp_restart_R R_qp]] by simp
  obtain wr wait s2 where pw: "prepare_wr i q buf len mr opc sig rm ?s1 = (wr, wait, s2)"
    by (cases "prepare_wr i q buf len mr opc sig rm ?s1")
  have s2: "R s s2" by (rule R_trans [OF s1 prepare_wr_R [OF pw]])
  obtain rc e where ps: "ib_post_send ib i q wr (env s2) = (rc, e)"
    by (cases "ib_post_send ib i q wr (env s2)")
  let ?s3 = "s2\<lparr>env := e, sent := sent s2 @ [(i, q, wr)]\<rparr>"
  have s3: "R s ?s3" by (rule R_trans [OF s2 R_trans [OF R_env R_sent]])
  have "r = (1, posted, s0) \<or> r = (1, posted, ?s3) \<or>
      (\<exists>x. empty_completion_queue ib i q wait posted ?s3 = Some x \<and> snd (snd x) = snd (snd r))"
    using assms by (auto simp: post_send_def pre pw ps Let_def split: if_splits)
  then show ?thesis
  proof (elim disjE exE conjE)
    fix x assume "empty_completion_queue ib i q wait posted ?s3 = Some x" "snd (snd x) = snd (snd r)"
    then show ?thesis using R_trans [OF s3 empty_completion_queue_R] by metis
  qed (use s0 s3 in simp_all)
qed

lemma post_R: "post ib i pr posted s = Some r \<Longrightarrow> R s (snd (snd r))"
  unfolding post_def by (rule post_send_R)

lemma post_each_R: "post_each ib counted self req i n posted s = Some r \<Longrightarrow> R s (snd (snd r))"
proof (induction n arbitrary: i posted s)
  case (Suc n)
  then show ?case
    using R_trans post_R
    by (fastforce simp: Let_def split: if_splits bind_splits)
qed (auto simp: R_refl)

lemma wait_one_R:
  "R (snd (snd (snd st))) (snd (snd (snd (wm_one q gsize w0 w st))))"
  "R (snd (snd (snd st))) (snd (snd (snd (wo_one q w0 w st))))"
proof -
  obtain p pc n s where st: "st = (p, pc, n, s)" by (cases st)
  obtain b f s1 where c: "check_signaled_wr (wc_wr_id w) q (check_read_ssn (wc_wr_id w) q s) = (b, f, s1)"
    by (cases "check_signaled_wr (wc_wr_id w) q (check_read_ssn (wc_wr_id w) q s)")
  note 1 = checks_R [OF c]
  note 2 = R_trans [OF 1 handle_lr_R]
  note 3 = R_trans [OF 2 R_server] R_trans [OF 2 mark_failure_R]
  show "R (snd (snd (snd st))) (snd (snd (snd (wm_one q gsize w0 w st))))"
    using 1 2 3 by (simp add: st wm_one_def c Let_def)
  show "R (snd (snd (snd st))) (snd (snd (snd (wo_one q w0 w st))))"
    using 1 2 3 by (simp add: st wo_one_def c Let_def)
qed

lemma wait_fold_R:
  assumes "\<And>w st. R (snd (snd (snd st))) (snd (snd (snd (f w st))))"
  shows "R (snd (snd (snd st))) (snd (snd (snd (fold f ws st))))"
proof (induction ws arbitrary: st)
  case Nil
  then show ?case by (simp add: R_refl)
next
  case (Cons w ws)
  show ?case using R_trans [OF assms Cons.IH, of st w] by (simp only: fold_simps)
qed

lemma wm_loop_R:
  assumes "wm_loop ib q gsize st = Some r"
  shows "R (snd (snd (snd st))) (snd (snd (snd (snd r))))"
proof -
  have "ib = ib \<longrightarrow> R (snd (snd (snd st))) (snd (snd (snd (snd r))))"
  proof (rule wm_loop.raw_induct
      [where P = "\<lambda>ib' q gsize st r. ib' = ib \<longrightarrow> R (snd (snd (snd st))) (snd (snd (snd (snd r))))", OF _ assms])
    fix wm :: "'e ibv \<Rightarrow> nat \<Rightarrow> u8 \<Rightarrow> 'e wait_st \<Rightarrow> (int \<times> 'e wait_st) option" and ib' q gsize st r
    assume IH: "\<And>ib' q gsize st r. wm ib' q gsize st = Some r \<Longrightarrow> ib' = ib \<longrightarrow> R (snd (snd (snd st))) (snd (snd (snd (snd r))))"
      and eq: "(case st of (posted, posted_count, success_count, s) \<Rightarrow>
        if unat success_count \<le> unat gsize div 2 \<and> posted_count \<noteq> 0
        then (case poll ib' q s of
                (None, s1) \<Rightarrow> Some (RC_ERROR, (posted, posted_count, success_count, s1))
              | (Some ws, s1) \<Rightarrow>
                  wm ib' q gsize (fold (wm_one q gsize (hd ws)) (u8_take ws)
                    (posted, posted_count, success_count, s1)))
        else Some (RC_SUCCESS, st)) = Some r"
    obtain p pc n s where st: "st = (p, pc, n, s)" by (cases st)
    obtain x s1 where po: "poll ib q s = (x, s1)" by (cases "poll ib q s")
    have s1: "R s s1" by (rule poll_R [OF po])
    have f: "R s (snd (snd (snd (fold (wm_one q gsize w0) ws (p, pc, n, s1)))))" for w0 ws
      using R_trans [OF s1] wait_fold_R [of "wm_one q gsize w0" "(p, pc, n, s1)" ws] wait_one_R(1) by simp
    show "ib' = ib \<longrightarrow> R (snd (snd (snd st))) (snd (snd (snd (snd r))))"
    proof
      assume ib: "ib' = ib"
      note IH' = R_trans [OF f IH [THEN mp, OF _ ib]]
      show "R (snd (snd (snd st))) (snd (snd (snd (snd r))))"
        using eq s1 ib IH' by (auto simp: st po R_refl split: if_splits option.splits)
    qed
  qed
  then show ?thesis by blast
qed

lemma wo_loop_R:
  assumes "wo_loop ib q st = Some r"
  shows "R (snd (snd (snd st))) (snd (snd (snd (snd r))))"
proof -
  have "ib = ib \<longrightarrow> R (snd (snd (snd st))) (snd (snd (snd (snd r))))"
  proof (rule wo_loop.raw_induct
      [where P = "\<lambda>ib' q st r. ib' = ib \<longrightarrow> R (snd (snd (snd st))) (snd (snd (snd (snd r))))", OF _ assms])
    fix wo :: "'e ibv \<Rightarrow> nat \<Rightarrow> 'e wait_st \<Rightarrow> (int \<times> 'e wait_st) option" and ib' q st r
    assume IH: "\<And>ib' q st r. wo ib' q st = Some r \<Longrightarrow> ib' = ib \<longrightarrow> R (snd (snd (snd st))) (snd (snd (snd (snd r))))"
      and eq: "(case st of (posted, posted_count, success_count, s) \<Rightarrow>
        if success_count = 0 \<and> posted_count \<noteq> 0
        then (case poll ib' q s of
                (None, s1) \<Rightarrow> Some (RC_ERROR, (posted, posted_count, success_count, s1))
              | (Some ws, s1) \<Rightarrow>
                  wo ib' q (fold (wo_one q (hd ws)) (u8_take ws) (posted, posted_count, success_count, s1)))
        else Some (if success_count \<noteq> 0 then RC_SUCCESS else RC_INSUCCESS, st)) = Some r"
    obtain p pc n s where st: "st = (p, pc, n, s)" by (cases st)
    obtain x s1 where po: "poll ib q s = (x, s1)" by (cases "poll ib q s")
    have s1: "R s s1" by (rule poll_R [OF po])
    have f: "R s (snd (snd (snd (fold (wo_one q w0) ws (p, pc, n, s1)))))" for w0 ws
      using R_trans [OF s1] wait_fold_R [of "wo_one q w0" "(p, pc, n, s1)" ws] wait_one_R(2) by simp
    show "ib' = ib \<longrightarrow> R (snd (snd (snd st))) (snd (snd (snd (snd r))))"
    proof
      assume ib: "ib' = ib"
      note IH' = R_trans [OF f IH [THEN mp, OF _ ib]]
      show "R (snd (snd (snd st))) (snd (snd (snd (snd r))))"
        using eq s1 ib IH' by (auto simp: st po R_refl split: if_splits option.splits)
    qed
  qed
  then show ?thesis by blast
qed

lemma wait_for_one_R: "wait_for_one ib posted q s = Some r \<Longrightarrow> R s (snd (snd r))"
  using wo_loop_R by (fastforce simp: wait_for_one_def Let_def)

lemma wait_for_majority_R:
  assumes "wait_for_majority ib posted q s = Some r"
  shows "R s (snd (snd r))"
proof -
  have 1: "R s s1" if "wm_loop ib q g (a, b, c, s) = Some (rc, p1, pc1, n1, s1)" for g a b c rc p1 pc1 n1 s1
    using wm_loop_R [OF that] by simp
  have 2: "R s1 s2" if "wm_loop ib q g (a, b, c, s1) = Some (rc, p1, pc1, n1, s2)" for g a b c rc p1 pc1 n1 s1 s2
    using wm_loop_R [OF that] by simp
  show ?thesis
    using assms 1 R_trans [OF 1 2]
    by (auto simp: wait_for_majority_def Let_def split: bind_splits if_splits)
qed

end

section \<open>The SID is private\<close>

text \<open>
  No server writes another's SID: the remote offsets of all posted writes are those of
  the arrays of the control data and of the log.
\<close>

definition sid_private :: "'e ibv \<Rightarrow> bool" where
  "sid_private ib \<longleftrightarrow> (\<forall>q c l e. c_sid (fst (fst (snd (ib_poll_cq ib q (c, l) e)))) = c_sid c)"

definition keeps :: "'e ibv \<Rightarrow> 'e srv \<Rightarrow> 'e srv \<Rightarrow> bool" where
  "keeps ib s s' \<longleftrightarrow> (sid_private ib \<longrightarrow> c_sid (ctrl s') = c_sid (ctrl s)) \<and>
     cid (config s') = cid (config s) \<and> my_idx (config s') = my_idx (config s) \<and>
     dare_state s' = dare_state s \<and> timer_event s' = timer_event s"

lemma keeps_refl [simp]: "keeps ib s s"
  by (simp add: keeps_def)

lemma keeps_trans [trans]: "keeps ib s t \<Longrightarrow> keeps ib t u \<Longrightarrow> keeps ib s u"
  by (simp add: keeps_def)

interpretation kf: rc_frame ib "keeps ib" for ib :: "'e ibv"
proof
  show "keeps ib s (snd (poll ib q s))" for s q
    by (auto simp: keeps_def poll_def sid_private_def split: prod.splits) (metis fst_conv snd_conv)
qed (auto simp: keeps_def upd_server_def)

lemma keeps_ctrl: "c_sid (f (ctrl s)) = c_sid (ctrl s) \<Longrightarrow> keeps ib s (upd_ctrl f s)"
  by (simp add: keeps_def upd_ctrl_def)

lemma keeps_log: "keeps ib s (upd_log f s)"
  by (simp add: keeps_def upd_log_def)

lemma keeps_ssn [simp]: "keeps ib s (inc_ssn s)"
  by (simp add: inc_ssn_def kf.R_ssn)

lemma keeps_timers [simp]:
  "keeps ib s (set_hb r s)" "keeps ib s (set_hb_cb cb r s)" "keeps ib s (set_prune r s)"
  "keeps ib s (set_to_adjust r s)" "keeps ib s (stop_leading s)" "keeps ib s (reset_hb i s)"
  by (simp_all add: keeps_def set_hb_def set_hb_cb_def set_prune_def set_to_adjust_def stop_leading_def
      Let_def reset_hb_def upd_ctrl_def)

lemma keeps_post_each:
  "keeps ib s t \<Longrightarrow> post_each ib b self req i n posted t = Some (rc, p, s') \<Longrightarrow> keeps ib s s'"
  by (drule kf.post_each_R) (auto intro: keeps_trans)

lemma rc_send_hb_keeps: "rc_send_hb ib s = Some (rc, s') \<Longrightarrow> keeps ib s s'"
  by (auto simp: rc_send_hb_def intro: keeps_post_each [OF keeps_ssn])

lemma keeps_post: "keeps ib s t \<Longrightarrow> post ib i r posted t = Some (rc, p, s') \<Longrightarrow> keeps ib s s'"
  by (drule kf.post_R) (auto intro: keeps_trans)

lemma rc_send_hb_reply_keeps: "rc_send_hb_reply ib i s = Some (rc, s') \<Longrightarrow> keeps ib s s'"
  by (auto simp: rc_send_hb_reply_def Let_def intro: keeps_post [OF keeps_ssn] split: if_splits)

lemma set_vote_request_keeps: "set_vote_request s = Some s' \<Longrightarrow> keeps ib s s'"
  by (auto simp: set_vote_request_def intro!: keeps_ctrl split: bind_splits if_splits)

lemma rc_send_vote_request_keeps:
  assumes "rc_send_vote_request ib s = Some (rc, s')"
  shows "keeps ib s s'"
proof -
  obtain s1 where 1: "set_vote_request s = Some s1"
    using assms by (auto simp: rc_send_vote_request_def split: bind_splits)
  have "keeps ib s (inc_ssn s1)" by (rule keeps_trans [OF set_vote_request_keeps [OF 1] keeps_ssn])
  then show ?thesis
    using assms 1 keeps_post_each by (fastforce simp: rc_send_vote_request_def)
qed

lemma rc_replicate_vote_keeps:
  assumes "rc_replicate_vote ib s = Some (rc, s')"
  shows "keeps ib s s'"
proof -
  let ?s1 = "upd_ctrl (\<lambda>c. c\<lparr>c_prv_data := (c_prv_data c)(me s := c_sid c)\<rparr>) s"
  have 1: "keeps ib s (inc_ssn ?s1)" by (rule keeps_trans [OF keeps_ctrl keeps_ssn]) simp
  have w: "keeps ib t u" if "wait_for_majority ib p CTRL_QP t = Some (r, p', u)" for t u p r p'
    using kf.wait_for_majority_R [OF that] by simp
  show ?thesis
    using assms keeps_post_each [OF 1] keeps_trans [OF keeps_post_each [OF 1] w]
    by (auto simp: rc_replicate_vote_def Let_def split: bind_splits if_splits)
qed

lemma rc_send_vote_ack_keeps:
  assumes "rc_send_vote_ack ib s = Some (rc, s')"
  shows "keeps ib s s'"
proof -
  have w: "keeps ib t u" if "wait_for_one ib p CTRL_QP t = Some (r, p', u)" for t u p r p'
    using kf.wait_for_one_R [OF that] by simp
  show ?thesis
    using assms keeps_post [OF keeps_ssn] keeps_trans [OF keeps_post [OF keeps_ssn] w]
    by (auto simp: rc_send_vote_ack_def Let_def split: bind_splits if_splits)
qed

lemma access_keeps:
  "keeps ib s (snd (rc_revoke_log_access ib s))" "keeps ib s (snd (rc_restore_log_access ib s))"
  by (rule kf.rc_revoke_log_access_R, rule kf.rc_restore_log_access_R)

lemma fill_nc_buf_keeps: "fill_nc_buf s = Some s' \<Longrightarrow> keeps ib s s'"
  by (auto simp: fill_nc_buf_def keeps_log split: option.splits sum.splits)

end
