(* ===== verification/Dare_Election_Props.thy ===== *)
theory Dare_Election_Props
  imports Dare_Frame Dare_Log_Props Dare_Demo
begin

text \<open>
  Properties of the election: what a new candidate's SID is, that a server votes at most
  once in a term, and only for a candidate whose log is at least as recent as its own.
\<close>

section \<open>Starting an election\<close>

lemma update_sid_sel:
  "server_update_sid new old s = Some s' \<Longrightarrow>
     c_sid (ctrl s') = new \<and> config s' = config s \<and> slog s' = slog s \<and> dare_state s' = dare_state s \<and>
     timer_event s' = timer_event s"
  by (auto simp: server_update_sid_def upd_ctrl_def split: if_splits)

lemma candidate_sid_fields:
  assumes "unat (SID_GET_TERM (c_sid (ctrl s))) + 1 < 2 ^ 55"
  shows "SID_GET_TERM (candidate_sid s) = SID_GET_TERM (c_sid (ctrl s)) + 1"
    "\<not> has_L (candidate_sid s)" "SID_GET_IDX (candidate_sid s) = my_idx (config s)"
    "unat (SID_GET_TERM (candidate_sid s)) = unat (SID_GET_TERM (c_sid (ctrl s))) + 1"
proof -
  have "unat (SID_GET_TERM (c_sid (ctrl s)) + 1) = unat (SID_GET_TERM (c_sid (ctrl s))) + 1"
    using assms by (simp add: unat_word_ariths)
  then show "SID_GET_TERM (candidate_sid s) = SID_GET_TERM (c_sid (ctrl s)) + 1"
    and "unat (SID_GET_TERM (candidate_sid s)) = unat (SID_GET_TERM (c_sid (ctrl s))) + 1"
    using assms by (simp_all add: candidate_sid_def sid_simps)
qed (simp_all add: candidate_sid_def sid_simps)

lemma clear_votes_keeps: "keeps ib s (clear_votes n s)"
  by (simp add: keeps_def clear_votes_def upd_config_def upd_ctrl_def)

lemma random_election_timeout_keeps: "random_election_timeout ib s = Some (r, s') \<Longrightarrow> keeps ib s s'"
  by (auto simp: random_election_timeout_def kf.R_env split: if_splits prod.splits)

lemma start_election_keeps:
  assumes "start_election ib s = Some s'"
  obtains s1 where "server_update_sid (candidate_sid s) (c_sid (ctrl s)) s = Some s1" "keeps ib s1 s'"
proof -
  obtain s1 where s1: "server_update_sid (candidate_sid s) (c_sid (ctrl s)) s = Some s1"
    by (simp add: server_update_sid_def)
  obtain rc s2 where s2: "rc_revoke_log_access ib s1 = (rc, s2)" by (cases "rc_revoke_log_access ib s1")
  let ?s3 = "clear_votes (group_n s2) s2"
  obtain to s4 where s4: "random_election_timeout ib ?s3 = Some (to, s4)"
    using assms s1 s2 by (auto simp: start_election_def split: if_splits bind_splits)
  have "rc_send_vote_request ib (set_hb_cb Cb_hb_receive to s4) = Some (0, s')"
    using assms s1 s2 s4 by (auto simp: start_election_def split: if_splits bind_splits)
  then have "keeps ib s4 s'" using rc_send_vote_request_keeps keeps_timers(2) keeps_trans by metis
  moreover have "keeps ib s1 s2" using access_keeps(1) [of ib s1] s2 by simp
  then have "keeps ib s1 s4"
    using clear_votes_keeps random_election_timeout_keeps [OF s4] keeps_trans by metis
  ultimately show thesis using that [OF s1] keeps_trans by metis
qed

lemma start_election_sid:
  assumes "start_election ib s = Some s'" "sid_private ib"
  shows "c_sid (ctrl s') = candidate_sid s" "my_idx (config s') = my_idx (config s)"
proof -
  obtain s1 where s1: "server_update_sid (candidate_sid s) (c_sid (ctrl s)) s = Some s1" "keeps ib s1 s'"
    by (rule start_election_keeps [OF assms(1)])
  then show "c_sid (ctrl s') = candidate_sid s" "my_idx (config s') = my_idx (config s)"
    using update_sid_sel [OF s1(1)] assms(2) by (simp_all add: keeps_def)
qed

text \<open>A server that starts an election becomes a candidate: its SID has the next term, no leader
  flag and its own index, whatever happens while the vote requests are posted.\<close>

theorem start_election_candidate:
  assumes "start_election ib s = Some s'" and "sid_private ib"
    and "unat (SID_GET_TERM (c_sid (ctrl s))) + 1 < 2 ^ 55"
  shows "SID_GET_TERM (c_sid (ctrl s')) = SID_GET_TERM (c_sid (ctrl s)) + 1 \<and> IS_CANDIDATE s' \<and>
    c_sid (ctrl s) < c_sid (ctrl s')"
proof -
  note sid = start_election_sid [OF assms(1,2)] and f = candidate_sid_fields [OF assms(3)]
  have "SID_GET_TERM (candidate_sid s) \<noteq> 0" using f(4) by (metis add_is_0 one_neq_zero unat_0)
  moreover have "SID_GET_TERM (c_sid (ctrl s)) < SID_GET_TERM (candidate_sid s)"
    using f(4) by (simp add: word_less_nat_alt)
  ultimately show ?thesis
    using sid f by (simp add: roles sid_less_iff [of "c_sid (ctrl s)"])
qed

text \<open>A group of which only server 0 is on, with the given SID.\<close>

definition demo_sid :: "u64 \<Rightarrow> wc list list srv" where
  "demo_sid sid = upd_config (\<lambda>g. g\<lparr>cid := demo_cid\<lparr>bitmask := 1\<rparr>\<rparr>)
     (upd_ctrl (\<lambda>c. c\<lparr>c_sid := sid\<rparr>) (demo_srv (the (log_new True)) []))"

lemma demo_sid_private [simp]: "sid_private demo_ib"
  by (simp add: sid_private_def demo_ib_def demo_poll_def split: list.splits)

lemma start_election_candidate_witness:
  "\<exists>s'. start_election demo_ib (demo_sid 0x601) = Some s' \<and> SID_GET_TERM (c_sid (ctrl s')) = 4 \<and> IS_CANDIDATE s'"
proof -
  have "map_option (\<lambda>_. ()) (start_election demo_ib (demo_sid 0x601)) = Some ()" by code_simp
  then obtain s' where s': "start_election demo_ib (demo_sid 0x601) = Some s'" by auto
  have sid: "c_sid (ctrl (demo_sid 0x601)) = 0x601" by (simp add: demo_sid_def)
  have "SID_GET_TERM 0x601 = 3" by (simp add: SID_GET_TERM_def drop_bit_eq_div)
  then show ?thesis using start_election_candidate [OF s'] s' sid by auto
qed

section \<open>Choosing a candidate\<close>

lemma drop_request_sel [simp]:
  "c_sid (drop_request i c) = c_sid c" "c_vote_ack (drop_request i c) = c_vote_ack c"
  "c_vote_req (drop_request i c) j = (if j = i then (c_vote_req c i)\<lparr>vr_sid := 0\<rparr> else c_vote_req c j)"
  by (simp_all add: drop_request_def)

text \<open>Requests are only dropped: their SID is set to 0.\<close>

definition dropped :: "ctrl_data \<Rightarrow> ctrl_data \<Rightarrow> bool" where
  "dropped c c' \<longleftrightarrow> c_sid c' = c_sid c \<and> c_vote_ack c' = c_vote_ack c \<and>
     (\<forall>j. c_vote_req c' j = c_vote_req c j \<or> c_vote_req c' j = (c_vote_req c j)\<lparr>vr_sid := 0\<rparr>)"

lemma dropped_refl [simp]: "dropped c c"
  by (simp add: dropped_def)

lemma dropped_trans: "dropped a b \<Longrightarrow> dropped b c \<Longrightarrow> dropped a c"
  unfolding dropped_def by (metis (no_types, lifting) vote_req.surjective vote_req.update_convs(1))

lemma dropped_one [simp]: "dropped c (drop_request i c)"
  by (simp add: dropped_def)

lemma scan_requests_correct:
  "scan_requests self i n best c = (best', c') \<Longrightarrow> dropped c c' \<and> best \<le> best' \<and>
     best' \<in> insert best ((\<lambda>j. vr_sid (c_vote_req c j)) ` {i..<i + n})"
proof (induction n arbitrary: i best c)
  case (Suc n)
  have rng: "{i..<i + Suc n} = insert i {Suc i..<Suc i + n}" by auto
  have later: "(\<lambda>j. vr_sid (c_vote_req (drop_request i c) j)) ` {Suc i..<Suc i + n} =
      (\<lambda>j. vr_sid (c_vote_req c j)) ` {Suc i..<Suc i + n}"
    by (auto intro!: image_cong)
  consider "scan_requests self (Suc i) n best c = (best', c')"
    | "scan_requests self (Suc i) n best (drop_request i c) = (best', c')"
    | "best < vr_sid (c_vote_req c i)" "scan_requests self (Suc i) n (vr_sid (c_vote_req c i)) c = (best', c')"
    using Suc.prems by (auto split: if_splits)
  then show ?case
  proof cases
    case 1
    from Suc.IH [OF this] show ?thesis unfolding rng by auto
  next
    case 2
    from Suc.IH [OF this, unfolded later] show ?thesis
      using dropped_trans [OF dropped_one] unfolding rng by auto
  next
    case 3
    from Suc.IH [OF this(2)] show ?thesis using 3(1) unfolding rng by auto
  qed
qed simp

text \<open>One log is at least as recent as another: its last entry has a higher term, or the
  same term and no lower index.\<close>

definition as_recent :: "u64 \<times> u64 \<Rightarrow> u64 \<times> u64 \<Rightarrow> bool" where
  "as_recent = (\<lambda>(t, i) (t', i'). t < t' \<or> t = t' \<and> i \<le> i')"

abbreviation last_of :: "vote_req \<Rightarrow> u64 \<times> u64" where
  "last_of r \<equiv> (vr_term r, vr_index r)"

lemma as_recent_refl [simp]: "as_recent a a"
  by (simp add: as_recent_def split: prod.splits)

lemma as_recent_trans: "as_recent a b \<Longrightarrow> as_recent b c \<Longrightarrow> as_recent a c"
  by (auto simp: as_recent_def)

lemma choose_request_correct:
  "choose_request i n best h c = (best', h', c') \<Longrightarrow>
     dropped c c' \<and> h \<le> h' \<and> vr_sid best \<le> vr_sid best' \<and> as_recent (last_of best) (last_of best') \<and>
     h' \<in> insert h ((\<lambda>j. SID_GET_TERM (vr_sid (c_vote_req c j))) ` {i..<i + n}) \<and>
     best' \<in> insert best (c_vote_req c ` {i..<i + n})"
proof (induction n arbitrary: i best h c)
  case (Suc n)
  let ?r = "c_vote_req c i" and ?c = "drop_request i c"
  let ?h = "if h < SID_GET_TERM (vr_sid ?r) then SID_GET_TERM (vr_sid ?r) else h"
  have hh: "h \<le> ?h" by auto
  have rng: "{i..<i + Suc n} = insert i {Suc i..<Suc i + n}" by auto
  have later: "(\<lambda>j. SID_GET_TERM (vr_sid (c_vote_req ?c j))) ` {Suc i..<Suc i + n} =
      (\<lambda>j. SID_GET_TERM (vr_sid (c_vote_req c j))) ` {Suc i..<Suc i + n}"
    "c_vote_req ?c ` {Suc i..<Suc i + n} = c_vote_req c ` {Suc i..<Suc i + n}"
    by (auto intro!: image_cong)
  note IH = Suc.IH [of "Suc i", unfolded later]
  consider (low) "choose_request (Suc i) n best h ?c = (best', h', c')"
    | (old) "choose_request (Suc i) n best ?h ?c = (best', h', c')"
    | (take) "vr_sid best \<le> vr_sid ?r" "as_recent (last_of best) (last_of ?r)"
        "choose_request (Suc i) n ?r ?h ?c = (best', h', c')"
  proof (cases "vr_sid ?r < vr_sid best")
    case True
    then show ?thesis using Suc.prems low by (simp add: Let_def)
  next
    case sid: False
    show ?thesis
    proof (cases "vr_term best > vr_term ?r \<or> vr_term best = vr_term ?r \<and> vr_index best > vr_index ?r")
      case True
      then show ?thesis using Suc.prems sid old by (simp add: Let_def)
    next
      case False
      then have "as_recent (last_of best) (last_of ?r)" by (auto simp: as_recent_def)
      moreover have "choose_request (Suc i) n ?r ?h ?c = (best', h', c')"
        using False Suc.prems sid by (auto simp: Let_def split: if_splits)
      ultimately show ?thesis using sid take by (simp add: not_less)
    qed
  qed
  then show ?case
  proof cases
    case low
    from IH [OF this] show ?thesis using dropped_trans [OF dropped_one] unfolding rng by auto
  next
    case old
    from IH [OF this] show ?thesis
      using dropped_trans [OF dropped_one] hh unfolding rng by (auto split: if_splits)
  next
    case take
    from IH [OF take(3)] show ?thesis
      using dropped_trans [OF dropped_one] hh take(1,2) as_recent_trans [OF take(2)] unfolding rng
      by (auto split: if_splits)
  qed
qed simp

section \<open>Casting the vote\<close>

lemma depart_loop_keeps: "depart_loop ib c i n s = Some s' \<Longrightarrow> keeps ib s s'"
  by (induction n arbitrary: i s)
    (auto intro: keeps_trans [OF kf.rc_disconnect_server_R] split: if_splits)

lemma update_cid_sid:
  assumes "update_cid ib c s = Some (rc, s')"
  shows "sid_private ib \<Longrightarrow> c_sid (ctrl s') = c_sid (ctrl s)" "my_idx (config s') = my_idx (config s)"
    "dare_state s' = dare_state s" "timer_event s' = timer_event s"
proof -
  obtain s1 where "keeps ib s s1" "s' = s1 \<or> s' = upd_config (\<lambda>g. g\<lparr>cid := c\<rparr>) s1"
  proof (cases "equal_cid (cid (config s)) c")
    case True
    then show thesis using that [of s] assms by (simp add: update_cid_def)
  next
    case False
    then obtain s1 where "depart_loop ib c 0 (unat (if size1 c > size0 c then size1 c else size0 c)) s = Some s1"
      "s' = upd_config (\<lambda>g. g\<lparr>cid := c\<rparr>) s1"
      using assms by (auto simp: update_cid_def split: bind_splits)
    then show thesis using that depart_loop_keeps by metis
  qed
  then show "sid_private ib \<Longrightarrow> c_sid (ctrl s') = c_sid (ctrl s)" "my_idx (config s') = my_idx (config s)"
    "dare_state s' = dare_state s" "timer_event s' = timer_event s"
    by (auto simp: keeps_def upd_config_def)
qed

text \<open>The SID after an acknowledgement: the same, or a candidate's when sending it failed.\<close>

definition sid_or_candidate :: "u64 \<Rightarrow> u8 \<Rightarrow> u64 \<Rightarrow> bool" where
  "sid_or_candidate sid idx sid' \<longleftrightarrow> sid' = sid \<or>
     sid' = SID_SET_IDX (SID_UNSET_L (SID_SET_TERM 0 (SID_GET_TERM sid + 1))) idx"

lemma sid_or_candidate_term:
  assumes "sid_or_candidate sid idx sid'" "unat (SID_GET_TERM sid) + 1 < 2 ^ 55"
  shows "SID_GET_TERM sid \<le> SID_GET_TERM sid'" "SID_GET_IDX sid' \<noteq> idx \<Longrightarrow> sid' = sid"
proof -
  have "unat (SID_GET_TERM sid + 1) = unat (SID_GET_TERM sid) + 1"
    using assms(2) by (simp add: unat_word_ariths)
  then show "SID_GET_TERM sid \<le> SID_GET_TERM sid'" "SID_GET_IDX sid' \<noteq> idx \<Longrightarrow> sid' = sid"
    using assms by (auto simp: sid_or_candidate_def sid_simps word_le_nat_alt)
qed

lemma ack_or_elect_sid:
  assumes "(if rc < 0 then start_election ib s
            else if rc \<noteq> 0 then None else Some (set_hb_cb Cb_hb_receive (hb_timeout s) s)) = Some s'"
    and "sid_private ib"
  shows "sid_or_candidate (c_sid (ctrl s)) (my_idx (config s)) (c_sid (ctrl s')) \<and>
     my_idx (config s') = my_idx (config s)"
  using assms start_election_sid [of ib s s']
  by (auto simp: sid_or_candidate_def candidate_sid_def set_hb_cb_def split: if_splits)

lemma cast_vote_sid:
  assumes "cast_vote ib best s = Some s'" "sid_private ib"
  shows "sid_or_candidate (vr_sid best) (my_idx (config s)) (c_sid (ctrl s')) \<and>
     my_idx (config s') = my_idx (config s)"
proof -
  obtain s1 where s1: "server_update_sid (vr_sid best) (c_sid (ctrl s)) (set_hb 0 s) = Some s1"
    using assms by (auto simp: cast_vote_def split: bind_splits)
  obtain rc2 s2 where s2: "update_cid ib (vr_cid best) s1 = Some (rc2, s2)"
    using assms s1 by (auto simp: cast_vote_def split: bind_splits)
  obtain s3 where s3: "rc_replicate_vote ib s2 = Some (0, s3)"
    using assms s1 s2 by (auto simp: cast_vote_def split: bind_splits if_splits)
  obtain s4 where s4: "rc_restore_log_access ib (stop_leading s3) = (0, s4)"
    using assms s1 s2 s3 by (auto simp: cast_vote_def split: bind_splits if_splits prod.splits)
  obtain rc5 s5 where s5: "rc_send_vote_ack ib s4 = Some (rc5, s5)"
    using assms s1 s2 s3 s4 by (auto simp: cast_vote_def split: bind_splits)
  have fin: "(if rc5 < 0 then start_election ib s5
            else if rc5 \<noteq> 0 then None else Some (set_hb_cb Cb_hb_receive (hb_timeout s5) s5)) = Some s'"
    using assms(1) s1 s2 s3 s4 s5 by (simp add: cast_vote_def)
  have k1: "c_sid (ctrl s1) = vr_sid best" "my_idx (config s1) = my_idx (config s)"
    using update_sid_sel [OF s1] by (simp_all add: set_hb_def)
  have "keeps ib (stop_leading s3) s4" using access_keeps(2) [of ib "stop_leading s3"] s4 by simp
  then have "keeps ib s2 s5"
    using rc_replicate_vote_keeps [OF s3] keeps_timers(5) rc_send_vote_ack_keeps [OF s5] keeps_trans by metis
  then show ?thesis
    using ack_or_elect_sid [OF fin assms(2)] update_cid_sid [OF s2] k1 assms(2) by (simp add: keeps_def)
qed

section \<open>One vote per term\<close>

text \<open>What a vote request may look like: candidates have no leader flag, and terms do not run out.\<close>

definition candidate_requests :: "'e srv \<Rightarrow> bool" where
  "candidate_requests s \<longleftrightarrow> (\<forall>j<group_n s. let sid = vr_sid (c_vote_req (ctrl s) j) in
     \<not> has_L sid \<and> unat (SID_GET_TERM sid) + 1 < 2 ^ 55)"

lemma better_sid_term:
  assumes "SID_SET_L sid < sid'" "\<not> has_L sid'"
  shows "SID_GET_TERM sid < SID_GET_TERM sid'"
  using assms sid_less_iff [of "SID_SET_L sid" sid'] by (simp add: sid_simps)

lemma fill_nc_buf_sel:
  "fill_nc_buf s = Some s' \<Longrightarrow> ctrl s' = ctrl s \<and> config s' = config s \<and> log_len (slog s') = log_len (slog s)"
  by (auto simp: fill_nc_buf_def split: option.splits sum.splits)

lemma revoke_loop_sel: "revoke_loop ib i n s = (rc, s') \<Longrightarrow> ctrl s' = ctrl s \<and> slog s' = slog s"
proof (induction n arbitrary: i s)
  case (Suc n)
  then show ?case
    by (force simp: rc_qp_reset_def modify_qp_def split: if_splits prod.splits)
qed simp

lemma revoke_sel:
  assumes "rc_revoke_log_access ib s = (rc, s')"
  shows "ctrl s' = ctrl s" "slog s' = slog s" "my_idx (config s') = my_idx (config s)"
    "cid (config s') = cid (config s)"
  using revoke_loop_sel [OF assms [unfolded rc_revoke_log_access_def]] access_keeps(1) [of ib s] assms
  by (auto simp: keeps_def)

text \<open>The two outcomes of judging the requests: the server raises its term, or votes.\<close>

lemma judge_requests_cases:
  assumes "judge_requests ib old_sid best_sid s = Some s'"
  obtains (raise) s1 s2 ix tm best h c where
      "rc_revoke_log_access ib s = (0, s1)" "fill_nc_buf s1 = Some s2" "local_last s2 = Some (ix, tm)"
      "choose_request 0 (group_n s) \<lparr>vr_sid = old_sid, vr_index = ix, vr_term = tm, vr_cid = cid (config s2)\<rparr>
         (SID_GET_TERM best_sid) (ctrl s) = (best, h, c)"
      "vr_sid best = old_sid" "c_sid (ctrl s') = SID_SET_IDX (SID_SET_TERM (c_sid c) h) (my_idx (config s))"
      "my_idx (config s') = my_idx (config s)" "c_vote_ack (ctrl s') = c_vote_ack c"
      "cid (config s') = cid (config s)" "log_len (slog s') = log_len (slog s)"
  | (vote) s1 s2 ix tm best h c where
      "rc_revoke_log_access ib s = (0, s1)" "fill_nc_buf s1 = Some s2" "local_last s2 = Some (ix, tm)"
      "choose_request 0 (group_n s) \<lparr>vr_sid = old_sid, vr_index = ix, vr_term = tm, vr_cid = cid (config s2)\<rparr>
         (SID_GET_TERM best_sid) (ctrl s) = (best, h, c)"
      "vr_sid best \<noteq> old_sid" "cast_vote ib best (s2\<lparr>ctrl := c\<rparr>) = Some s'"
      "my_idx (config s2) = my_idx (config s)"
proof -
  obtain s1 where s1: "rc_revoke_log_access ib s = (0, s1)"
    using assms by (cases "rc_revoke_log_access ib s") (auto simp: judge_requests_def split: if_splits)
  obtain s2 where s2: "fill_nc_buf s1 = Some s2"
    using assms s1 by (auto simp: judge_requests_def split: bind_splits)
  obtain ix tm where l: "local_last s2 = Some (ix, tm)"
    using assms s1 s2 by (auto simp: judge_requests_def split: bind_splits)
  let ?own = "\<lparr>vr_sid = old_sid, vr_index = ix, vr_term = tm, vr_cid = cid (config s2)\<rparr>"
  have k: "ctrl s2 = ctrl s" "my_idx (config s2) = my_idx (config s)"
    using revoke_sel [OF s1] fill_nc_buf_sel [OF s2] by simp_all
  obtain best h c where ch: "choose_request 0 (group_n s) ?own (SID_GET_TERM best_sid) (ctrl s) = (best, h, c)"
    by (cases "choose_request 0 (group_n s) ?own (SID_GET_TERM best_sid) (ctrl s)")
  show thesis
  proof (cases "vr_sid best = old_sid")
    case True
    then have "server_update_sid (SID_SET_IDX (SID_SET_TERM (c_sid c) h) (my_idx (config s))) (c_sid c) (s2\<lparr>ctrl := c\<rparr>) = Some s'"
      using assms s1 s2 l ch k by (simp add: judge_requests_def)
    then have "s' = upd_ctrl (\<lambda>c'. c'\<lparr>c_sid := SID_SET_IDX (SID_SET_TERM (c_sid c) h) (my_idx (config s))\<rparr>) (s2\<lparr>ctrl := c\<rparr>)"
      by (simp add: server_update_sid_def)
    moreover have "cid (config s2) = cid (config s)" "log_len (slog s2) = log_len (slog s)"
      using revoke_sel [OF s1] fill_nc_buf_sel [OF s2] by simp_all
    ultimately show thesis using raise [OF s1 s2 l ch True] k by simp
  next
    case False
    then have "cast_vote ib best (s2\<lparr>ctrl := c\<rparr>) = Some s'"
      using assms s1 s2 l ch k by (simp add: judge_requests_def)
    then show thesis using vote [OF s1 s2 l ch False] k by simp
  qed
qed

lemma dropped_request:
  assumes "dropped c c'"
  shows "vr_sid (c_vote_req c' j) \<in> {0, vr_sid (c_vote_req c j)}"
    "vr_sid (c_vote_req c' j) \<noteq> 0 \<Longrightarrow> c_vote_req c' j = c_vote_req c j"
proof -
  consider "c_vote_req c' j = c_vote_req c j" | "c_vote_req c' j = (c_vote_req c j)\<lparr>vr_sid := 0\<rparr>"
    using assms by (auto simp: dropped_def)
  then show "vr_sid (c_vote_req c' j) \<in> {0, vr_sid (c_vote_req c j)}"
    "vr_sid (c_vote_req c' j) \<noteq> 0 \<Longrightarrow> c_vote_req c' j = c_vote_req c j"
    by (cases; simp)+
qed

lemma sid_zero [simp]: "SID_GET_TERM 0 = 0" "SID_GET_L 0 = 0" "SID_GET_IDX 0 = 0"
  by (simp_all add: SID_GET_TERM_def SID_GET_L_def SID_GET_IDX_def)

text \<open>The control data and the best SID after the first loop.\<close>

lemma poll_vote_requests_cases:
  assumes "poll_vote_requests ib s = Some s'"
  obtains (same) "c_sid (ctrl s') = c_sid (ctrl s)"
  | (hb) "\<not> has_L (c_sid (ctrl s))" "c_sid (ctrl s') = c_hb (ctrl s) (unat (SID_GET_IDX (c_sid (ctrl s))))"
      "SID_GET_TERM (c_sid (ctrl s')) = SID_GET_TERM (c_sid (ctrl s))"
  | (judge) best_sid c where "\<not> has_L (c_sid (ctrl s))" "dropped (ctrl s) c"
      "SID_SET_L (c_sid (ctrl s)) < best_sid" "best_sid \<in> (\<lambda>j. vr_sid (c_vote_req (ctrl s) j)) ` {0..<group_n s}"
      "judge_requests ib (SID_SET_L (c_sid (ctrl s))) best_sid (s\<lparr>ctrl := c\<rparr>) = Some s'"
proof -
  let ?sid = "c_sid (ctrl s)" and ?hb = "c_hb (ctrl s) (unat (SID_GET_IDX (c_sid (ctrl s))))"
  obtain b c where sc: "scan_requests (me s) 0 (group_n s) (SID_SET_L ?sid) (ctrl s) = (b, c)"
    by (cases "scan_requests (me s) 0 (group_n s) (SID_SET_L ?sid) (ctrl s)")
  note scn = scan_requests_correct [OF sc]
  consider "has_L ?sid" | "\<not> has_L ?sid" "?hb \<noteq> 0 \<and> SID_GET_TERM ?hb = SID_GET_TERM ?sid"
    | "\<not> has_L ?sid" "\<not> (?hb \<noteq> 0 \<and> SID_GET_TERM ?hb = SID_GET_TERM ?sid)" "b = SID_SET_L ?sid"
    | "\<not> has_L ?sid" "\<not> (?hb \<noteq> 0 \<and> SID_GET_TERM ?hb = SID_GET_TERM ?sid)" "b \<noteq> SID_SET_L ?sid"
    by blast
  then show thesis
  proof cases
    case 1
    then show ?thesis using assms same by (simp add: poll_vote_requests_def Let_def)
  next
    case 2
    then have "server_update_sid ?hb ?sid s = Some s'" using assms by (simp add: poll_vote_requests_def Let_def)
    from update_sid_sel [OF this] show ?thesis using hb 2 by simp
  next
    case 3
    then have "s' = s\<lparr>ctrl := c\<rparr>" using assms sc by (auto simp: poll_vote_requests_def Let_def)
    then show ?thesis using same scn by (simp add: dropped_def)
  next
    case 4
    then have "judge_requests ib (SID_SET_L ?sid) b (s\<lparr>ctrl := c\<rparr>) = Some s'"
      using assms sc by (auto simp: poll_vote_requests_def Let_def split: if_splits)
    then show ?thesis using judge [of c b] scn 4 by auto
  qed
qed

text \<open>C4: a server votes at most once in a term: handling vote requests either leaves its SID, or
  adopts the SID of the leader of its own term that sent a heartbeat, or moves to a
  strictly higher term.\<close>

theorem poll_vote_requests_once_per_term:
  assumes p: "poll_vote_requests ib s = Some s'" and priv: "sid_private ib" and req: "candidate_requests s"
  shows "c_sid (ctrl s') = c_sid (ctrl s) \<or>
    c_sid (ctrl s') = c_hb (ctrl s) (unat (SID_GET_IDX (c_sid (ctrl s)))) \<and>
      SID_GET_TERM (c_sid (ctrl s')) = SID_GET_TERM (c_sid (ctrl s)) \<or>
    SID_GET_TERM (c_sid (ctrl s)) < SID_GET_TERM (c_sid (ctrl s'))"
  using p
proof (cases rule: poll_vote_requests_cases)
  case (judge best_sid c)
  let ?sid = "c_sid (ctrl s)"
  have rq: "\<not> has_L (vr_sid (c_vote_req (ctrl s) j))" "unat (SID_GET_TERM (vr_sid (c_vote_req (ctrl s) j))) + 1 < 2 ^ 55"
    if "j < group_n s" for j using req that by (auto simp: candidate_requests_def Let_def)
  have best: "SID_GET_TERM ?sid < SID_GET_TERM best_sid"
    using better_sid_term judge(3,4) rq(1) by auto
  show ?thesis
    using judge(5)
  proof (cases rule: judge_requests_cases)
    case (raise s1 s2 ix tm best h c')
    have h: "SID_GET_TERM best_sid \<le> h" "unat h < 2 ^ 55"
      using choose_request_correct [OF raise(4)] SID_GET_TERM_bound by auto
    have "SID_GET_TERM (c_sid (ctrl s')) = h" using raise(6) h(2) by (simp add: sid_simps)
    then show ?thesis using less_le_trans [OF best h(1)] by simp
  next
    case (vote s1 s2 ix tm best h c')
    have "SID_SET_L ?sid \<le> vr_sid best" "vr_sid best \<noteq> SID_SET_L ?sid"
      using choose_request_correct [OF vote(4)] vote(5) by simp_all
    moreover obtain j where j: "j < group_n s" "best = c_vote_req c j"
      using choose_request_correct [OF vote(4)] vote(5) by auto
    moreover have "vr_sid best = vr_sid (c_vote_req (ctrl s) j)"
      using dropped_request(1) [OF judge(2), of j] calculation(1,2) j(2)
        SID_SET_L_gt [OF judge(1)] by auto
    ultimately have t: "SID_GET_TERM ?sid < SID_GET_TERM (vr_sid best)"
      using better_sid_term [of ?sid "vr_sid best"] rq(1) by simp
    have "SID_GET_TERM (vr_sid best) \<le> SID_GET_TERM (c_sid (ctrl s'))"
      using cast_vote_sid [OF vote(6) priv] sid_or_candidate_term(1) rq(2) [OF j(1)]
        \<open>vr_sid best = vr_sid (c_vote_req (ctrl s) j)\<close> by metis
    then show ?thesis using less_le_trans [OF t] by simp
  qed
qed (use assms in simp_all)

section \<open>Only for a recent log\<close>

lemma log_inv_nc: "log_inv_live (l\<lparr>log_nc_buf := x\<rparr>) os oa oc \<longleftrightarrow> log_inv_live l os oa oc"
proof -
  have "chain_from (l\<lparr>log_nc_buf := x\<rparr>) = chain_from l" by (intro ext) (simp add: chain_from_def)
  then show ?thesis by (simp add: log_inv_live_def log_live_def tail_ok_def idxs_def)
qed

lemma tail_loop_last:
  assumes live: "log_live l" and ch: "chain_from l offset os" and ne: "os \<noteq> []"
  obtains t where "log_tail_loop l offset t0 = Some t" "t \<noteq> log_len l"
    "log_get_entry l t = (Some (unat t), t)" "same_header (log_entries l) (unat t) (last os)"
proof -
  obtain t where t: "log_tail_loop l offset t0 = Some t" "same_header (log_entries l) (unat t) (last os)"
    "unat t + 64 \<le> Ln l" "unat t \<noteq> En l"
    using tail_loop_correct [OF live ch, of t0] ne by auto
  have le: "unat t \<le> Ln l" using t(3) by simp
  then have "log_offset_end_distance l t \<noteq> 0" using end_distance_0 [OF live le] t(4) by auto
  then have "log_get_entry l t = (Some (unat t), t)"
    using fit_header_iff [OF le] t(3) log_live_not_empty [OF live] by (simp add: log_get_entry_def)
  moreover have "t \<noteq> log_len l" using t(3) by auto
  ultimately show thesis using that [OF t(1)] t(2) by simp
qed

lemma tail_uncached:
  assumes inv: "log_inv_live l os oa oc" and tl: "log_tail l = log_len l"
  obtains t where "log_get_tail l = Some t" "t \<noteq> log_len l"
    "log_get_entry l t = (Some (unat t), t)" "same_header (log_entries l) (unat t) (last os)"
proof -
  have live: "log_live l" and ne: "os \<noteq> []" and sx: "suffix oa os" "suffix oc oa"
    and ch: "chain_from l (log_head l) os" "chain_from l (log_apply l) oa" "chain_from l (log_commit l) oc"
    using inv by (simp_all add: log_inv_live_def)
  note none = tail_loop_none [OF get_entry_none [OF live]]
  have lst: "oa \<noteq> [] \<Longrightarrow> last oa = last os" "oc \<noteq> [] \<Longrightarrow> last oc = last os"
    using sx by (auto simp: suffix_def last_append split: if_splits)
  have gt: "log_get_tail l = do {
        tail \<leftarrow> log_tail_loop l (log_commit l) (log_len l);
        if tail \<noteq> log_len l then Some tail
        else do {
          tail \<leftarrow> log_tail_loop l (log_apply l) tail;
          if tail \<noteq> log_len l then Some tail else log_tail_loop l (log_head l) tail
        } }"
    using tl log_live_not_empty [OF live] by (simp add: log_get_tail_def)
  consider "oc \<noteq> []" | "oc = []" "oa \<noteq> []" | "oc = []" "oa = []" by blast
  then show thesis
  proof cases
    case 1
    obtain t where "log_tail_loop l (log_commit l) (log_len l) = Some t" "t \<noteq> log_len l"
      "log_get_entry l t = (Some (unat t), t)" "same_header (log_entries l) (unat t) (last oc)"
      by (rule tail_loop_last [OF live ch(3) 1])
    then show thesis using that [of t] gt lst(2) [OF 1] by simp
  next
    case 2
    obtain t where "log_tail_loop l (log_apply l) (log_len l) = Some t" "t \<noteq> log_len l"
      "log_get_entry l t = (Some (unat t), t)" "same_header (log_entries l) (unat t) (last oa)"
      by (rule tail_loop_last [OF live ch(2) 2(2)])
    then show thesis using that [of t] gt lst(1) [OF 2(2)] none ch(3) 2(1) by simp
  next
    case 3
    obtain t where "log_tail_loop l (log_head l) (log_len l) = Some t" "t \<noteq> log_len l"
      "log_get_entry l t = (Some (unat t), t)" "same_header (log_entries l) (unat t) (last os)"
      by (rule tail_loop_last [OF live ch(1) ne])
    then show thesis using that [of t] gt none ch(2,3) 3 by simp
  qed
qed

text \<open>What the voter compares with is the last entry of its log.\<close>

lemma local_last_correct:
  assumes inv: "log_inv_live (slog s) os oa oc" and tl: "oc \<noteq> [] \<or> log_tail (slog s) = log_len (slog s)"
    and fill: "fill_nc_buf s = Some s2"
  shows "local_last s2 = Some (entry_idx (log_entries (slog s)) (last os), entry_term (log_entries (slog s)) (last os))"
proof -
  let ?l = "slog s"
  obtain nb where nb: "log_entries_to_nc_buf ?l (log_nc_buf ?l (me s)) = Some (Inr nb)"
    "s2 = upd_log (\<lambda>l. l\<lparr>log_nc_buf := (log_nc_buf l)(me s := nb)\<rparr>) s"
    using fill by (auto simp: fill_nc_buf_def split: option.splits sum.splits)
  have live: "log_live ?l" and ch: "chain_from ?l (log_commit ?l) oc" and sx: "suffix oa os" "suffix oc oa"
    using inv by (simp_all add: log_inv_live_def)
  have len: "length oc \<le> MAX_NC_ENTRIES"
    using nc_buf_loop_overflow [OF live ch, of 0 "log_nc_buf ?l (me s)"] nb(1)
    by (force simp: log_entries_to_nc_buf_def not_le)
  have n: "unat (nc_len nb) = length oc" "\<forall>i<length oc. det_of ?l oc i (nc_entries nb i)"
    using nc_buf_loop_correct [OF live ch, of 0 "log_nc_buf ?l (me s)"] len nb(1)
    by (auto simp: log_entries_to_nc_buf_def)
  have l2: "slog s2 = ?l\<lparr>log_nc_buf := (log_nc_buf ?l)(me s := nb)\<rparr>" "me s2 = me s" using nb(2) by simp_all
  show ?thesis
  proof (cases "oc = []")
    case True
    then have z: "nc_len nb = 0" using n(1) by (simp add: unat_eq_0)
    have inv2: "log_inv_live (slog s2) os oa oc" using inv log_inv_nc l2 by simp
    have tl2: "log_tail (slog s2) = log_len (slog s2)" using tl True l2 by simp
    obtain t where "log_get_tail (slog s2) = Some t" "t \<noteq> log_len (slog s2)"
      "log_get_entry (slog s2) t = (Some (unat t), t)" "same_header (log_entries (slog s2)) (unat t) (last os)"
      by (rule tail_uncached [OF inv2 tl2])
    then show ?thesis using z l2 by (simp add: local_last_def Let_def same_header_def)
  next
    case False
    then have nz: "nc_len nb \<noteq> 0" using n(1) by (auto simp: unat_eq_0)
    then have "unat (nc_len nb - 1) = length oc - 1"
      using n(1) False by (subst unat_sub) (auto simp: word_le_nat_alt Suc_le_eq)
    moreover have "last oc = last os" using False sx by (auto simp: suffix_def last_append)
    then have "oc ! (length oc - 1) = last os" using False by (simp add: last_conv_nth)
    moreover have "det_of ?l oc (length oc - 1) (nc_entries nb (length oc - 1))" using n(2) False by simp
    ultimately show ?thesis using nz l2 by (simp add: local_last_def Let_def det_of_def)
  qed
qed

text \<open>C18: a server only votes for a candidate whose log is at least as recent as its own: if
  it ends up with a SID that names another server and that is not a heartbeat's, it is the
  SID of a vote request whose last entry is not older than the last entry of the
  voter's log, and whose term is higher than the voter's.\<close>

theorem poll_vote_requests_up_to_date:
  assumes p: "poll_vote_requests ib s = Some s'" and priv: "sid_private ib" and req: "candidate_requests s"
    and inv: "log_inv_live (slog s) os oa oc" and tl: "oc \<noteq> [] \<or> log_tail (slog s) = log_len (slog s)"
    and changed: "c_sid (ctrl s') \<noteq> c_sid (ctrl s)" "SID_GET_IDX (c_sid (ctrl s')) \<noteq> my_idx (config s)"
    and no_hb: "SID_GET_TERM (c_sid (ctrl s')) \<noteq> SID_GET_TERM (c_sid (ctrl s))"
  shows "\<exists>j<group_n s. c_sid (ctrl s') = vr_sid (c_vote_req (ctrl s) j) \<and>
    as_recent (entry_term (log_entries (slog s)) (last os), entry_idx (log_entries (slog s)) (last os))
      (last_of (c_vote_req (ctrl s) j)) \<and>
    SID_GET_TERM (c_sid (ctrl s)) < SID_GET_TERM (c_sid (ctrl s'))"
  using p
proof (cases rule: poll_vote_requests_cases)
  case (judge best_sid c)
  show ?thesis
    using judge(5)
  proof (cases rule: judge_requests_cases)
    case (raise s1 s2 ix tm best h c')
    then show ?thesis using changed(2) by (simp add: sid_simps)
  next
    case (vote s1 s2 ix tm best h c')
    let ?sid = "c_sid (ctrl s)"
    note ch = choose_request_correct [OF vote(4)]
    have gt: "SID_SET_L ?sid < vr_sid best" using ch vote(5) by (simp add: order_less_le)
    obtain j where j: "j < group_n s" "best = c_vote_req c j" using ch vote(5) by auto
    have "vr_sid best \<noteq> 0" using gt by auto
    then have bj: "best = c_vote_req (ctrl s) j" using dropped_request(2) [OF judge(2)] j(2) by simp
    have lim: "\<not> has_L (vr_sid best)" "unat (SID_GET_TERM (vr_sid best)) + 1 < 2 ^ 55"
      using req j(1) bj by (auto simp: candidate_requests_def Let_def)
    have "my_idx (config (s2\<lparr>ctrl := c'\<rparr>)) = my_idx (config s)" using vote(7) by simp
    then have sid: "c_sid (ctrl s') = vr_sid best"
      using cast_vote_sid [OF vote(6) priv] sid_or_candidate_term(2) [OF _ lim(2)] changed(2) by metis
    have "slog s1 = slog s" using revoke_sel(2) [OF vote(1)] by simp
    then have "(ix, tm) = (entry_idx (log_entries (slog s)) (last os), entry_term (log_entries (slog s)) (last os))"
      using local_last_correct [OF _ _ vote(2), of os oa oc] inv tl vote(3) by simp
    then have "as_recent (entry_term (log_entries (slog s)) (last os), entry_idx (log_entries (slog s)) (last os)) (last_of best)"
      using ch by simp
    then show ?thesis using sid bj j(1) better_sid_term [OF gt lim(1)] by auto
  qed
qed (use changed no_hb in simp_all)

section \<open>Instances\<close>

text \<open>
  A voter in term 3 with two entries in its log, the last one of term 2, and a vote request
  of server 1 in term 4, in a group of two; the completions are those of the replicated
  vote and of the acknowledgement.
\<close>

definition demo_voter_cid :: dare_cid where
  "demo_voter_cid = \<lparr>epoch = 0, size0 = 2, size1 = 0, cstate = 0, bitmask = 3\<rparr>"

definition demo_voter :: "u64 \<Rightarrow> wc list list srv" where
  "demo_voter tm = upd_config (\<lambda>g. g\<lparr>cid := demo_voter_cid\<rparr>)
     (upd_ctrl (\<lambda>c. c\<lparr>c_sid := 0x600, c_vote_req := (c_vote_req c)(1 :=
          \<lparr>vr_sid = 0x801, vr_index = 5, vr_term = tm, vr_cid = demo_voter_cid\<rparr>)\<rparr>)
       (demo_srv (demo_log 2 128) [[], [\<lparr>wc_wr_id = 2049, wc_stat = IBV_WC_SUCCESS\<rparr>],
                                   [], [\<lparr>wc_wr_id = 3073, wc_stat = IBV_WC_SUCCESS\<rparr>]]))"

lemma demo_voter_sel:
  "c_sid (ctrl (demo_voter tm)) = 0x600" "slog (demo_voter tm) = demo_log 2 128"
  "my_idx (config (demo_voter tm)) = 0" "group_n (demo_voter tm) = 2"
  "c_vote_req (ctrl (demo_voter tm)) (Suc 0) = \<lparr>vr_sid = 0x801, vr_index = 5, vr_term = tm, vr_cid = demo_voter_cid\<rparr>"
  "vr_sid (c_vote_req (ctrl (demo_voter tm)) 0) = 0" "c_hb (ctrl (demo_voter tm)) i = 0"
  by (simp_all add: demo_voter_def demo_srv_def demo_ctrl_def demo_config_def demo_voter_cid_def
      get_group_size_def cid_states)

lemma demo_sids [simp]:
  "SID_GET_TERM 0x600 = 3" "SID_GET_TERM 0x800 = 4" "SID_GET_TERM 0x801 = 4" "SID_GET_L 0x801 = 0"
  "SID_GET_IDX 0x801 = 1"
  by (simp_all add: SID_GET_TERM_def SID_GET_L_def SID_GET_IDX_def drop_bit_eq_div)

lemma demo_voter_requests: "candidate_requests (demo_voter tm)"
  by (auto simp: candidate_requests_def demo_voter_sel Let_def dest!: less_2_cases)

lemma poll_vote_requests_once_per_term_witness:
  "\<exists>s'. poll_vote_requests demo_ib (demo_voter 1) = Some s' \<and> 3 < SID_GET_TERM (c_sid (ctrl s'))"
proof -
  have "map_option (\<lambda>s. c_sid (ctrl s)) (poll_vote_requests demo_ib (demo_voter 1)) = Some 0x800" by code_simp
  then obtain s' where s': "poll_vote_requests demo_ib (demo_voter 1) = Some s'" "c_sid (ctrl s') = 0x800" by auto
  show ?thesis
    using poll_vote_requests_once_per_term [OF s'(1) demo_sid_private demo_voter_requests] s'
    by (auto simp: demo_voter_sel)
qed

lemma poll_vote_requests_up_to_date_witness:
  "\<exists>s'. poll_vote_requests demo_ib (demo_voter 3) = Some s' \<and> SID_GET_IDX (c_sid (ctrl s')) = 1 \<and>
    (\<exists>j<2. c_sid (ctrl s') = vr_sid (c_vote_req (ctrl (demo_voter 3)) j) \<and>
      as_recent (2, 2) (last_of (c_vote_req (ctrl (demo_voter 3)) j)))"
proof -
  have "map_option (\<lambda>s. c_sid (ctrl s)) (poll_vote_requests demo_ib (demo_voter 3)) = Some 0x801" by code_simp
  then obtain s' where s': "poll_vote_requests demo_ib (demo_voter 3) = Some s'" "c_sid (ctrl s') = 0x801" by auto
  have inv: "log_inv_live (slog (demo_voter 3)) [0, 64] [0, 64] [64]"
    using demo_inv [of 2] by (simp add: demo_voter_sel)
  have "log_entries (demo_log 2 128) = demo_mem 2" by (simp add: demo_log_def)
  then show ?thesis
    using poll_vote_requests_up_to_date [OF s'(1) demo_sid_private demo_voter_requests inv] s'
    by (auto simp: demo_voter_sel)
qed

end
