(* ===== verification/Dare_Ud.thy ===== *)
theory Dare_Ud
  imports Dare_Election
begin

text \<open>
  The datagram side of a server, from \<^verbatim>\<open>dare_ibv_ud.c\<close>: sending a message and waiting for its
  completion, the queue of the proxy's requests, joining the group, the three-way
  handshake that establishes the reliable connections, and the replies to a joining
  server.  A received message has the shape its sender built; a handler that is given
  another shape would read past it and has no result.  Messages are far below the
  smallest MTU, so the truncation of longer ones is left out, as are the flags that
  choose how the adapter copies the payload.
\<close>

definition MSG_NONE :: u8 where "MSG_NONE = 0"
definition MSG_ERROR :: u8 where "MSG_ERROR = 13"
definition RC_SYN :: u8 where "RC_SYN = 1"
definition RC_SYNACK :: u8 where "RC_SYNACK = 2"
definition RC_ACK :: u8 where "RC_ACK = 3"
definition CSM_REPLY :: u8 where "CSM_REPLY = 203"
definition JOIN :: u8 where "JOIN = 211"
definition CFG_REPLY :: u8 where "CFG_REPLY = 214"
definition REQ_MAJORITY :: int where "REQ_MAJORITY = 13"

lemmas ud_types = MSG_NONE_def MSG_ERROR_def RC_SYN_def RC_SYNACK_def RC_ACK_def CSM_REPLY_def
  JOIN_def CFG_REPLY_def

section \<open>Sending\<close>

text \<open>The loop that polls the send queue until there is a completion.\<close>

partial_function (option) ud_wait :: "'e ibv \<Rightarrow> 'e \<Rightarrow> (int \<times> wc_status \<times> 'e) option" where
  "ud_wait ib e = (case ud_poll_scq ib e of (n, st, e1) \<Rightarrow> if n = 0 then ud_wait ib e1 else Some (n, st, e1))"

declare ud_wait.simps [code]

definition send_message :: "'e ibv \<Rightarrow> ud_ep option \<Rightarrow> ud_msg \<Rightarrow> 'e srv \<Rightarrow> (int \<times> 'e srv) option" where
  "send_message ib dest msg s =
     (let (rc, e) = ud_post ib dest msg (env s)
      in if rc \<noteq> 0 then Some (1, s\<lparr>env := e\<rparr>)
         else do {
           (n, st, e1) \<leftarrow> ud_wait ib e;
           Some (if n < 0 then 1 else if st \<noteq> IBV_WC_SUCCESS then 1 else 0, s\<lparr>env := e1\<rparr>)
         })"

definition ud_send_message :: "'e ibv \<Rightarrow> ud_ep \<Rightarrow> ud_msg \<Rightarrow> 'e srv \<Rightarrow> (int \<times> 'e srv) option" where
  "ud_send_message ib ep = send_message ib (Some ep)"

definition mcast_send_message :: "'e ibv \<Rightarrow> ud_msg \<Rightarrow> 'e srv \<Rightarrow> (int \<times> 'e srv) option" where
  "mcast_send_message ib = send_message ib None"

section \<open>Requests of the proxy\<close>

text \<open>Appending an entry in the current term; \<open>prev_log_entry_head\<close> is updated by the log.\<close>

definition append_entry :: "u64 \<Rightarrow> u16 \<Rightarrow> u8 \<Rightarrow> u8 list \<Rightarrow> 'e srv \<Rightarrow> (u64 \<times> 'e srv) option" where
  "append_entry req_id clt_id typ data s = do {
     (idx, l, ph) \<leftarrow> log_append_entry (slog s) (prev_log_entry_head s) (SID_GET_TERM (c_sid (ctrl s)))
        req_id clt_id typ data;
     Some (idx, s\<lparr>slog := l, prev_log_entry_head := ph\<rparr>)
   }"

text \<open>All requests of the queue are appended in order; the lock is held all the time.\<close>

fun drain_queue :: "tailq_entry list \<Rightarrow> 'e srv \<Rightarrow> 'e srv option" where
  "drain_queue [] s = Some s"
| "drain_queue (n # q) s = do {
     (idx, s1) \<leftarrow> append_entry (tq_req_id n) (tq_connection_id n) (tq_type n) (tq_cmd n) s;
     drain_queue q (s1\<lparr>last_write_csm_idx := idx, tailhead := q\<rparr>)
   }"

definition get_tailq_message :: "'e srv \<Rightarrow> 'e srv option" where
  "get_tailq_message s = drain_queue (tailhead s) s"

section \<open>Replies to a joining server\<close>

definition find_lid :: "u16 \<Rightarrow> 'e srv \<Rightarrow> nat \<Rightarrow> nat" where
  "find_lid lid s n = (case filter (\<lambda>i. ud_lid (ib_ud (ep_at s i)) = lid) [0..<n] of [] \<Rightarrow> n | i # _ \<Rightarrow> i)"

text \<open>
  \<^verbatim>\<open>ud_send_clt_reply\<close>: there is no endpoint for an unknown LID, and only replies of type
  CONFIG are built.
\<close>

definition ud_send_clt_reply :: "'e ibv \<Rightarrow> u16 \<Rightarrow> u64 \<Rightarrow> u8 \<Rightarrow> 'e srv \<Rightarrow> (int \<times> 'e srv) option" where
  "ud_send_clt_reply ib lid req_id typ s = do {
     ep \<leftarrow> ep_search (endpoints s) lid;
     let s1 = s\<lparr>endpoints := ep_update (endpoints s) lid (\<lambda>ep. ep\<lparr>last_req_id := req_id, committed := True\<rparr>)\<rparr>;
     if typ \<noteq> CONFIG then None
     else
       let reply = \<lparr>rp_hdr = \<lparr>uh_id = req_id, uh_type = CFG_REPLY, uh_gid = [], uh_slid = 0\<rparr>,
             rp_idx = of_nat (find_lid lid s1 (unat (get_extended_group_size (cid (config s1))))),
             rp_cid = cid (config s1), rp_cid_idx = ep_cid_idx ep, rp_head = log_head (slog s1)\<rparr>
       in do {
         (rc, s2) \<leftarrow> ud_send_message ib (ep_ud ep) (Msg_cfg reply) s1;
         Some (if rc \<noteq> 0 then 1 else 0, s2)
       }
   }"

text \<open>The answer to a read request, from the request stored with the endpoint.\<close>

definition ud_clt_answer_read_request :: "'e ibv \<Rightarrow> dare_ep \<Rightarrow> 'e srv \<Rightarrow> 'e srv option" where
  "ud_clt_answer_read_request ib ep s =
     (let s1 = s\<lparr>endpoints := ep_update (endpoints s) (ep_lid ep) (\<lambda>ep. ep\<lparr>wait_for_idx := 0\<rparr>)\<rparr>;
          (rc, data, e) = sm_apply_cmd ib (last_read_request ep) (env s1);
          hdr = \<lparr>uh_id = from_le (take 8 (last_read_request ep)), uh_type = CSM_REPLY, uh_gid = [], uh_slid = 0\<rparr>
      in map_option snd (ud_send_message ib (ep_ud ep) (Msg_clt hdr data) (s1\<lparr>env := e\<rparr>)))"

section \<open>Joining the group\<close>

definition ud_join_cluster :: "'e ibv \<Rightarrow> 'e srv \<Rightarrow> (int \<times> 'e srv) option" where
  "ud_join_cluster ib s =
     mcast_send_message ib (Msg_hdr \<lparr>uh_id = request_id s, uh_type = JOIN, uh_gid = dev_gid ib, uh_slid = unique_slid ib\<rparr>) s"

text \<open>
  \<^verbatim>\<open>wc_to_ud_ep\<close> returns before it sets the queue pair number when there is no address handle;
  no caller looks at its result.
\<close>

definition wc_to_ud_ep :: "'e ibv \<Rightarrow> nat \<Rightarrow> ud_wc \<Rightarrow> gid \<Rightarrow> u16 \<Rightarrow> 'e srv \<Rightarrow> 'e srv" where
  "wc_to_ud_ep ib i w dest_gid slid s =
     (let (ah, e) = ud_ah_create ib (uw_slid w) dest_gid (env s)
      in upd_ep i (\<lambda>ep. ep\<lparr>ib_ud := (if ah then (ib_ud ep)\<lparr>ud_lid := slid, ud_gid := dest_gid, ud_ah := True, ud_qpn := uw_src_qp w\<rparr>
             else (ib_ud ep)\<lparr>ud_lid := slid, ud_gid := dest_gid, ud_ah := False\<rparr>)\<rparr>) (s\<lparr>env := e\<rparr>))"

text \<open>
  The search through the servers from the last to the first: \<open>Inl\<close> when a server that is
  on has the LID, otherwise the lowest index that is off, or \<open>free_idx\<close>.
\<close>

fun join_scan :: "u16 \<Rightarrow> nat \<Rightarrow> nat \<Rightarrow> 'e srv \<Rightarrow> unit + nat" where
  "join_scan lid 0 free_idx s = Inr free_idx"
| "join_scan lid (Suc i) free_idx s =
     (if CID_IS_SERVER_ON (cid (config s)) (of_nat i)
      then if ud_lid (ib_ud (ep_at s i)) = lid then Inl () else join_scan lid i free_idx s
      else join_scan lid i i s)"

text \<open>The new server gets the index \<open>free_idx\<close>; one past the end of the group extends it.\<close>

definition joined_cid :: "dare_cid \<Rightarrow> nat \<Rightarrow> dare_cid" where
  "joined_cid c free_idx =
     (let c1 = CID_SERVER_ADD c (of_nat free_idx)
      in if free_idx = unat (size0 c)
         then c1\<lparr>cstate := CID_EXTENDED, size1 := size0 c + 1, epoch := epoch c + 1\<rparr> else c1)"

definition init_new_server :: "'e ibv \<Rightarrow> ud_wc \<Rightarrow> ud_hdr \<Rightarrow> nat \<Rightarrow> 'e srv \<Rightarrow> 'e srv" where
  "init_new_server ib w request free_idx s =
     (let s1 = wc_to_ud_ep ib free_idx w (uh_gid request) (uh_slid request) s;
          s2 = upd_server free_idx (\<lambda>v. v\<lparr>srv_ep := (srv_ep v)\<lparr>rc_connected := False\<rparr>, fail_count := 0,
                 next_lr_step := LR_GET_WRITE, send_flag := True, lr_send_count := 0\<rparr>) s1
      in upd_ctrl (\<lambda>c. c\<lparr>c_vote_ack := (c_vote_ack c)(free_idx := log_len (slog s2)),
           c_apply_offsets := (c_apply_offsets c)(free_idx := log_head (slog s2))\<rparr>) s2)"

definition add_server :: "'e ibv \<Rightarrow> ud_wc \<Rightarrow> ud_hdr \<Rightarrow> nat \<Rightarrow> 'e srv \<Rightarrow> (int \<times> 'e srv) option" where
  "add_server ib w request free_idx s =
     (let c = joined_cid (cid (config s)) free_idx;
          s1 = upd_config (\<lambda>g. g\<lparr>cid := c, cfg_req_id := uh_id request, cfg_clt_id := uw_slid w\<rparr>) s
      in if MAX_SERVER_COUNT \<le> free_idx then None
         else do {
           (idx, s2) \<leftarrow> append_entry (uh_id request) (uh_slid request) CONFIG (cid_bytes c)
              (init_new_server ib w request free_idx s1);
           Some (0, s2\<lparr>endpoints := ep_update (endpoints s2) (uh_slid request)
              (\<lambda>ep. ep\<lparr>last_req_id := uh_id request, ep_cid_idx := idx, committed := False\<rparr>)\<rparr>)
         })"

text \<open>The endpoint of the request, created when its LID is new.\<close>

definition join_endpoint :: "'e ibv \<Rightarrow> ud_wc \<Rightarrow> ud_hdr \<Rightarrow> 'e srv \<Rightarrow> 'e srv option" where
  "join_endpoint ib w request s = do {
     s1 \<leftarrow> (case ep_search (endpoints s) (uh_slid request) of
              Some _ \<Rightarrow> Some s
            | None \<Rightarrow>
                let (ah, e) = ud_ah_create ib (uh_slid request) (uh_gid request) (env s) in do {
                  (ep, t) \<leftarrow> ep_insert (endpoints s) (raw_ep ib (env s)) ah (uh_slid request) (uh_gid request);
                  Some (s\<lparr>env := e, endpoints := t\<rparr>)
                });
     Some (s1\<lparr>endpoints := ep_update (endpoints s1) (uh_slid request)
        (\<lambda>ep. ep\<lparr>ep_ud := (ep_ud ep)\<lparr>ud_qpn := uw_src_qp w\<rparr>\<rparr>)\<rparr>)
   }"

definition handle_server_join_request :: "'e ibv \<Rightarrow> ud_wc \<Rightarrow> ud_hdr \<Rightarrow> 'e srv \<Rightarrow> (int \<times> 'e srv) option" where
  "handle_server_join_request ib w request s =
     (if cstate (cid (config s)) \<noteq> CID_STABLE then Some (0, s)
      else do {
        s1 \<leftarrow> join_endpoint ib w request s;
        ep \<leftarrow> ep_search (endpoints s1) (uh_slid request);
        case join_scan (uw_slid w) (unat (size0 (cid (config s1)))) (unat (size0 (cid (config s1)))) s1 of
          Inl _ \<Rightarrow>
            if last_req_id ep = uh_id request
            then if \<not> committed ep then Some (0, s1)
                 else do {
                   (rc, s2) \<leftarrow> ud_send_clt_reply ib (uw_slid w) (uh_id request) CONFIG s1;
                   Some (if rc \<noteq> 0 then 1 else 0, s2)
                 }
            else Some (0, s1)
        | Inr free_idx \<Rightarrow> add_server ib w request free_idx s1
      })"

definition handle_server_join_reply :: "reconf_rep \<Rightarrow> 'e srv \<Rightarrow> 'e srv" where
  "handle_server_join_reply reply s =
     (if uh_id (rp_hdr reply) < request_id s then s
      else upd_config (\<lambda>g. g\<lparr>my_idx := rp_idx reply, cid := rp_cid reply, cid_idx := rp_cid_idx reply,
                             cid_offset := rp_head reply\<rparr>)
             (upd_log (\<lambda>l. l\<lparr>log_head := rp_head reply\<rparr>) (s\<lparr>request_id := request_id s + 1\<rparr>)))"

section \<open>Establishing the connections\<close>

definition mtu_value :: "u32 \<Rightarrow> nat" where
  "mtu_value m = (if m = 1 then 256 else if m = 2 then 512 else if m = 3 then 1024
     else if m = 4 then 2048 else if m = 5 then 4096 else 0)"

definition sizeof_rc_syn :: nat where "sizeof_rc_syn = 80"

definition syn_of :: "'e ibv \<Rightarrow> u64 \<Rightarrow> u8 \<Rightarrow> u8 \<Rightarrow> u32 list \<Rightarrow> 'e srv \<Rightarrow> rc_syn" where
  "syn_of ib req_id typ sz qpns s =
     \<lparr>sy_hdr = \<lparr>uh_id = req_id, uh_type = typ, uh_gid = dev_gid ib, uh_slid = unique_slid ib\<rparr>,
      sy_log_rm = \<lparr>raddr = ib_region_addr ib R_log, rkey = ib_region_rkey ib R_log\<rparr>,
      sy_ctrl_rm = \<lparr>raddr = ib_region_addr ib R_ctrl, rkey = ib_region_rkey ib R_ctrl\<rparr>,
      sy_mtu = dev_mtu ib, sy_idx = my_idx (config s), sy_size = sz, sy_qpns = qpns\<rparr>"

definition qpns_of :: "'e ibv \<Rightarrow> nat \<Rightarrow> u32 list" where
  "qpns_of ib i = [qp_num ib i LOG_QP, qp_num ib i CTRL_QP]"

definition ud_exchange_rc_info :: "'e ibv \<Rightarrow> 'e srv \<Rightarrow> (int \<times> 'e srv) option" where
  "ud_exchange_rc_info ib s =
     (let n = get_extended_group_size (cid (config s)) in
      if mtu_value (dev_mtu ib) < sizeof_rc_syn + 2 * unat n * 4 then Some (1, s)
      else mcast_send_message ib (Msg_syn (syn_of ib (request_id s) RC_SYN n (concat (map (qpns_of ib) [0..<unat n])) s)) s)"

definition ud_update_rc_info :: "'e ibv \<Rightarrow> 'e srv \<Rightarrow> (int \<times> 'e srv) option" where
  "ud_update_rc_info ib s =
     (if \<forall>i\<in>set [0..<unat (get_extended_group_size (cid (config s)))].
           i = me s \<or> \<not> CID_IS_SERVER_ON (cid (config s)) (of_nat i) \<or> rc_connected (ep_at s i)
      then Some (0, s) else ud_exchange_rc_info ib s)"

text \<open>What a SYN or SYNACK says about its sender, \<open>lq\<close> and \<open>cq\<close> being the queue pairs meant for us.\<close>

definition learn_peer :: "'e ibv \<Rightarrow> ud_wc \<Rightarrow> rc_syn \<Rightarrow> u32 \<Rightarrow> u32 \<Rightarrow> 'e srv \<Rightarrow> 'e srv" where
  "learn_peer ib w m lq cq s =
     (let i = unat (sy_idx m); s1 = wc_to_ud_ep ib i w (uh_gid (sy_hdr m)) (uh_slid (sy_hdr m)) s
      in upd_ep i (\<lambda>ep. ep\<lparr>rmt_mr := (rmt_mr ep)(LOG_QP := sy_log_rm m, CTRL_QP := sy_ctrl_rm m),
            rc_qps := (rc_qps ep)(LOG_QP := (rc_qps ep LOG_QP)\<lparr>rqpn := lq\<rparr>, CTRL_QP := (rc_qps ep CTRL_QP)\<lparr>rqpn := cq\<rparr>),
            ib_mtu := (if sy_mtu m > dev_mtu ib then dev_mtu ib else sy_mtu m)\<rparr>) s1)"

text \<open>The CTRL queue pair is connected, the LOG queue pair only by the leader.\<close>

definition connect_peer :: "'e ibv \<Rightarrow> u8 \<Rightarrow> 'e srv \<Rightarrow> int \<times> 'e srv" where
  "connect_peer ib idx s =
     and_then (and_then (rc_connect_server ib idx CTRL_QP s)
       (\<lambda>s. if has_L (c_sid (ctrl s)) \<and> SID_GET_IDX (c_sid (ctrl s)) = my_idx (config s)
            then rc_connect_server ib idx LOG_QP s else (0, s))) (\<lambda>s. (0, s))"

definition handle_rc_syn :: "'e ibv \<Rightarrow> ud_wc \<Rightarrow> rc_syn \<Rightarrow> 'e srv \<Rightarrow> (int \<times> 'e srv) option" where
  "handle_rc_syn ib w m s =
     (let i = unat (sy_idx m) in
      if \<not> CID_IS_SERVER_ON (cid (config s)) (sy_idx m) then Some (0, s)
      else if my_idx (config s) \<ge> sy_size m then Some (0, s)
      else if \<not> rc_connected (ep_at s i) \<and> length (sy_qpns m) \<le> 2 * me s + 1 then None
      else
        let (rc, s1) = (if rc_connected (ep_at s i) then (0, s)
                        else connect_peer ib (sy_idx m)
                          (learn_peer ib w m (sy_qpns m ! (2 * me s)) (sy_qpns m ! (2 * me s + 1)) s))
        in if rc \<noteq> 0 then Some (1, s1)
           else do {
             (rc, s2) \<leftarrow> ud_send_message ib (ib_ud (ep_at s1 i))
                (Msg_syn (syn_of ib (uh_id (sy_hdr m)) RC_SYNACK 1 (qpns_of ib i) s1)) s1;
             Some (if rc \<noteq> 0 then 1 else 0, s2)
           })"

text \<open>The number of connected servers of the group other than the server itself.\<close>

definition connections :: "'e srv \<Rightarrow> nat" where
  "connections s = length (filter (\<lambda>i. i \<noteq> me s \<and> CID_IS_SERVER_ON (cid (config s)) (of_nat i) \<and> rc_connected (ep_at s i))
     [0..<group_n s])"

definition handle_rc_synack :: "'e ibv \<Rightarrow> ud_wc \<Rightarrow> rc_syn \<Rightarrow> 'e srv \<Rightarrow> (int \<times> 'e srv) option" where
  "handle_rc_synack ib w m s =
     (let i = unat (sy_idx m) in
      if \<not> CID_IS_SERVER_ON (cid (config s)) (sy_idx m) then Some (0, s)
      else if \<not> rc_connected (ep_at s i) \<and> length (sy_qpns m) \<le> 1 then None
      else
        let fresh = \<not> rc_connected (ep_at s i);
            (rc, s1) = (if \<not> fresh then (0, s)
                        else connect_peer ib (sy_idx m) (upd_ep i (\<lambda>ep. ep\<lparr>rc_connected := True\<rparr>)
                          (learn_peer ib w m (sy_qpns m ! 0) (sy_qpns m ! 1) s)))
        in if rc \<noteq> 0 then Some (1, s1)
           else
             let ret = (if fresh \<and> connections s1 \<ge> group_n s1 div 2 then REQ_MAJORITY else 0)
             in do {
               (rc, s2) \<leftarrow> ud_send_message ib (ib_ud (ep_at s1 i))
                  (Msg_ack \<lparr>ak_hdr = \<lparr>uh_id = uh_id (sy_hdr m), uh_type = RC_ACK, uh_gid = [], uh_slid = 0\<rparr>,
                            ak_idx = my_idx (config s1)\<rparr>) s1;
               Some (if rc \<noteq> 0 then 1 else ret, s2)
             })"

definition handle_rc_ack :: "rc_ack \<Rightarrow> 'e srv \<Rightarrow> int \<times> 'e srv" where
  "handle_rc_ack m s =
     (let i = unat (ak_idx m) in
      if \<not> CID_IS_SERVER_ON (cid (config s)) (ak_idx m) then (0, s)
      else if rc_connected (ep_at s i) then (0, s)
      else let s1 = upd_ep i (\<lambda>ep. ep\<lparr>rc_connected := True\<rparr>) s
           in (if connections s1 < group_n s1 div 2 then 0 else REQ_MAJORITY, s1))"

section \<open>Receiving\<close>

fun msg_hdr :: "ud_msg \<Rightarrow> ud_hdr" where
  "msg_hdr (Msg_hdr h) = h"
| "msg_hdr (Msg_cfg r) = rp_hdr r"
| "msg_hdr (Msg_syn m) = sy_hdr m"
| "msg_hdr (Msg_ack m) = ak_hdr m"
| "msg_hdr (Msg_clt h d) = h"

definition hs_type :: "u8 \<Rightarrow> int \<Rightarrow> u8" where
  "hs_type typ rc = (if rc = 0 then MSG_NONE else if rc = REQ_MAJORITY then typ else MSG_ERROR)"

definition handle_message_from_client :: "'e ibv \<Rightarrow> ud_wc \<Rightarrow> ud_msg \<Rightarrow> 'e srv \<Rightarrow> (u8 \<times> 'e srv) option" where
  "handle_message_from_client ib w msg s =
     (let h = msg_hdr msg; typ = uh_type h in
      if typ = JOIN
      then if \<not> is_leader s then Some (typ, s)
           else map_option (\<lambda>(rc, t). (if rc \<noteq> 0 then MSG_ERROR else typ, t)) (handle_server_join_request ib w h s)
      else if typ = RC_SYN
      then (case msg of Msg_syn m \<Rightarrow>
              map_option (\<lambda>(rc, t). (if rc \<noteq> 0 then MSG_ERROR else MSG_NONE, t)) (handle_rc_syn ib w m s) | _ \<Rightarrow> None)
      else if typ = RC_SYNACK
      then (case msg of Msg_syn m \<Rightarrow> map_option (\<lambda>(rc, t). (hs_type typ rc, t)) (handle_rc_synack ib w m s) | _ \<Rightarrow> None)
      else if typ = RC_ACK
      then (case msg of Msg_ack m \<Rightarrow> (case handle_rc_ack m s of (rc, t) \<Rightarrow> Some (hs_type typ rc, t)) | _ \<Rightarrow> None)
      else if typ = CFG_REPLY
      then (case msg of Msg_cfg r \<Rightarrow> Some (typ, handle_server_join_reply r s) | _ \<Rightarrow> None)
      else Some (typ, s))"

partial_function (option) ud_get_message :: "'e ibv \<Rightarrow> 'e srv \<Rightarrow> (u8 \<times> 'e srv) option" where
  "ud_get_message ib s =
     (case ud_poll_rcq ib (env s) of (ne, w, msg, e) \<Rightarrow>
        let s1 = s\<lparr>env := e\<rparr>; rearm = (\<lambda>t. t\<lparr>env := ud_post_one_receive ib (uw_wr_id w) (env t)\<rparr>)
        in if ne < 0 then Some (MSG_ERROR, s1)
           else if ne = 0 then Some (MSG_NONE, s1)
           else if uw_stat w \<noteq> IBV_WC_SUCCESS then Some (MSG_ERROR, s1)
           else if uw_slid w = dev_lid ib \<or> \<not> uw_recv w then ud_get_message ib (rearm s1)
           else map_option (\<lambda>(typ, t). (typ, rearm t)) (handle_message_from_client ib w msg s1))"

declare ud_get_message.simps [code]

end
