(* ===== verification/Dare_Normal.thy ===== *)
theory Dare_Normal
  imports Dare_Ud
begin

text \<open>
  The work of a server between elections, from \<^verbatim>\<open>dare_server.c\<close>: following the CONFIG and HEAD
  entries of the log, persisting, committing and applying entries, pruning the log,
  removing servers that do not respond, and the step from candidate to leader.
  A loop that never ends, the end of the process and undefined behaviour are \<open>None\<close>.
\<close>

definition NOW :: rat where "NOW = 1 / 1000000000"

definition entry_sender :: "mem \<Rightarrow> nat \<Rightarrow> u8" where
  "entry_sender m p = rd8 m (p + off_sender)"

text \<open>Every other type than these three is a command of the state machine.\<close>

definition is_csm :: "mem \<Rightarrow> nat \<Rightarrow> bool" where
  "is_csm m p \<longleftrightarrow> entry_type m p \<noteq> CONFIG \<and> entry_type m p \<noteq> NOOP \<and> entry_type m p \<noteq> HEAD"

abbreviation ext_n :: "'e srv \<Rightarrow> nat" where
  "ext_n s \<equiv> unat (get_extended_group_size (cid (config s)))"

section \<open>CONFIG and HEAD entries\<close>

definition set_cfg_req :: "u64 \<Rightarrow> u16 \<Rightarrow> 'e srv \<Rightarrow> 'e srv" where
  "set_cfg_req req_id clt_id = upd_config (\<lambda>g. g\<lparr>cfg_req_id := req_id, cfg_clt_id := clt_id\<rparr>)"

definition clear_snapshot :: "'e srv \<Rightarrow> 'e srv" where
  "clear_snapshot s = s\<lparr>dare_state := dare_state s AND NOT SNAPSHOT\<rparr>"

text \<open>One entry of the loop; the result is \<open>head_offset\<close> and the state.\<close>

definition config_entry :: "'e ibv \<Rightarrow> u64 \<Rightarrow> nat \<Rightarrow> u64 \<Rightarrow> u64 \<Rightarrow> 'e srv \<Rightarrow> (u64 \<times> 'e srv) option" where
  "config_entry ib commit p offset head_offset s =
     (let m = log_entries (slog s) in
      if entry_type m p = CONFIG
      then if entry_idx m p > cid_idx (config s)
           then do {
             (rc, s1) \<leftarrow> update_cid ib (entry_cid m p) s;
             Some (head_offset, if rc = 0 then set_cfg_req (entry_req_id m p) (entry_clt_id m p) s1 else s1)
           }
           else Some (head_offset, s)
      else if entry_type m p = HEAD \<and> \<not> log_is_offset_larger (slog s) offset commit
      then Some (entry_head m p, clear_snapshot s)
      else Some (head_offset, s))"

partial_function (option) config_loop ::
  "'e ibv \<Rightarrow> u64 \<Rightarrow> u64 \<Rightarrow> u64 \<Rightarrow> 'e srv \<Rightarrow> (u64 \<times> u64 \<times> 'e srv) option" where
  "config_loop ib commit offset head_offset s =
     (if log_offset_end_distance (slog s) offset = 0 then Some (offset, head_offset, s)
      else case log_get_entry (slog s) offset of
        (None, o1) \<Rightarrow> None
      | (Some p, o1) \<Rightarrow>
          if \<not> log_fit_entry (slog s) o1 p then config_loop ib commit 0 head_offset s
          else do {
            (h, s1) \<leftarrow> config_entry ib commit p o1 head_offset s;
            config_loop ib commit (o1 + ucast (log_entry_len (log_entries (slog s1)) p)) h s1
          })"

definition poll_config_entries :: "'e ibv \<Rightarrow> 'e srv \<Rightarrow> 'e srv option" where
  "poll_config_entries ib s =
     (let commit = log_commit (slog s) in do {
        (offset, head_offset, s1) \<leftarrow> config_loop ib commit (cid_offset (config s)) (log_head (slog s)) s;
        let s2 = upd_config (\<lambda>g. g\<lparr>cid_offset := (if log_is_offset_larger (slog s1) offset commit then commit else offset)\<rparr>) s1;
        Some (if log_is_offset_larger (slog s2) head_offset (log_head (slog s2))
              then upd_log (\<lambda>l. l\<lparr>log_head := head_offset\<rparr>) s2 else s2)
      })"

section \<open>Committing and persisting\<close>

text \<open>A server that is not known to have the whole log.\<close>

definition is_behind :: "'e srv \<Rightarrow> nat \<Rightarrow> bool" where
  "is_behind s i \<longleftrightarrow> \<not> (i = me s \<or> \<not> CID_IS_SERVER_ON (cid (config s)) (of_nat i)
       \<or> fail_count (srv_at s i) \<ge> PERMANENT_FAILURE)
     \<and> c_vote_ack (ctrl s) i \<noteq> log_len (slog s)
     \<and> (next_lr_step (srv_at s i) \<noteq> LR_UPDATE_LOG \<or> lo_end (c_log_offsets (ctrl s) i) \<noteq> log_end (slog s))"

definition commit_new_entries :: "'e ibv \<Rightarrow> 'e srv \<Rightarrow> 'e srv option" where
  "commit_new_entries ib s =
     (if log_offset_end_distance (slog s) (log_commit (slog s)) \<noteq> 0
      then map_option snd (rc_write_remote_logs ib True s)
      else if \<not> is_log_empty (slog s) \<and> (\<exists>i\<in>set [0..<group_n s]. is_behind s i)
      then map_option snd (rc_write_remote_logs ib False s)
      else Some s)"

text \<open>The callback gets a pointer to the field \<^verbatim>\<open>clt_id\<close> of the entry.\<close>

definition persist_entry :: "'e ibv \<Rightarrow> nat \<Rightarrow> 'e srv \<Rightarrow> 'e srv option" where
  "persist_entry ib p s =
     (let s1 = s\<lparr>env := proxy_store_cmd ib (\<lambda>k. log_entries (slog s) (p + off_clt_id + k)) (env s)\<rparr>
      in if IS_LEADER s1
         then Some (upd_log (\<lambda>l. l\<lparr>log_entries := wr8 (log_entries l) (p + off_sender) (my_idx (config s1))\<rparr>) s1)
         else map_option snd (rc_send_entries_reply ib (entry_sender (log_entries (slog s1)) p) s1))"

partial_function (option) persist_new_entries :: "'e ibv \<Rightarrow> 'e srv \<Rightarrow> 'e srv option" where
  "persist_new_entries ib s =
     (if \<not> log_is_offset_larger (slog s) (log_end (slog s)) (log_old_end (slog s)) then Some s
      else case log_get_entry (slog s) (log_old_end (slog s)) of
        (None, o1) \<Rightarrow> None
      | (Some p, o1) \<Rightarrow>
          let s1 = upd_log (\<lambda>l. l\<lparr>log_old_end := o1\<rparr>) s
          in if \<not> log_fit_entry (slog s1) o1 p then persist_new_entries ib (upd_log (\<lambda>l. l\<lparr>log_old_end := 0\<rparr>) s1)
             else do {
               s2 \<leftarrow> persist_entry ib p s1;
               persist_new_entries ib
                 (upd_log (\<lambda>l. l\<lparr>log_old_end := log_old_end l + ucast (log_entry_len (log_entries l) p)\<rparr>) s2)
             })"

section \<open>Applying\<close>

text \<open>
  \<^verbatim>\<open>ep_dp_reply_read_req\<close> visits the endpoints in the order of their LIDs; the leadership is
  verified once, before the first answer.
\<close>

fun reply_loop :: "'e ibv \<Rightarrow> u64 \<Rightarrow> u16 list \<Rightarrow> bool \<Rightarrow> 'e srv \<Rightarrow> 'e srv option" where
  "reply_loop ib idx [] verified s = Some s"
| "reply_loop ib idx (lid # ls) verified s =
     (case ep_search (endpoints s) lid of None \<Rightarrow> None | Some ep \<Rightarrow>
        if wait_for_idx ep = 0 then reply_loop ib idx ls verified s
        else do {
          (leader, s1) \<leftarrow> (if verified then Some (True, s)
             else map_option (\<lambda>(rc, leader, t). (leader, t)) (rc_verify_leadership ib False s));
          if \<not> leader then Some (s1\<lparr>endpoints := ep_dp_reset_wait_idx (endpoints s1)\<rparr>)
          else do {
            s2 \<leftarrow> (if wait_for_idx ep < idx then ud_clt_answer_read_request ib ep s1 else Some s1);
            reply_loop ib idx ls True s2
          }
        })"

definition ep_dp_reply_read_req :: "'e ibv \<Rightarrow> u64 \<Rightarrow> 'e srv \<Rightarrow> 'e srv option" where
  "ep_dp_reply_read_req ib idx s = reply_loop ib idx (lids (endpoints s)) False s"

text \<open>Removing server \<open>i\<close> while the group shrinks; the leader itself stops after the commit.\<close>

definition remove_server :: "'e ibv \<Rightarrow> nat \<Rightarrow> 'e srv \<Rightarrow> 'e srv" where
  "remove_server ib i s =
     (let rm = upd_config (\<lambda>g. g\<lparr>cid := CID_SERVER_RM (cid g) (of_nat i)\<rparr>) in
      if i = me s then rm (s\<lparr>dare_state := dare_state s OR DIE_AF_COMMIT\<rparr>)
      else if \<not> CID_IS_SERVER_ON (cid (config s)) (of_nat i) then s
      else snd (rc_disconnect_server ib (of_nat i) (rm s)))"

definition set_cid_state :: "u8 \<Rightarrow> 'e srv \<Rightarrow> 'e srv" where
  "set_cid_state st = upd_config (\<lambda>g. g\<lparr>cid := (cid g)\<lparr>cstate := st\<rparr>\<rparr>)"

text \<open>The stable configuration after a transitional one; \<open>is\<close> are the servers to remove.\<close>

definition stabilise :: "'e ibv \<Rightarrow> nat list \<Rightarrow> 'e srv \<Rightarrow> 'e srv" where
  "stabilise ib is s =
     upd_config (\<lambda>g. g\<lparr>cid := (cid g)\<lparr>size0 := size1 (cid g), size1 := 0\<rparr>\<rparr>)
       (fold (remove_server ib) is (set_cid_state CID_STABLE s))"

text \<open>The leader applies a CONFIG entry.\<close>

definition apply_unstable :: "'e ibv \<Rightarrow> nat \<Rightarrow> 'e srv \<Rightarrow> (u64 \<times> u16 \<times> 'e srv) option" where
  "apply_unstable ib p s =
     (let m = log_entries (slog s); c = entry_cid m p; req_id = entry_req_id m p; clt_id = entry_clt_id m p in
      if cstate c = CID_EXTENDED
      then let s1 = set_cid_state CID_TRANSIT s
           in if req_id \<noteq> 0
              then map_option (\<lambda>(rc, t). (0, 0, t)) (ud_send_clt_reply ib clt_id req_id CONFIG s1)
              else Some (req_id, clt_id, s1)
      else if cstate c = CID_TRANSIT
      then Some (req_id, clt_id, stabilise ib [unat (size1 (cid (config s)))..<unat (size0 (cid (config s)))] s)
      else Some (req_id, clt_id, s))"

definition apply_config :: "'e ibv \<Rightarrow> nat \<Rightarrow> 'e srv \<Rightarrow> 'e srv option" where
  "apply_config ib p s =
     (let m = log_entries (slog s); c = entry_cid m p in
      if cstate c = CID_STABLE
      then if entry_req_id m p \<noteq> 0
           then do {
             (rc, s1) \<leftarrow> ud_send_clt_reply ib (entry_clt_id m p) (entry_req_id m p) CONFIG s;
             if has_state s1 DIE_AF_COMMIT then None else Some s1
           }
           else Some s
      else if epoch (cid (config s)) > epoch c then Some s
      else do {
        (req_id, clt_id, s1) \<leftarrow> apply_unstable ib p s;
        (idx, s2) \<leftarrow> append_entry req_id clt_id CONFIG (cid_bytes (cid (config s1))) (set_cfg_req req_id clt_id s1);
        Some s2
      })"

text \<open>
  A command: a follower replays it on its application, the leader's application has
  executed it already and its waiting thread is released.
\<close>

definition apply_entry :: "'e ibv \<Rightarrow> nat \<Rightarrow> 'e srv \<Rightarrow> 'e srv" where
  "apply_entry ib p s =
     (let m = log_entries (slog s) in
      if is_csm m p
      then s\<lparr>env := (if IS_LEADER s then proxy_update_state ib (env s)
                    else proxy_do_action ib (entry_clt_id m p) (entry_type m p) (entry_cmd m p) (env s)),
             last_applied_entry := \<lparr>det_idx = entry_idx m p, det_term = entry_term m p,
                det_offset = log_apply (slog s) + ucast (log_entry_len m p)\<rparr>,
             last_cmt_write_csm_idx := entry_idx m p\<rparr>
      else s)"

definition apply_one :: "'e ibv \<Rightarrow> nat \<Rightarrow> 'e srv \<Rightarrow> 'e srv option" where
  "apply_one ib p s =
     (if \<not> IS_LEADER s then Some (apply_entry ib p s)
      else let typ = entry_type (log_entries (slog s)) p in
        if typ = NOOP \<or> typ = HEAD then Some s
        else if typ \<noteq> CONFIG then Some (apply_entry ib p s)
        else apply_config ib p s)"

partial_function (option) apply_loop :: "'e ibv \<Rightarrow> 'e srv \<Rightarrow> 'e srv option" where
  "apply_loop ib s =
     (if \<not> log_is_offset_larger (slog s) (log_commit (slog s)) (log_apply (slog s)) then Some s
      else case log_get_entry (slog s) (log_apply (slog s)) of
        (None, o1) \<Rightarrow> None
      | (Some p, o1) \<Rightarrow>
          let s1 = upd_log (\<lambda>l. l\<lparr>log_apply := o1\<rparr>) s
          in if \<not> log_fit_entry (slog s1) o1 p then apply_loop ib (upd_log (\<lambda>l. l\<lparr>log_apply := 0\<rparr>) s1)
             else do {
               s2 \<leftarrow> apply_one ib p s1;
               apply_loop ib (upd_log (\<lambda>l. l\<lparr>log_apply := log_apply l + ucast (log_entry_len (log_entries l) p)\<rparr>) s2)
             })"

definition apply_committed_entries :: "'e ibv \<Rightarrow> 'e srv \<Rightarrow> 'e srv option" where
  "apply_committed_entries ib s = do {
     s1 \<leftarrow> apply_loop ib s;
     if log_apply (slog s) \<noteq> log_apply (slog s1) \<and> IS_LEADER s1
     then ep_dp_reply_read_req ib (last_cmt_write_csm_idx s1) s1
     else Some s1
   }"

section \<open>Pruning\<close>

definition set_apply_offset :: "nat \<Rightarrow> u64 \<Rightarrow> 'e srv \<Rightarrow> 'e srv" where
  "set_apply_offset i v = upd_ctrl (\<lambda>c. c\<lparr>c_apply_offsets := (c_apply_offsets c)(i := v)\<rparr>)"

text \<open>The smallest apply offset; that of a server that is off becomes the leader's.\<close>

fun prune_scan :: "nat \<Rightarrow> nat \<Rightarrow> u64 \<Rightarrow> 'e srv \<Rightarrow> u64 \<times> 'e srv" where
  "prune_scan i 0 min_offset s = (min_offset, s)"
| "prune_scan i (Suc n) min_offset s =
     (let s1 = (if CID_IS_SERVER_ON (cid (config s)) (of_nat i) then s else set_apply_offset i (log_apply (slog s)) s);
          a = c_apply_offsets (ctrl s1) i
      in prune_scan (Suc i) n (if log_is_offset_larger (slog s1) min_offset a then a else min_offset) s1)"

text \<open>Moving the head, with the HEAD entry that tells the other servers.\<close>

definition advance_head :: "u64 \<Rightarrow> 'e srv \<Rightarrow> 'e srv option" where
  "advance_head min_offset s =
     (if log_is_offset_larger (slog s) min_offset (log_head (slog s)) \<and> \<not> prev_log_entry_head s
      then do {
        (idx, s1) \<leftarrow> append_entry 0 0 HEAD (le64 min_offset)
           (clear_snapshot (upd_log (\<lambda>l. l\<lparr>log_head := min_offset\<rparr>) s));
        Some (s1\<lparr>prev_log_entry_head := True\<rparr>)
      }
      else Some s)"

definition log_pruning :: "'e ibv \<Rightarrow> 'e srv \<Rightarrow> (int \<times> 'e srv) option" where
  "log_pruning ib s =
     (if \<not> IS_LEADER s then Some (0, s)
      else case prune_scan 0 (ext_n s) (log_apply (slog s)) s of (min_offset, s1) \<Rightarrow> do {
        min_offset \<leftarrow> (if log_offset_end_distance (slog s1) min_offset = 0 then log_get_tail (slog s1) else Some min_offset);
        s2 \<leftarrow> advance_head min_offset s1;
        (rc, s3) \<leftarrow> rc_get_remote_apply_offsets ib s2;
        Some (if rc \<noteq> 0 then 1 else 0, s3)
      })"

definition prune_log_cb :: "'e ibv \<Rightarrow> 'e srv \<Rightarrow> 'e srv option" where
  "prune_log_cb ib s = do {
     (rc, s1) \<leftarrow> log_pruning ib s;
     if rc \<noteq> 0 then None else Some (set_prune (log_pruning_period s1) s1)
   }"

fun slowest :: "'e srv \<Rightarrow> nat \<Rightarrow> nat \<Rightarrow> u64 \<Rightarrow> nat \<Rightarrow> nat" where
  "slowest s i 0 min_offset target = target"
| "slowest s i (Suc n) min_offset target =
     (let a = c_apply_offsets (ctrl s) i in
      if log_is_offset_larger (slog s) min_offset a then slowest s (Suc i) n a i
      else slowest s (Suc i) n min_offset target)"

text \<open>
  When three quarters of the log are in use the slowest server is removed.  The offset
  that is then reset is the one after the last of the group; past the end of the
  array this is the first element of \<^verbatim>\<open>prv_data\<close>.
\<close>

definition force_log_pruning :: "'e ibv \<Rightarrow> 'e srv \<Rightarrow> 'e srv option" where
  "force_log_pruning ib s =
     (if 4 * unat (log_offset_end_distance (slog s) (log_head (slog s))) < 3 * unat (log_len (slog s)) then Some s
      else
        let n = ext_n s; target = slowest s 0 n (log_apply (slog s)) (me s) in
        if target = me s \<or> \<not> CID_IS_SERVER_ON (cid (config s)) (of_nat target)
        then map_option snd (log_pruning ib s)
        else do {
          let s1 = upd_config (\<lambda>g. g\<lparr>cid := CID_SERVER_RM (cid g) (of_nat target)\<rparr>) s;
          let s2 = set_cfg_req 0 0 (snd (rc_disconnect_server ib (of_nat target) s1));
          (idx, s3) \<leftarrow> append_entry 0 0 CONFIG (cid_bytes (cid (config s2))) s2;
          let s4 = (if n < MAX_SERVER_COUNT then set_apply_offset n (log_apply (slog s3)) s3
                    else upd_ctrl (\<lambda>c. c\<lparr>c_prv_data := (c_prv_data c)(n - MAX_SERVER_COUNT := log_apply (slog s3))\<rparr>) s3);
          map_option snd (log_pruning ib s4)
        })"

section \<open>Servers that do not respond\<close>

text \<open>The loop works on a copy of the configuration and counts the responding servers.\<close>

fun failure_loop :: "'e ibv \<Rightarrow> nat \<Rightarrow> nat \<Rightarrow> dare_cid \<Rightarrow> nat \<Rightarrow> 'e srv \<Rightarrow> dare_cid \<times> nat \<times> 'e srv" where
  "failure_loop ib i 0 c conns s = (c, conns, s)"
| "failure_loop ib i (Suc n) c conns s =
     (if \<not> CID_IS_SERVER_ON c (of_nat i) then failure_loop ib (Suc i) n c conns s
      else if fail_count (srv_at s i) \<ge> PERMANENT_FAILURE
      then if IS_LEADER s \<and> cstate (cid (config s)) = CID_STABLE
           then failure_loop ib (Suc i) n (CID_SERVER_RM c (of_nat i)) conns (snd (rc_disconnect_server ib (of_nat i) s))
           else failure_loop ib (Suc i) n c conns s
      else failure_loop ib (Suc i) n c (conns + 1) s)"

definition check_failure_count :: "'e ibv \<Rightarrow> 'e srv \<Rightarrow> 'e srv option" where
  "check_failure_count ib s =
     (case failure_loop ib 0 (group_n s) (cid (config s)) 0 s of (c, conns, s1) \<Rightarrow>
        if conns \<le> group_n s div 2 then None
        else if IS_LEADER s1 \<and> \<not> equal_cid c (cid (config s1))
        then map_option snd (append_entry 0 0 CONFIG (cid_bytes c)
               (set_cfg_req 0 0 (upd_config (\<lambda>g. g\<lparr>cid := c\<rparr>) s1)))
        else Some s1)"

section \<open>From candidate to leader\<close>

text \<open>
  Counting the votes; an acknowledgement carries the voter's commit offset.  The counts
  never exceed the size of the group plus one.
\<close>

fun count_votes :: "nat \<Rightarrow> nat \<Rightarrow> nat \<times> nat \<Rightarrow> 'e srv \<Rightarrow> (nat \<times> nat) \<times> 'e srv" where
  "count_votes i 0 v s = (v, s)"
| "count_votes i (Suc n) v s =
     (let remote_commit = c_vote_ack (ctrl s) i; c = cid (config s) in
      if i = me s \<or> log_len (slog s) = remote_commit then count_votes (Suc i) n v s
      else
        let v' = (if i < unat (size0 c) then fst v + 1 else fst v, if i < unat (size1 c) then snd v + 1 else snd v);
            s1 = upd_server i (\<lambda>x. x\<lparr>next_lr_step := LR_GET_NCE_LEN\<rparr>) (upd_offsets i (\<lambda>x. x\<lparr>lo_commit := remote_commit\<rparr>) s);
            s2 = (if log_is_offset_larger (slog s1) remote_commit (log_commit (slog s1))
                  then upd_log (\<lambda>l. l\<lparr>log_commit := remote_commit\<rparr>) s1 else s1)
        in count_votes (Suc i) n v' s2)"

definition is_majority :: "dare_cid \<Rightarrow> nat \<times> nat \<Rightarrow> bool" where
  "is_majority c v \<longleftrightarrow> \<not> fst v < unat (size0 c) div 2 + 1
     \<and> (cstate c \<noteq> CID_STABLE \<longrightarrow> \<not> snd v < unat (size1 c) div 2 + 1)"

text \<open>The search for a CONFIG entry that is not applied yet; \<open>entry\<close> is the last entry looked at.\<close>

partial_function (option) find_config :: "dare_log \<Rightarrow> u64 \<Rightarrow> u64 \<Rightarrow> nat option \<Rightarrow> (u64 \<times> nat option) option" where
  "find_config l idx offset entry =
     (if log_offset_end_distance l offset = 0 then Some (offset, entry)
      else case log_get_entry l offset of
        (None, o1) \<Rightarrow> None
      | (Some p, o1) \<Rightarrow>
          if \<not> log_fit_entry l o1 p then find_config l idx 0 (Some p)
          else if entry_type (log_entries l) p = CONFIG \<and> entry_idx (log_entries l) p > idx then Some (o1, Some p)
          else find_config l idx (o1 + ucast (log_entry_len (log_entries l) p)) (Some p))"

text \<open>The first entry of the new leader's term.\<close>

definition blank_entry :: "'e ibv \<Rightarrow> 'e srv \<Rightarrow> (u64 \<times> 'e srv) option" where
  "blank_entry ib s =
     (let c = cid (config s) in
      if cstate c = CID_STABLE then append_entry 0 0 CONFIG (cid_bytes c) (set_cfg_req 0 0 s)
      else do {
        (offset, e) \<leftarrow> find_config (slog s) (cid_idx (config s)) (cid_offset (config s)) None;
        if log_offset_end_distance (slog s) offset \<noteq> 0 then append_entry 0 0 NOOP [] s
        else do {
          p \<leftarrow> e;
          let s1 = (if cstate (entry_cid (log_entries (slog s)) p) = CID_EXTENDED then set_cid_state CID_TRANSIT s
                    else stabilise ib (rev [unat (size1 c) + 1..<unat (size0 c - 1) + 1]) s);
          append_entry (cfg_req_id (config s1)) (cfg_clt_id (config s1)) CONFIG (cid_bytes (cid (config s1))) s1
        }
      })"

definition start_leading :: "'e ibv \<Rightarrow> 'e srv \<Rightarrow> 'e srv option" where
  "start_leading ib s =
     (let s1 = s\<lparr>endpoints := ep_dp_reset_wait_idx (endpoints s)\<rparr>;
          s2 = set_to_adjust 0 (set_hb_cb Cb_hb_send NOW s1);
          s3 = upd_ctrl (\<lambda>c. c\<lparr>c_apply_offsets := (\<lambda>i. if i < ext_n s2 then log_head (slog s2) else c_apply_offsets c i)\<rparr>) s2;
          (rc, s4) = rc_restore_log_access ib (set_prune NOW s3)
      in if rc \<noteq> 0 then None else Some s4)"

definition poll_vote_count :: "'e ibv \<Rightarrow> 'e srv \<Rightarrow> 'e srv option" where
  "poll_vote_count ib s =
     (case count_votes 0 (group_n s) (1, 1) s of (v, s1) \<Rightarrow>
        if \<not> is_majority (cid (config s1)) v then Some s1
        else do {
          s2 \<leftarrow> server_update_sid (SID_SET_L (c_sid (ctrl s1))) (c_sid (ctrl s1)) s1;
          s3 \<leftarrow> poll_config_entries ib s2;
          s4 \<leftarrow> apply_committed_entries ib s3;
          (idx, s5) \<leftarrow> blank_entry ib s4;
          start_leading ib (s5\<lparr>last_write_csm_idx := idx\<rparr>)
        })"

declare config_loop.simps [code] persist_new_entries.simps [code] apply_loop.simps [code]
  find_config.simps [code]

end
