(* ===== verification/Dare_Normal_Props.thy ===== *)
theory Dare_Normal_Props
  imports Dare_Normal Dare_Frame Dare_Repl_Props
begin

text \<open>
  Properties of the normal operation: applying committed entries, pruning the log, counting
  votes.
\<close>

section \<open>Offsets and entries\<close>

text \<open>The offset behind the entries \<open>ps\<close>, met on a walk from \<open>a\<close>.\<close>

fun end_of :: "dare_log \<Rightarrow> u64 \<Rightarrow> nat list \<Rightarrow> u64" where
  "end_of l a [] = a"
| "end_of l a (p # ps) = end_of l (of_nat p + ucast (log_entry_len (log_entries l) p)) ps"

text \<open>Moving the apply offset changes no walk.\<close>

lemma log_apply_frame [simp]:
  "chain_from (l\<lparr>log_apply := x\<rparr>) = chain_from l" "log_live (l\<lparr>log_apply := x\<rparr>) = log_live l"
  "log_get_entry (l\<lparr>log_apply := x\<rparr>) = log_get_entry l" "log_fit_entry (l\<lparr>log_apply := x\<rparr>) = log_fit_entry l"
  "log_is_offset_larger (l\<lparr>log_apply := x\<rparr>) = log_is_offset_larger l"
  "end_of (l\<lparr>log_apply := x\<rparr>) = end_of l"
proof -
  show "end_of (l\<lparr>log_apply := x\<rparr>) = end_of l"
  proof (intro ext)
    show "end_of (l\<lparr>log_apply := x\<rparr>) a ps = end_of l a ps" for a ps
      by (induction ps arbitrary: a) simp_all
  qed
qed (simp_all add: fun_eq_iff chain_from_def log_live_def log_get_entry_def log_fit_entry_def
      log_is_offset_larger_def is_log_empty_def log_offset_end_distance_def log_fit_entry_header_def Let_def)

lemma log_commit_frame [simp]:
  "log_get_entry (l\<lparr>log_commit := x\<rparr>) = log_get_entry l" "log_fit_entry (l\<lparr>log_commit := x\<rparr>) = log_fit_entry l"
  "log_is_offset_larger (l\<lparr>log_commit := x\<rparr>) = log_is_offset_larger l"
  by (simp_all add: fun_eq_iff log_get_entry_def log_fit_entry_def log_is_offset_larger_def is_log_empty_def
      log_offset_end_distance_def log_fit_entry_header_def Let_def)

lemma walk_entry:
  assumes live: "log_live l" and ch: "chain_from l a (p # os)"
    and ge: "log_get_entry l a = (Some p, o1)" and o1: "unat o1 = p" and fit: "log_fit_entry l o1 p"
  shows "of_nat p = o1" "next_off l o1 = o1 + ucast (log_entry_len (log_entries l) p)"
    "end_dist l (o1 + ucast (log_entry_len (log_entries l) p)) < end_dist l a"
  using o1 fit walk_dist(1) [OF live ch ge] by (auto simp: next_off_def)

lemma end_of_next:
  assumes live: "log_live l" and ch: "chain_from l a (p # os)"
  shows "chain_from l (end_of l a [p]) os" "end_dist l (end_of l a [p]) < end_dist l a"
proof -
  have "chain_from l (end_of l a [p]) os \<and> end_dist l (end_of l a [p]) < end_dist l a"
  proof (cases rule: walk_step [OF live ch])
    case (1 o1)
    then show ?thesis using walk_entry [OF live ch 1(1-3)] by simp
  next
    case (2 q o1)
    note ov = walk_over [OF live ch 2(1,2)]
    have e: "log_get_entry l 0 = (Some p, 0)" "unat (0 :: u64) = p" "log_fit_entry l 0 p" using 2 by simp_all
    show ?thesis using walk_entry [OF live ov(1) e] ov(2) 2(6) by simp
  qed
  then show "chain_from l (end_of l a [p]) os" "end_dist l (end_of l a [p]) < end_dist l a" by blast+
qed

lemma end_of_walk:
  "log_live l \<Longrightarrow> chain_from l a (ps @ os) \<Longrightarrow> chain_from l (end_of l a ps) os
    \<and> (ps \<noteq> [] \<longrightarrow> end_dist l (end_of l a ps) < end_dist l a)"
proof (induction ps arbitrary: a)
  case (Cons p ps)
  note n = end_of_next [of l a p "ps @ os"]
  have "chain_from l (end_of l (end_of l a [p]) ps) os
    \<and> (ps \<noteq> [] \<longrightarrow> end_dist l (end_of l (end_of l a [p]) ps) < end_dist l (end_of l a [p]))"
    using n Cons by simp
  moreover have "end_dist l (end_of l a [p]) < end_dist l a" using n Cons by simp
  ultimately show ?case by (cases ps) auto
qed simp

lemma chain_from_le: "chain_from l a os \<Longrightarrow> unat a \<le> Ln l"
  by (simp add: chain_from_def)

lemma end_of_larger:
  assumes "log_live l" "chain_from l a (p # ps @ os)" 
  shows "log_is_offset_larger l (end_of l b (p # ps)) a"
  using end_of_walk [of l a "p # ps" os] assms offset_larger_dist [of l "end_of l a (p # ps)" a] chain_from_le
  by auto

lemma larger_irrefl [simp]: "\<not> log_is_offset_larger l a a"
  by (simp add: log_is_offset_larger_def Let_def)

section \<open>Applying committed entries\<close>

text \<open>What applying one entry does to the application behind the proxy.\<close>

definition exec_entry :: "'e ibv \<Rightarrow> bool \<Rightarrow> mem \<Rightarrow> nat \<Rightarrow> 'e \<Rightarrow> 'e" where
  "exec_entry ib leader m p e =
     (if \<not> is_csm m p then e
      else if leader then proxy_update_state ib e
      else proxy_do_action ib (entry_clt_id m p) (entry_type m p) (entry_cmd m p) e)"

text \<open>The leader changes the configuration when it applies a CONFIG entry; this is treated apart.\<close>

definition plain_entry :: "'e srv \<Rightarrow> nat \<Rightarrow> bool" where
  "plain_entry s p \<longleftrightarrow> \<not> IS_LEADER s \<or> entry_type (log_entries (slog s)) p \<noteq> CONFIG"

definition applied_to :: "'e ibv \<Rightarrow> 'e srv \<Rightarrow> nat list \<Rightarrow> 'e srv \<Rightarrow> bool" where
  "applied_to ib s ps s' \<longleftrightarrow>
     env s' = fold (exec_entry ib (IS_LEADER s) (log_entries (slog s))) ps (env s) \<and>
     slog s' = (slog s)\<lparr>log_apply := log_commit (slog s)\<rparr> \<and> ctrl s' = ctrl s \<and> config s' = config s \<and>
     endpoints s' = endpoints s"

lemma apply_entry_sel:
  "slog (apply_entry ib p s) = slog s" "ctrl (apply_entry ib p s) = ctrl s"
  "config (apply_entry ib p s) = config s" "endpoints (apply_entry ib p s) = endpoints s"
  "env (apply_entry ib p s) = exec_entry ib (IS_LEADER s) (log_entries (slog s)) p (env s)"
  by (simp_all add: apply_entry_def exec_entry_def Let_def)

lemma apply_one_plain:
  assumes "plain_entry s p"
  obtains s' where "apply_one ib p s = Some s'" "slog s' = slog s" "ctrl s' = ctrl s" "config s' = config s"
    "endpoints s' = endpoints s" "env s' = exec_entry ib (IS_LEADER s) (log_entries (slog s)) p (env s)"
proof (cases "IS_LEADER s \<and> (entry_type (log_entries (slog s)) p = NOOP \<or> entry_type (log_entries (slog s)) p = HEAD)")
  case True
  then show ?thesis using that [of s] by (auto simp: apply_one_def exec_entry_def is_csm_def)
next
  case False
  then have "apply_one ib p s = Some (apply_entry ib p s)"
    using assms by (auto simp: apply_one_def plain_entry_def)
  then show ?thesis using that apply_entry_sel by blast
qed

lemma apply_loop_end: "log_apply (slog s) = log_commit (slog s) \<Longrightarrow> apply_loop ib s = Some s"
  by (subst apply_loop.simps) simp

lemma leader_frame:
  "ctrl s' = ctrl s \<Longrightarrow> config s' = config s \<Longrightarrow> IS_LEADER s' = IS_LEADER s"
  by (simp add: roles)

lemma apply_loop_entry:
  assumes lg: "log_is_offset_larger (slog s) (log_commit (slog s)) (log_apply (slog s))"
    and ge: "log_get_entry (slog s) (log_apply (slog s)) = (Some p, o1)" and fit: "log_fit_entry (slog s) o1 p"
    and pl: "plain_entry s p"
  obtains s' where "apply_loop ib s = apply_loop ib s'" "ctrl s' = ctrl s" "config s' = config s"
    "slog s' = (slog s)\<lparr>log_apply := o1 + ucast (log_entry_len (log_entries (slog s)) p)\<rparr>"
    "endpoints s' = endpoints s" "env s' = exec_entry ib (IS_LEADER s) (log_entries (slog s)) p (env s)"
proof -
  let ?s1 = "upd_log (\<lambda>l. l\<lparr>log_apply := o1\<rparr>) s"
  have L: "IS_LEADER ?s1 = IS_LEADER s" by (rule leader_frame) simp_all
  have "plain_entry ?s1 p" using pl L by (simp add: plain_entry_def)
  then obtain s2 where s2: "apply_one ib p ?s1 = Some s2" "slog s2 = (slog s)\<lparr>log_apply := o1\<rparr>" "ctrl s2 = ctrl s"
    "config s2 = config s" "endpoints s2 = endpoints s"
    "env s2 = exec_entry ib (IS_LEADER s) (log_entries (slog s)) p (env s)"
    using L by (auto elim!: apply_one_plain [where ib = ib] simp: upd_log_def)
  show ?thesis
  proof (rule that)
    show "apply_loop ib s = apply_loop ib
        (upd_log (\<lambda>l. l\<lparr>log_apply := log_apply l + ucast (log_entry_len (log_entries l) p)\<rparr>) s2)"
      using lg ge fit s2(1) by (subst apply_loop.simps) simp
  qed (use s2 in \<open>simp_all add: upd_log_def\<close>)
qed

lemma applied_to_step:
  assumes "applied_to ib s' ps s''" "ctrl s' = ctrl s" "config s' = config s" "slog s' = (slog s)\<lparr>log_apply := x\<rparr>"
    "endpoints s' = endpoints s" "env s' = exec_entry ib (IS_LEADER s) (log_entries (slog s)) p (env s)"
  shows "applied_to ib s (p # ps) s''"
  using assms leader_frame [of s' s] by (simp add: applied_to_def)

lemma apply_loop_correct:
  assumes live: "log_live (slog s)" and ch: "chain_from (slog s) (log_apply (slog s)) (ps @ os)"
    and com: "log_commit (slog s) = end_of (slog s) (log_apply (slog s)) ps"
    and pl: "\<forall>p\<in>set ps. plain_entry s p"
  shows "\<exists>s'. apply_loop ib s = Some s' \<and> applied_to ib s ps s'"
  using assms
proof (induction ps arbitrary: s)
  case Nil
  then show ?case by (simp add: apply_loop_end applied_to_def)
next
  case (Cons p ps)
  note live = Cons.prems(1)
  have visit: "\<exists>s'. apply_loop ib t = Some s' \<and> applied_to ib t (p # ps) s'"
    if t: "t = upd_log (\<lambda>l. l\<lparr>log_apply := a\<rparr>) s" and ca: "chain_from (slog s) a (p # ps @ os)"
      and ge: "log_get_entry (slog s) a = (Some p, b)" and o1: "unat b = p" and fit: "log_fit_entry (slog s) b p"
    for a b t
  proof -
    let ?n = "b + ucast (log_entry_len (log_entries (slog s)) p)"
    have L: "IS_LEADER t = IS_LEADER s" using t by (intro leader_frame) simp_all
    have lg: "log_is_offset_larger (slog t) (log_commit (slog t)) (log_apply (slog t))"
      using end_of_larger [OF live ca, of "log_apply (slog s)"] Cons.prems(3) t by simp
    note w = walk_entry [OF live ca ge o1 fit]
    have ca': "chain_from (slog s) ?n (ps @ os)" using end_of_next(1) [OF live ca] w(1) by simp
    have plt: "plain_entry t p" using Cons.prems(4) L t by (simp add: plain_entry_def)
    have ge': "log_get_entry (slog t) (log_apply (slog t)) = (Some p, b)" "log_fit_entry (slog t) b p"
      using ge fit t by simp_all
    obtain t1 where t1: "apply_loop ib t = apply_loop ib t1" "ctrl t1 = ctrl t" "config t1 = config t"
      "slog t1 = (slog t)\<lparr>log_apply := b + ucast (log_entry_len (log_entries (slog t)) p)\<rparr>"
      "endpoints t1 = endpoints t" "env t1 = exec_entry ib (IS_LEADER t) (log_entries (slog t)) p (env t)"
      using apply_loop_entry [OF lg ge' plt, of ib] by blast
    have sl: "slog t1 = (slog s)\<lparr>log_apply := ?n\<rparr>" using t1(4) t by simp
    have "\<exists>s'. apply_loop ib t1 = Some s' \<and> applied_to ib t1 ps s'"
    proof (rule Cons.IH)
      show "log_live (slog t1)" "chain_from (slog t1) (log_apply (slog t1)) (ps @ os)" using sl live ca' by simp_all
      show "log_commit (slog t1) = end_of (slog t1) (log_apply (slog t1)) ps"
        using sl Cons.prems(3) w(1) by simp
      show "\<forall>p\<in>set ps. plain_entry t1 p"
        using Cons.prems(4) sl L leader_frame [OF t1(2,3)] by (simp add: plain_entry_def)
    qed
    then show ?thesis using t1(1) applied_to_step [OF _ t1(2-6)] by metis
  qed
  have chs: "chain_from (slog s) (log_apply (slog s)) (p # ps @ os)" using Cons.prems(2) by simp
  show ?case
  proof (cases rule: walk_step [OF live chs])
    case (1 o1)
    show ?thesis
      by (rule visit [OF _ chs 1(1-3)]) (simp add: upd_log_def)
  next
    case (2 q o1)
    let ?t = "upd_log (\<lambda>l. l\<lparr>log_apply := 0\<rparr>) s"
    have "apply_loop ib s = apply_loop ib ?t"
      using 2(1,2) end_of_larger [OF live chs, of "log_apply (slog s)"] Cons.prems(3)
      by (subst apply_loop.simps) (simp add: upd_log_def)
    moreover have "\<exists>s'. apply_loop ib ?t = Some s' \<and> applied_to ib ?t (p # ps) s'"
      using walk_over(1) [OF live chs 2(1,2)] 2(3-5) by (intro visit [where b = 0]) simp_all
    moreover have "applied_to ib s (p # ps) s'" if "applied_to ib ?t (p # ps) s'" for s'
      using that leader_frame [of ?t s] by (simp add: applied_to_def upd_log_def)
    ultimately show ?thesis by metis
  qed
qed

text \<open>No endpoint waits for the answer to a read request.\<close>

definition no_reads :: "'e srv \<Rightarrow> bool" where
  "no_reads s \<longleftrightarrow> ep_db_inv (endpoints s) \<and> (\<forall>ep\<in>set (inorder (endpoints s)). wait_for_idx ep = 0)"

lemma ep_search_lids:
  assumes "ep_db_inv t" "lid \<in> set (lids t)"
  obtains ep where "ep_search t lid = Some ep" "ep \<in> set (inorder t)"
proof -
  obtain ep where ep: "ep_map t lid = Some ep" using assms(2) ep_map_None [of t lid] by auto
  then have "ep \<in> set (inorder t)" by (auto simp: ep_map_def dest: map_of_SomeD)
  then show ?thesis using that ep assms(1) ep_search_map by (simp add: ep_db_inv_def)
qed

lemma reply_loop_no_reads:
  "no_reads s \<Longrightarrow> set ls \<subseteq> set (lids (endpoints s)) \<Longrightarrow> reply_loop ib idx ls v s = Some s"
proof (induction ls)
  case (Cons lid ls)
  obtain ep where "ep_search (endpoints s) lid = Some ep" "ep \<in> set (inorder (endpoints s))"
    using ep_search_lids [of "endpoints s" lid] Cons.prems by (auto simp: no_reads_def)
  then show ?case using Cons by (simp add: no_reads_def)
qed simp

text \<open>C6: \<^verbatim>\<open>apply_committed_entries\<close> returns, and it executes exactly the entries \<open>ps\<close> between the apply
  offset and the commit offset, each once and in the order of the log: a follower hands every
  command to its application, the leader releases the waiting client for every command, and
  NOOP, HEAD and CONFIG entries are passed over.  The apply offset becomes the commit offset;
  nothing else of the log, and neither control data nor configuration, changes.  The
  commit offset is the one behind the last committed entry; for the leader, the committed
  entries hold no CONFIG entry and no client waits for a read.\<close>

theorem apply_committed_entries_in_order:
  assumes "log_live (slog s)" and "chain_from (slog s) (log_apply (slog s)) (ps @ os)"
    and "log_commit (slog s) = end_of (slog s) (log_apply (slog s)) ps"
    and "\<forall>p\<in>set ps. plain_entry s p" and "IS_LEADER s \<longrightarrow> no_reads s"
  shows "\<exists>s'. apply_committed_entries ib s = Some s' \<and>
    env s' = fold (exec_entry ib (IS_LEADER s) (log_entries (slog s))) ps (env s) \<and>
    slog s' = (slog s)\<lparr>log_apply := log_commit (slog s)\<rparr> \<and> ctrl s' = ctrl s \<and> config s' = config s"
proof -
  obtain s' where s': "apply_loop ib s = Some s'" "applied_to ib s ps s'"
    using apply_loop_correct [OF assms(1-4)] by blast
  have "ep_dp_reply_read_req ib idx s' = Some s'" if "IS_LEADER s'" for idx
    using that assms(5) s'(2) leader_frame [of s' s] reply_loop_no_reads [of s' "lids (endpoints s')"]
    by (simp add: ep_dp_reply_read_req_def applied_to_def no_reads_def)
  then have "apply_committed_entries ib s = Some s'" using s'(1) by (simp add: apply_committed_entries_def)
  then show ?thesis using s'(2) by (auto simp: applied_to_def)
qed

text \<open>A follower with a log of a NOOP entry and a command of two bytes, both committed.\<close>

definition apply_mem :: mem where
  "apply_mem = (\<lambda>x. if x = 64 then 2 else if x = 64 + 24 then 9 else if x = 64 + 26 then 5
     else if x = 64 + 48 then 2 else if x = 64 + 50 then 7 else if x = 64 + 51 then 8 else 0)"

definition apply_log :: dare_log where
  "apply_log = (demo_log 0 130)\<lparr>log_commit := 130, log_entries := apply_mem\<rparr>"

definition apply_srv :: "(u16 \<times> u8 \<times> u8 list) list srv" where
  "apply_srv = (demo_srv apply_log [])\<lparr>ctrl := demo_ctrl\<lparr>c_sid := 0x301\<rparr>\<rparr>"

definition apply_ib :: "(u16 \<times> u8 \<times> u8 list) list ibv" where
  "apply_ib = idle_ib\<lparr>proxy_do_action := (\<lambda>c t d e. e @ [(c, t, d)])\<rparr>"

lemma apply_mem_elen [simp]: "elen apply_mem 0 = 64" "elen apply_mem 64 = 66"
  by code_simp+

lemma apply_mem_cmd [simp]: "is_csm apply_mem 64" "\<not> is_csm apply_mem 0" "entry_clt_id apply_mem 64 = 9"
  "entry_type apply_mem 64 = 5" "entry_cmd apply_mem 64 = [7, 8]" "log_entry_len apply_mem 0 = 64"
  "log_entry_len apply_mem 64 = 66"
  by code_simp+

lemma apply_committed_entries_in_order_witness:
  "\<exists>s'. apply_committed_entries apply_ib apply_srv = Some s' \<and> env s' = [(9, 5, [7, 8])] \<and>
     log_apply (slog s') = 130"
proof -
  let ?s = apply_srv
  have sl: "slog ?s = apply_log" "env ?s = []" "log_entries apply_log = apply_mem" "log_commit apply_log = 130"
    "log_apply apply_log = 0" by (simp_all add: apply_srv_def demo_srv_def apply_log_def demo_log_def)
  have L: "\<not> IS_LEADER ?s" by code_simp
  have live: "log_live (slog ?s)" by (simp add: log_live_def apply_srv_def demo_srv_def apply_log_def demo_log_def)
  have ch: "chain_from (slog ?s) (log_apply (slog ?s)) ([0, 64] @ [])"
    by (simp add: chain_from_def apply_srv_def demo_srv_def apply_log_def demo_log_def)
  have com: "log_commit (slog ?s) = end_of (slog ?s) (log_apply (slog ?s)) [0, 64]" by (simp add: sl)
  show ?thesis
    using apply_committed_entries_in_order [OF live ch com, of apply_ib] L
    by (auto simp: plain_entry_def sl exec_entry_def apply_ib_def)
qed

text \<open>C29: at the end of the buffer an entry can be applied before it is committed.  Let the
  commit and the apply offset stand where no header fits any more, so that the next entry
  is at offset 0, and let that entry lack a majority.  The commit scan normalises the
  commit offset to 0 without committing anything, and \<^verbatim>\<open>apply_committed_entries\<close> then finds the
  commit offset larger than the apply offset and applies the entry.\<close>

theorem wrap_applies_uncommitted:
  assumes live: "log_live (slog s)" and ch: "chain_from (slog s) (log_commit (slog s)) (0 # os)"
    and ap: "log_apply (slog s) = log_commit (slog s)"
    and wr: "unat (log_commit (slog s)) < unat (log_len (slog s))" "unat (log_len (slog s)) < unat (log_commit (slog s)) + 64"
    and no: "count_replies (log_entries (slog s)) 0 sz (me s) < sz div 2 + 1" and pl: "plain_entry s 0"
  shows "\<exists>s1 s2. advance_commit sz s = Some s1 \<and> apply_loop ib s1 = Some s2 \<and>
    env s2 = exec_entry ib (IS_LEADER s) (log_entries (slog s)) 0 (env s)"
proof -
  let ?l = "slog s" and ?c = "log_commit (slog s)"
  have nz: "En ?l < unat ?c"
    using ch wr(2) elen_bounds(1) [of "log_entries ?l" "unat ?c"] live
    by (auto simp: chain_from_def log_live_def split: if_splits)
  have el: "elen (log_entries ?l) 0 \<le> En ?l"
    using ch wr(2) elen_bounds(1) [of "log_entries ?l" "unat ?c"] nz by (auto simp: chain_from_def split: if_splits)
  have fit: "log_fit_entry ?l 0 0" using el live by (simp add: fit_entry_iff log_live_def)
  have ge: "log_get_entry ?l ?c = (Some 0, 0)"
    using distance_nonzero [OF live ch] log_live_not_empty [OF live] wr fit_header_iff [of ?c ?l]
    by (simp add: log_get_entry_def)
  have lg: "log_is_offset_larger ?l 0 ?c"
    using nz wr(1) by (simp add: offset_larger_dist [OF live] end_dist_def)
  have "commit_scan ?l sz (me s) ?c = Some 0"
    using commit_scan_entry [OF ge distance_nonzero [OF live ch]] no fit by (simp add: acked_def)
  then obtain s1 where s1: "advance_commit sz s = Some s1" "slog s1 = ?l\<lparr>log_commit := 0\<rparr>" "ctrl s1 = ctrl s"
    "my_idx (config s1) = my_idx (config s)" "env s1 = env s"
    using lg by (auto simp: advance_commit_def upd_config_def upd_log_def)
  have L: "IS_LEADER s1 = IS_LEADER s" using s1 by (simp add: roles)
  have 1: "log_is_offset_larger (slog s1) (log_commit (slog s1)) (log_apply (slog s1))"
    "log_get_entry (slog s1) (log_apply (slog s1)) = (Some 0, 0)" "log_fit_entry (slog s1) 0 0" "plain_entry s1 0"
    using lg ge fit ap pl L by (simp_all add: s1(2) plain_entry_def)
  obtain s2 where s2: "apply_loop ib s1 = apply_loop ib s2" "env s2 = exec_entry ib (IS_LEADER s) (log_entries ?l) 0 (env s)"
    "slog s2 = (slog s1)\<lparr>log_apply := 0 + ucast (log_entry_len (log_entries (slog s1)) 0)\<rparr>"
    using apply_loop_entry [OF 1, of ib] s1 L by auto
  have "unat (0 + ucast (log_entry_len (log_entries ?l) 0) :: u64) = elen (log_entries ?l) 0"
    by (simp add: unat_entry_len)
  then have "\<not> log_is_offset_larger ?l 0 (0 + ucast (log_entry_len (log_entries ?l) 0))"
    using el live by (subst offset_larger_dist [OF live]) (auto simp: end_dist_def log_live_def)
  then have "apply_loop ib s2 = Some s2"
    by (subst apply_loop.simps) (simp add: s2(3) s1(2))
  then show ?thesis using s1(1) s2(1,2) by metis
qed

text \<open>A leader whose log has wrapped around: only it has the command at offset 0.\<close>

definition wrap_mem :: mem where
  "wrap_mem = (\<lambda>x. if x = 26 then 5 else if x = 48 then 2 else 0)"

definition wrap_srv :: "nat srv" where
  "wrap_srv = (demo_srv ((demo_log 0 66)\<lparr>log_head := 128, log_apply := 980, log_commit := 980, log_entries := wrap_mem\<rparr>) 0)
     \<lparr>ctrl := demo_ctrl\<lparr>c_sid := 0x300\<rparr>\<rparr>"

lemma wrap_applies_uncommitted_witness:
  "\<exists>s1 s2. advance_commit 3 wrap_srv = Some s1 \<and> apply_loop (idle_ib\<lparr>proxy_update_state := Suc\<rparr>) s1 = Some s2 \<and>
     env s2 = 1 \<and> count_replies (log_entries (slog wrap_srv)) 0 3 0 = 1"
proof -
  let ?s = wrap_srv and ?ib = "idle_ib\<lparr>proxy_update_state := Suc\<rparr>"
  have el: "elen wrap_mem 0 = 66" "is_csm wrap_mem 0" by code_simp+
  have L: "IS_LEADER ?s" by code_simp
  have cr: "count_replies (log_entries (slog ?s)) 0 3 0 = 1" by code_simp
  have sl: "slog ?s = (demo_log 0 66)\<lparr>log_head := 128, log_apply := 980, log_commit := 980, log_entries := wrap_mem\<rparr>"
    "env ?s = 0" "me ?s = 0" by (simp_all add: wrap_srv_def demo_srv_def demo_config_def)
  have live: "log_live (slog ?s)" by (simp add: sl log_live_def demo_log_def)
  have w: "unat (log_commit (slog ?s)) < unat (log_len (slog ?s))"
    "unat (log_len (slog ?s)) < unat (log_commit (slog ?s)) + 64" by (simp_all add: sl demo_log_def)
  have ch: "chain_from (slog ?s) (log_commit (slog ?s)) [0]"
    using elen_bounds(1) [of wrap_mem 980] by (auto simp: sl chain_from_def demo_log_def el wrap_at_def)
  show ?thesis
    using wrap_applies_uncommitted [OF live ch _ w, of 3 ?ib] cr el L
    by (auto simp: sl plain_entry_def exec_entry_def is_csm_def)
qed

section \<open>Pruning\<close>

lemma prune_scan_correct:
  assumes "prune_scan i n m s = (m', s')" "log_live (slog s)" "unat m \<le> Ln (slog s)"
    "\<forall>j. unat (c_apply_offsets (ctrl s) j) \<le> Ln (slog s)" "unat (log_apply (slog s)) \<le> Ln (slog s)"
  shows "slog s' = slog s \<and> config s' = config s \<and> prev_log_entry_head s' = prev_log_entry_head s \<and>
    c_sid (ctrl s') = c_sid (ctrl s) \<and> unat m' \<le> Ln (slog s) \<and>
    end_dist (slog s) m \<le> end_dist (slog s) m' \<and>
    (\<forall>j\<in>{i..<i + n}. CID_IS_SERVER_ON (cid (config s)) (of_nat j) \<longrightarrow>
       end_dist (slog s) (c_apply_offsets (ctrl s) j) \<le> end_dist (slog s) m')"
  using assms
proof (induction n arbitrary: i m s)
  case (Suc n)
  let ?s1 = "if CID_IS_SERVER_ON (cid (config s)) (of_nat i) then s else set_apply_offset i (log_apply (slog s)) s"
  let ?a = "c_apply_offsets (ctrl ?s1) i"
  let ?m = "if log_is_offset_larger (slog s) m ?a then ?a else m"
  have s1: "slog ?s1 = slog s" "config ?s1 = config s" "prev_log_entry_head ?s1 = prev_log_entry_head s"
    "c_sid (ctrl ?s1) = c_sid (ctrl s)"
    by (simp_all add: set_apply_offset_def upd_ctrl_def)
  have ap: "unat (c_apply_offsets (ctrl ?s1) j) \<le> Ln (slog s)" for j
    using Suc.prems(4,5) by (simp add: set_apply_offset_def upd_ctrl_def)
  have later: "c_apply_offsets (ctrl ?s1) j = c_apply_offsets (ctrl s) j" if "j \<noteq> i" for j
    using that by (simp add: set_apply_offset_def upd_ctrl_def)
  have dm: "end_dist (slog s) m \<le> end_dist (slog s) ?m" "end_dist (slog s) ?a \<le> end_dist (slog s) ?m"
    using offset_larger_dist [OF Suc.prems(2,3) ap [of i]] by auto
  have "prune_scan (Suc i) n ?m ?s1 = (m', s')" using Suc.prems(1) s1(1) by (simp add: Let_def)
  moreover have "unat ?m \<le> Ln (slog s)" using Suc.prems(3) ap [of i] by simp
  ultimately have ih: "slog s' = slog ?s1 \<and> config s' = config ?s1 \<and> prev_log_entry_head s' = prev_log_entry_head ?s1 \<and>
    c_sid (ctrl s') = c_sid (ctrl ?s1) \<and> unat m' \<le> Ln (slog ?s1) \<and>
    end_dist (slog ?s1) ?m \<le> end_dist (slog ?s1) m' \<and>
    (\<forall>j\<in>{Suc i..<Suc i + n}. CID_IS_SERVER_ON (cid (config ?s1)) (of_nat j) \<longrightarrow>
       end_dist (slog ?s1) (c_apply_offsets (ctrl ?s1) j) \<le> end_dist (slog ?s1) m')"
    using Suc.IH [of "Suc i" ?m ?s1] Suc.prems(2,5) ap s1(1) by simp
  have "end_dist (slog s) (c_apply_offsets (ctrl s) j) \<le> end_dist (slog s) m'"
    if "j \<in> {i..<i + Suc n}" "CID_IS_SERVER_ON (cid (config s)) (of_nat j)" for j
  proof (cases "j = i")
    case True
    then show ?thesis using that(2) dm(2) ih s1(1) by auto
  next
    case False
    then have "j \<in> {Suc i..<Suc i + n}" using that(1) by auto
    then show ?thesis using ih s1(1,2) later [OF False] that(2) by metis
  qed
  then show ?case using ih dm(1) by (simp add: s1)
qed simp

text \<open>
  Nobody else writes the leader's log: the queue pairs of the log are open only towards
  a leader of a larger term.
\<close>

definition log_private :: "'e ibv \<Rightarrow> bool" where
  "log_private ib \<longleftrightarrow> (\<forall>q c l e. snd (fst (snd (ib_poll_cq ib q (c, l) e))) = l)"

definition keeps_slog :: "'e ibv \<Rightarrow> 'e srv \<Rightarrow> 'e srv \<Rightarrow> bool" where
  "keeps_slog ib s s' \<longleftrightarrow> (log_private ib \<longrightarrow> slog s' = slog s)"

interpretation kl: rc_frame ib "keeps_slog ib" for ib :: "'e ibv"
proof
  show "keeps_slog ib s (snd (poll ib q s))" for s q
    by (auto simp: keeps_slog_def poll_def log_private_def split: prod.splits) (metis fst_conv snd_conv)
qed (auto simp: keeps_slog_def upd_server_def)

lemma keeps_slog_ctrl: "keeps_slog ib s (upd_ctrl f s)" "keeps_slog ib s (inc_ssn s)"
  by (simp_all add: keeps_slog_def inc_ssn_def)

lemma apply_offsets_loop_slog:
  "apply_offsets_loop ib i n init s = Some (rc, s') \<Longrightarrow> keeps_slog ib s s'"
proof (induction n arbitrary: i init s)
  case 0
  then show ?case by (simp add: kl.R_refl)
next
  case (Suc n)
  have p: "keeps_slog ib s u" if "post ib i pr None (upd_server i f (if init then s else inc_ssn s)) = Some (r, po, u)"
    for pr f r po u
    using kl.post_R [OF that] kl.R_server [of ib "if init then s else inc_ssn s" i f] keeps_slog_ctrl(2) [of ib s]
    by (auto simp: keeps_slog_def split: if_splits)
  show ?case
    using Suc.prems Suc.IH p kl.R_trans keeps_slog_ctrl(1) [of ib s]
    by (auto simp: Let_def split: if_splits bind_splits) blast+
qed

lemma log_append_entry_head:
  assumes "log_append_entry l ph trm req clt typ data = Some (r, l', ph')"
  shows "log_head l' = log_head l"
proof -
  have "log_head (fst (append_cmd x p idx trm req clt typ data)) = log_head x" for x p idx
    by (simp add: append_cmd_def Let_def split: option.splits)
  then have d: "log_head (fst (append_data x p idx trm req clt typ data)) = log_head x" for x p idx
    by (simp add: append_data_def Let_def)
  have "log_head (snd (append_entry_at x p idx trm req clt typ data)) = log_head x" for x p idx
    using d [of "if log_fit_entry_header (x\<lparr>log_entries := write_entry_header (log_entries x) p idx trm req clt typ\<rparr>) (log_end x)
        then x\<lparr>log_entries := write_entry_header (log_entries x) p idx trm req clt typ\<rparr>
        else x\<lparr>log_entries := write_entry_header (log_entries x) p idx trm req clt typ, log_end := 0\<rparr>" p idx]
    by (auto simp: append_entry_at_def Let_def split: prod.splits option.splits if_splits)
  then have e: "append_entry_at x p idx trm req clt typ data = (r', l2) \<Longrightarrow> log_head l2 = log_head x" for x p idx r' l2
    by (metis snd_conv)
  show ?thesis
    using assms by (auto simp: log_append_entry_def Let_def dest!: e split: bind_splits option.splits prod.splits)
qed

lemma append_entry_head: "append_entry req clt typ data s = Some (i, s') \<Longrightarrow> log_head (slog s') = log_head (slog s)"
  by (auto simp: append_entry_def dest!: log_append_entry_head split: bind_splits)

lemma advance_head_head:
  "advance_head m s = Some s' \<Longrightarrow> log_head (slog s') = log_head (slog s) \<or>
     log_head (slog s') = m \<and> log_is_offset_larger (slog s) m (log_head (slog s))"
  by (auto simp: advance_head_def clear_snapshot_def dest!: append_entry_head split: if_splits bind_splits)

text \<open>C28: pruning never discards an entry that a server of the group still has to apply.  When
  \<^verbatim>\<open>log_pruning\<close> moves the head of the leader's log, the new head is not beyond the apply offset of
  any server that is on, nor beyond the leader's own; or all of them have applied the whole log and
  the new head is the last entry, which is kept.  No other server writes the leader's log.\<close>

theorem log_pruning_safe:
  assumes live: "log_live (slog s)" and priv: "log_private ib"
    and b: "\<forall>j. unat (c_apply_offsets (ctrl s) j) \<le> Ln (slog s)" "unat (log_apply (slog s)) \<le> Ln (slog s)"
    and p: "log_pruning ib s = Some (rc, s')" and moved: "log_head (slog s') \<noteq> log_head (slog s)"
    and on: "j < ext_n s" "CID_IS_SERVER_ON (cid (config s)) (of_nat j)"
  shows "\<not> log_is_offset_larger (slog s) (log_head (slog s')) (c_apply_offsets (ctrl s) j) \<and>
      \<not> log_is_offset_larger (slog s) (log_head (slog s')) (log_apply (slog s)) \<or>
    c_apply_offsets (ctrl s) j = log_end (slog s) \<and> log_apply (slog s) = log_end (slog s) \<and>
      log_get_tail (slog s) = Some (log_head (slog s'))"
proof -
  let ?l = "slog s" and ?a = "c_apply_offsets (ctrl s) j"
  obtain m s1 where sc: "prune_scan 0 (ext_n s) (log_apply ?l) s = (m, s1)"
    by (cases "prune_scan 0 (ext_n s) (log_apply ?l) s")
  note c = prune_scan_correct [OF sc live b(2) b]
  have L: "IS_LEADER s" using p moved by (auto simp: log_pruning_def split: if_splits)
  obtain m2 s2 where m2: "(if log_offset_end_distance (slog s1) m = 0 then log_get_tail (slog s1) else Some m) = Some m2"
    "advance_head m2 s1 = Some s2" "rc_get_remote_apply_offsets ib s2 \<noteq> None"
    using p L sc by (auto simp: log_pruning_def split: bind_splits if_splits)
  obtain r s3 where r: "rc_get_remote_apply_offsets ib s2 = Some (r, s3)" "s' = s3"
    using p L sc m2 by (auto simp: log_pruning_def split: bind_splits if_splits)
  have "slog s' = slog s2"
    using apply_offsets_loop_slog [of ib 0] r priv by (auto simp: rc_get_remote_apply_offsets_def keeps_slog_def)
  then have h: "log_head (slog s') = m2" using advance_head_head [OF m2(2)] moved c by auto
  have dist: "end_dist ?l ?a \<le> end_dist ?l m" "end_dist ?l (log_apply ?l) \<le> end_dist ?l m" "unat m \<le> Ln ?l"
    using c on by auto
  show ?thesis
  proof (cases "log_offset_end_distance ?l m = 0")
    case True
    have z: "x = log_end ?l" if "end_dist ?l x \<le> end_dist ?l m" "unat x \<le> Ln ?l" for x
    proof -
      have "m = log_end ?l" using True end_distance_0 [OF live dist(3)] by simp
      then have "end_dist ?l x = 0" using that(1) by (simp add: end_dist_def)
      then have "unat x = En ?l" using that(2) live by (auto simp: end_dist_def log_live_def split: if_splits)
      then show ?thesis by (simp add: word_unat_eq_iff)
    qed
    have "?a = log_end ?l" "log_apply ?l = log_end ?l" using z dist(1,2) b by blast+
    then show ?thesis using True m2(1) h c by auto
  next
    case False
    then have "m2 = m" using m2(1) c by simp
    then show ?thesis
      using h dist offset_larger_dist [OF live dist(3)] b by (intro disjI1) auto
  qed
qed

text \<open>A leader, alone in its group, that has applied the first of two entries.\<close>

definition prune_srv :: "unit srv" where
  "prune_srv = (demo_srv ((demo_log 0 128)\<lparr>log_apply := 64\<rparr>) ())
     \<lparr>config := demo_config\<lparr>cid := demo_cid\<lparr>bitmask := 1\<rparr>\<rparr>,
      ctrl := demo_ctrl\<lparr>c_sid := 0x300, c_apply_offsets := (\<lambda>_. 64)\<rparr>\<rparr>"

lemma prune_run: "map_option (\<lambda>(rc, s'). log_head (slog s')) (log_pruning idle_ib prune_srv) = Some 64"
  by code_simp

lemma log_pruning_safe_witness:
  "\<exists>rc s'. log_pruning idle_ib prune_srv = Some (rc, s') \<and> log_head (slog s') = 64 \<and>
     \<not> log_is_offset_larger (slog prune_srv) 64 (c_apply_offsets (ctrl prune_srv) 0)"
proof -
  let ?s = prune_srv
  obtain rc s' where p: "log_pruning idle_ib ?s = Some (rc, s')" "log_head (slog s') = 64"
    using prune_run by auto
  have sl: "slog ?s = (demo_log 0 128)\<lparr>log_apply := 64\<rparr>" "c_apply_offsets (ctrl ?s) = (\<lambda>_. 64)"
    by (simp_all add: prune_srv_def demo_srv_def)
  have "ext_n ?s = 3" "CID_IS_SERVER_ON (cid (config ?s)) 0" by code_simp+
  moreover have "log_live (slog ?s)" "log_head (slog ?s) = 0" "log_end (slog ?s) = 128" "unat (log_len (slog ?s)) = 1024"
    by (simp_all add: sl demo_log_def log_live_def)
  moreover have "log_private idle_ib" by (simp add: log_private_def idle_ib_def)
  ultimately show ?thesis
    using log_pruning_safe [of ?s idle_ib rc s' 0] p sl by auto
qed

end
