(* ===== verification/Dare_Vote_Props.thy ===== *)
theory Dare_Vote_Props
  imports Dare_Normal_Props Dare_Election_Props
begin

text \<open>
  Properties of counting the votes: a candidate becomes leader only with the votes of
  majorities, and what happens to the votes when a candidate raises its term.
\<close>

section \<open>Counting\<close>


definition votes :: "'e srv \<Rightarrow> nat \<Rightarrow> nat \<Rightarrow> u8 \<Rightarrow> nat" where
  "votes s i n k = card {j \<in> {i..<i + n}. j \<noteq> me s \<and> c_vote_ack (ctrl s) j \<noteq> log_len (slog s) \<and> j < unat k}"

lemma votes_0 [simp]: "votes s i 0 k = 0"
  by (simp add: votes_def)

lemma votes_Suc:
  "votes s i (Suc n) k = (if i \<noteq> me s \<and> c_vote_ack (ctrl s) i \<noteq> log_len (slog s) \<and> i < unat k then 1 else 0)
     + votes s (Suc i) n k"
proof -
  let ?P = "\<lambda>j. j \<noteq> me s \<and> c_vote_ack (ctrl s) j \<noteq> log_len (slog s) \<and> j < unat k"
  have "{j \<in> {i..<i + Suc n}. ?P j} = (if ?P i then insert i {j \<in> {Suc i..<Suc i + n}. ?P j} else {j \<in> {Suc i..<Suc i + n}. ?P j})"
    by (auto simp: less_Suc_eq_le order_le_less)
  then show ?thesis by (simp add: votes_def)
qed


lemma votes_cong:
  "my_idx (config s') = my_idx (config s) \<Longrightarrow> c_vote_ack (ctrl s') = c_vote_ack (ctrl s)
    \<Longrightarrow> log_len (slog s') = log_len (slog s) \<Longrightarrow> votes s' i n k = votes s i n k"
  by (simp add: votes_def)

lemma count_votes_correct:
  "count_votes i n v s = (v', s') \<Longrightarrow>
     v' = (fst v + votes s i n (size0 (cid (config s))), snd v + votes s i n (size1 (cid (config s)))) \<and>
     cid (config s') = cid (config s) \<and> c_sid (ctrl s') = c_sid (ctrl s)"
proof (induction n arbitrary: i v s)
  case (Suc n)
  let ?ack = "c_vote_ack (ctrl s) i"
  show ?case
  proof (cases "i = me s \<or> log_len (slog s) = ?ack")
    case True
    then have "count_votes (Suc i) n v s = (v', s')" using Suc.prems by (simp add: Let_def)
    from Suc.IH [OF this] show ?thesis using True by (auto simp: votes_Suc)
  next
    case False
    let ?v = "(if i < unat (size0 (cid (config s))) then fst v + 1 else fst v,
               if i < unat (size1 (cid (config s))) then snd v + 1 else snd v)"
    let ?s1 = "upd_server i (\<lambda>x. x\<lparr>next_lr_step := LR_GET_NCE_LEN\<rparr>) (upd_offsets i (\<lambda>x. x\<lparr>lo_commit := ?ack\<rparr>) s)"
    let ?s2 = "if log_is_offset_larger (slog ?s1) ?ack (log_commit (slog ?s1))
               then upd_log (\<lambda>l. l\<lparr>log_commit := ?ack\<rparr>) ?s1 else ?s1"
    have "count_votes (Suc i) n ?v ?s2 = (v', s')" using Suc.prems False by (simp add: Let_def)
    note ih = Suc.IH [OF this]
    have k: "my_idx (config ?s2) = my_idx (config s)" "c_vote_ack (ctrl ?s2) = c_vote_ack (ctrl s)"
      "log_len (slog ?s2) = log_len (slog s)" "cid (config ?s2) = cid (config s)" "c_sid (ctrl ?s2) = c_sid (ctrl s)"
      by (simp_all add: upd_offsets_def upd_ctrl_def upd_server_def)
    then show ?thesis using ih False votes_cong [OF k(1-3)] by (auto simp: votes_Suc)
  qed
qed simp





section \<open>Raising the term\<close>

lemma fst_count_votes:
  "fst (count_votes i n v s) = (fst v + votes s i n (size0 (cid (config s))), snd v + votes s i n (size1 (cid (config s))))"
  using count_votes_correct by (metis prod.collapse)

lemma dropped_last: "dropped c c' \<Longrightarrow> last_of (c_vote_req c' j) = last_of (c_vote_req c j)"
proof -
  assume "dropped c c'"
  then consider "c_vote_req c' j = c_vote_req c j" | "c_vote_req c' j = (c_vote_req c j)\<lparr>vr_sid := 0\<rparr>"
    by (auto simp: dropped_def)
  then show ?thesis by cases simp_all
qed

text \<open>C32: the votes of a term survive a change of the term.  Let every vote request come
  with a log that is older than the local one.  If \<^verbatim>\<open>poll_vote_requests\<close> changes the term, it raises it,
  the server stays a candidate, and no vote acknowledgement is reset: the majority that \<^verbatim>\<open>poll_vote_count\<close>
  next looks for in the new term consists of votes given for the old one.\<close>

theorem raised_term_keeps_votes:
  assumes p: "poll_vote_requests ib s = Some s'" and req: "candidate_requests s"
    and inv: "log_inv_live (slog s) os oa oc" and tl: "oc \<noteq> [] \<or> log_tail (slog s) = log_len (slog s)"
    and old: "\<forall>j<group_n s. \<not> as_recent (entry_term (log_entries (slog s)) (last os), entry_idx (log_entries (slog s)) (last os))
      (last_of (c_vote_req (ctrl s) j))"
    and changed: "SID_GET_TERM (c_sid (ctrl s')) \<noteq> SID_GET_TERM (c_sid (ctrl s))"
  shows "SID_GET_TERM (c_sid (ctrl s)) < SID_GET_TERM (c_sid (ctrl s')) \<and>
    SID_GET_IDX (c_sid (ctrl s')) = my_idx (config s') \<and> \<not> has_L (c_sid (ctrl s')) \<and>
    is_majority (cid (config s')) (fst (count_votes 0 (group_n s') (1, 1) s')) =
      is_majority (cid (config s)) (fst (count_votes 0 (group_n s) (1, 1) s))"
  using p
proof (cases rule: poll_vote_requests_cases)
  case (judge best_sid c)
  let ?sid = "c_sid (ctrl s)"
  show ?thesis
    using judge(5)
  proof (cases rule: judge_requests_cases)
    case (raise s1 s2 ix tm best h c')
    note ch = choose_request_correct [OF raise(4)]
    have rq: "\<not> has_L (vr_sid (c_vote_req (ctrl s) j))" if "j < group_n s" for j
      using req that by (auto simp: candidate_requests_def Let_def)
    have best: "SID_GET_TERM ?sid < SID_GET_TERM best_sid"
      using better_sid_term judge(3,4) rq by auto
    have h: "SID_GET_TERM best_sid \<le> h" "unat h < 2 ^ 55" using ch SID_GET_TERM_bound by auto
    have c: "c_sid c' = ?sid" "c_vote_ack c' = c_vote_ack (ctrl s)"
      using ch judge(2) by (auto simp: dropped_def)
    have sid: "SID_GET_TERM (c_sid (ctrl s')) = h" "SID_GET_IDX (c_sid (ctrl s')) = my_idx (config s')"
      "\<not> has_L (c_sid (ctrl s'))"
      using raise(6,7) h(2) c(1) judge(1) by (simp_all add: sid_simps)
    have k: "my_idx (config s') = my_idx (config s)" "c_vote_ack (ctrl s') = c_vote_ack (ctrl s)"
      "log_len (slog s') = log_len (slog s)" "cid (config s') = cid (config s)" using raise c(2) by simp_all
    have "fst (count_votes 0 (group_n s') (1, 1) s') = fst (count_votes 0 (group_n s) (1, 1) s)"
      unfolding fst_count_votes votes_cong [OF k(1-3)] k(4) by (rule refl)
    then show ?thesis using sid best h(1) k(4) by simp
  next
    case (vote s1 s2 ix tm best h c')
    note ch = choose_request_correct [OF vote(4)]
    obtain j where j: "j < group_n s" "best = c_vote_req c j" using ch vote(5) by auto
    have "last_of best = last_of (c_vote_req (ctrl s) j)"
      using dropped_last [OF judge(2)] j(2) by simp
    moreover have "slog s1 = slog s" using revoke_sel(2) [OF vote(1)] by simp
    then have "(ix, tm) = (entry_idx (log_entries (slog s)) (last os), entry_term (log_entries (slog s)) (last os))"
      using local_last_correct [OF _ _ vote(2), of os oa oc] inv tl vote(3) by simp
    ultimately show ?thesis using ch old j(1) by auto
  qed
qed (use changed in simp_all)

lemma raised_term_keeps_votes_witness:
  "\<exists>s'. poll_vote_requests demo_ib (demo_voter 1) = Some s' \<and> 3 < SID_GET_TERM (c_sid (ctrl s')) \<and>
     is_majority (cid (config s')) (fst (count_votes 0 (group_n s') (1, 1) s'))"
proof -
  let ?s = "demo_voter 1"
  have "map_option (\<lambda>s. c_sid (ctrl s)) (poll_vote_requests demo_ib ?s) = Some 0x800" by code_simp
  then obtain s' where s': "poll_vote_requests demo_ib ?s = Some s'" "c_sid (ctrl s') = 0x800" by auto
  have inv: "log_inv_live (slog ?s) [0, 64] [0, 64] [64]" using demo_inv [of 2] by (simp add: demo_voter_sel)
  have old: "\<forall>j<group_n ?s. \<not> as_recent (entry_term (log_entries (slog ?s)) (last [0, 64]), entry_idx (log_entries (slog ?s)) (last [0, 64]))
      (last_of (c_vote_req (ctrl ?s) j))"
  proof -
    have "last_of (c_vote_req (ctrl ?s) 0) = (0, 0)" "last_of (c_vote_req (ctrl ?s) (Suc 0)) = (1, 5)"
      "(entry_term (log_entries (slog ?s)) 64, entry_idx (log_entries (slog ?s)) 64) = (2, 2)" by code_simp+
    then show ?thesis by (auto simp: as_recent_def demo_voter_sel(4) dest!: less_2_cases)
  qed
  have "is_majority (cid (config ?s)) (fst (count_votes 0 (group_n ?s) (1, 1) ?s))" by code_simp
  then show ?thesis
    using raised_term_keeps_votes [OF s'(1) demo_voter_requests inv _ old] s' by (simp add: demo_voter_sel)
qed

end
