(* ===== verification/Dare_Recovery.thy ===== *)
theory Dare_Recovery
  imports Dare_Normal
begin

text \<open>
  Recovery of a server that joins a running group, from \<^verbatim>\<open>dare_ibv_rc.c\<close> and
  \<^verbatim>\<open>dare_server.c\<close>: the request for a snapshot and its answer, reading the snapshot and the
  log of another server, and the timer callbacks that lead from one step to the
  next.  A snapshot is dumped either into the preregistered buffer or into one that is
  allocated for it; the allocated buffer is known only to the call that made it.
\<close>

definition PREREG_SNAPSHOT_SIZE :: u32 where "PREREG_SNAPSHOT_SIZE = 128 * 4096"

definition sizeof_snapshot :: u32 where "sizeof_snapshot = 32"

section \<open>Snapshots over RDMA\<close>

definition rc_send_sm_request :: "'e ibv \<Rightarrow> 'e srv \<Rightarrow> (int \<times> 'e srv) option" where
  "rc_send_sm_request ib s =
     (let s1 = upd_ctrl (\<lambda>c. c\<lparr>c_sm_req := (c_sm_req c)(me s := 1)\<rparr>) s
      in map_option (\<lambda>(rc, p, s'). (rc, s'))
           (post_each ib False 0 (ctrl_write (off_sm_req (me s)) 8 (off_sm_req (me s)) False)
              0 (group_n s) no_sends (inc_ssn s1)))"

text \<open>\<open>buf\<close> is the buffer that holds the snapshot, \<open>len\<close> the length of its data.\<close>

definition rc_send_sm_reply :: "'e ibv \<Rightarrow> nat \<Rightarrow> region \<Rightarrow> u32 \<Rightarrow> bool \<Rightarrow> 'e srv \<Rightarrow> (int \<times> 'e srv) option" where
  "rc_send_sm_reply ib target buf len reg_mem s =
     (let (ok, e) = (if reg_mem then ib_reg_mr ib buf (sizeof_snapshot + len) (env s) else (True, env s));
          s1 = s\<lparr>env := e\<rparr>
      in if \<not> ok then Some (1, s1)
         else
           let s2 = upd_ctrl (\<lambda>c. c\<lparr>c_sm_rep := (c_sm_rep c)(me s := \<lparr>sr_sid = c_sid c,
                  sr_raddr = ib_region_addr ib buf, sr_rkey = ib_region_rkey ib buf, sr_len = sizeof_snapshot + len\<rparr>)\<rparr>) s1
           in if \<not> rc_connected (ep_at s2 target) then Some (0, s2)
              else let s3 = inc_ssn s2 in
                map_option (\<lambda>(rc, p, s'). (if rc \<noteq> 0 then RC_ERROR else 0, s'))
                  (post ib target (ctrl_write (off_sm_rep (me s)) 24 (off_sm_rep (me s)) False target s3) None s3))"

text \<open>Memory for the snapshot that is going to be read: the buffer, or an error.\<close>

definition recover_buffer :: "'e ibv \<Rightarrow> u32 \<Rightarrow> 'e srv \<Rightarrow> region option \<times> 'e srv" where
  "recover_buffer ib len s =
     (if len \<le> PREREG_SNAPSHOT_SIZE then (Some R_prereg, s)
      else case posix_memalign ib (env s) of (rc, e) \<Rightarrow>
        if rc \<noteq> 0 then (None, s\<lparr>env := e\<rparr>)
        else case ib_reg_mr ib R_snapshot (sizeof_snapshot + len) e of (ok, e1) \<Rightarrow>
          (if ok then Some R_snapshot else None, s\<lparr>env := e1\<rparr>))"

text \<open>
  After a successful read \<open>ib_snapshot\<close> is what the buffer holds.  The buffer that an
  earlier call left in \<^verbatim>\<open>data.snapshot\<close> is released.
\<close>

definition rc_recover_sm :: "'e ibv \<Rightarrow> nat \<Rightarrow> 'e srv \<Rightarrow> (int \<times> 'e srv) option" where
  "rc_recover_sm ib target s =
     (let rep = c_sm_rep (ctrl s) target; len = sr_len rep in
      case recover_buffer ib len s of (None, s1) \<Rightarrow> Some (1, s1)
      | (Some buf, s1) \<Rightarrow> do {
          let posted = (\<lambda>_. - 1)(target := 1);
          (rc, po, s2) \<leftarrow> post ib target \<lparr>pq_qp = CTRL_QP, pq_buf = (buf, 0), pq_len = len, pq_mr = buf,
              pq_opc = RDMA_READ, pq_sig = True, pq_rm = \<lparr>raddr = sr_raddr rep, rkey = sr_rkey rep\<rparr>\<rparr>
              (Some posted) (inc_ssn s1);
          if rc \<noteq> 0 then Some (RC_ERROR, s2)
          else do {
            (rc, p, s3) \<leftarrow> wait_for_one ib (case po of None \<Rightarrow> posted | Some p \<Rightarrow> p) CTRL_QP s2;
            if rc = RC_ERROR then Some (1, s3)
            else if rc \<noteq> RC_SUCCESS then Some (- 1, s3)
            else
              let sn = ib_snapshot ib (env s3);
                  s4 = (if buf = R_prereg then s3\<lparr>prereg_snapshot := sn\<rparr> else s3);
                  (rc, e) = proxy_apply_db_snapshot ib (take (unat (sn_len sn)) (sn_data sn)) (env s4);
                  s5 = s4\<lparr>env := e\<rparr>
              in if rc \<noteq> 0 then Some (1, s5)
                 else
                   let s6 = upd_log (\<lambda>l. l\<lparr>log_apply := det_offset (sn_last_entry sn)\<rparr>) s5
                   in Some (0, if sr_len (c_sm_rep (ctrl s6) target) > PREREG_SNAPSHOT_SIZE
                               then s6\<lparr>snapshot_buf := None\<rparr> else s6)
          }
        })"

section \<open>Reading the log of another server\<close>

definition first_success :: "sends \<Rightarrow> nat \<Rightarrow> nat" where
  "first_success posted n = (case filter (\<lambda>i. posted i = 0) [0..<n] of [] \<Rightarrow> n | i # _ \<Rightarrow> i)"

text \<open>The local offsets from those read from \<open>target\<close>.\<close>

definition adopt_offsets :: "nat \<Rightarrow> 'e srv \<Rightarrow> 'e srv" where
  "adopt_offsets target s =
     (let rend = lo_end (c_log_offsets (ctrl s) target);
          s1 = upd_log (\<lambda>l. l\<lparr>log_end := rend\<rparr>) s;
          s2 = (if rend > 0 \<and> rend < log_head (slog s1) then upd_offsets target (\<lambda>x. x\<lparr>lo_end := 0\<rparr>) s1 else s1);
          o2 = c_log_offsets (ctrl s2) target;
          s3 = (if log_is_offset_larger (slog s2) (lo_commit o2) (lo_end o2)
                then upd_offsets target (\<lambda>x. x\<lparr>lo_commit := lo_end o2\<rparr>) s2 else s2);
          o3 = c_log_offsets (ctrl s3) target
      in upd_log (\<lambda>l. l\<lparr>log_end := lo_end o3, log_commit := lo_commit o3\<rparr>) s3)"

definition read_entries :: "'e ibv \<Rightarrow> nat \<Rightarrow> 'e srv \<Rightarrow> (int \<times> 'e srv) option" where
  "read_entries ib target s = do {
     let head = unat (log_head (slog s));
     let posted = (\<lambda>_. - 1)(target := 1);
     let s1 = inc_ssn s;
     (rc, po, s2) \<leftarrow> post ib target \<lparr>pq_qp = CTRL_QP, pq_buf = (R_log, off_entries + head),
         pq_len = ucast (log_offset_end_distance (slog s) (log_head (slog s))), pq_mr = R_log,
         pq_opc = RDMA_READ, pq_sig = True, pq_rm = rmt target LOG_QP (of_nat (off_entries + head)) s1\<rparr> (Some posted) s1;
     if rc \<noteq> 0 then Some (RC_ERROR, s2)
     else do {
       (rc, p, s3) \<leftarrow> wait_for_one ib (case po of None \<Rightarrow> posted | Some p \<Rightarrow> p) CTRL_QP s2;
       Some (if rc = RC_ERROR then 1 else if rc \<noteq> RC_SUCCESS then - 1 else 0, s3)
     }
   }"

definition offsets_read :: "nat \<Rightarrow> 'e srv \<Rightarrow> post_req" where
  "offsets_read i s = \<lparr>pq_qp = CTRL_QP, pq_buf = (R_ctrl, off_log_offsets i + 16), pq_len = 16, pq_mr = R_ctrl,
     pq_opc = RDMA_READ, pq_sig = True, pq_rm = rmt i LOG_QP (of_nat off_log_commit) s\<rparr>"

definition rc_recover_log :: "'e ibv \<Rightarrow> 'e srv \<Rightarrow> (int \<times> 'e srv) option" where
  "rc_recover_log ib s = do {
     (rc, posted, s1) \<leftarrow> post_each ib True (- 1) offsets_read 0 (group_n s) no_sends (inc_ssn s);
     if rc \<noteq> 0 then Some (RC_ERROR, s1)
     else do {
       (rc, posted, s2) \<leftarrow> wait_for_one ib posted CTRL_QP s1;
       if rc = RC_ERROR then Some (1, s2)
       else if rc \<noteq> RC_SUCCESS then Some (- 1, s2)
       else
         let target = first_success posted (group_n s) in
         if MAX_SERVER_COUNT \<le> target then None
         else if lo_end (c_log_offsets (ctrl s2) target) = log_len (slog s2) then Some (0, s2)
         else read_entries ib target (adopt_offsets target s2)
     }
   }"

section \<open>Snapshot requests\<close>

text \<open>
  A new snapshot: its buffer, whether the buffer has to be registered, and the length of
  the data; \<open>None\<close> when there is no memory for it.
\<close>

definition make_snapshot :: "'e ibv \<Rightarrow> 'e srv \<Rightarrow> (region \<times> bool \<times> u32 \<times> 'e srv) option" where
  "make_snapshot ib s =
     (let len = proxy_get_db_size ib (env s);
          (buf, rc, e) = (if len \<le> PREREG_SNAPSHOT_SIZE then (R_prereg, 0, env s)
                          else case posix_memalign ib (env s) of (rc, e) \<Rightarrow> (R_snapshot, rc, e));
          sn = \<lparr>sn_last_entry = last_applied_entry s, sn_len = len, sn_data = proxy_create_db_snapshot ib e\<rparr>
      in if rc \<noteq> 0 then None
         else Some (buf, buf = R_snapshot, len,
           (if buf = R_prereg then s\<lparr>prereg_snapshot := sn\<rparr> else s)
             \<lparr>env := e, dare_state := dare_state s OR SNAPSHOT\<rparr>))"

text \<open>
  The loop of \<^verbatim>\<open>poll_sm_requests\<close>.  The local variable \<^verbatim>\<open>snapshot\<close> has no value until a snapshot is made
  in the same call: \<open>cur\<close> is \<open>None\<close>, and answering a request then is undefined.
\<close>

fun sm_requests_loop ::
  "'e ibv \<Rightarrow> nat \<Rightarrow> nat \<Rightarrow> (region \<times> bool \<times> u32) option \<Rightarrow> 'e srv \<Rightarrow> 'e srv option" where
  "sm_requests_loop ib i 0 cur s = Some s"
| "sm_requests_loop ib i (Suc n) cur s =
     (if i = me s \<or> c_sm_req (ctrl s) i = 0 then sm_requests_loop ib (Suc i) n cur s
      else do {
        let s1 = upd_ctrl (\<lambda>c. c\<lparr>c_sm_req := (c_sm_req c)(i := 0)\<rparr>) s;
        (cur', s2) \<leftarrow> (if has_state s1 SNAPSHOT then Some (cur, s1)
           else map_option (\<lambda>(buf, reg, len, t). (Some (buf, reg, len), t)) (make_snapshot ib s1));
        (buf, reg, len) \<leftarrow> cur';
        (rc, s3) \<leftarrow> rc_send_sm_reply ib i buf len reg s2;
        if rc \<noteq> 0 then None else sm_requests_loop ib (Suc i) n cur' s3
      })"

definition poll_sm_requests :: "'e ibv \<Rightarrow> 'e srv \<Rightarrow> 'e srv option" where
  "poll_sm_requests ib s = sm_requests_loop ib 0 (group_n s) None s"

section \<open>Recovery steps\<close>

definition set_timer :: "timer_cb \<Rightarrow> rat \<Rightarrow> 'e srv \<Rightarrow> 'e srv" where
  "set_timer cb r s = s\<lparr>timer_event := ev_timer_again ((timer_event s)\<lparr>tm_cb := cb, tm_repeat := r\<rparr>)\<rparr>"

text \<open>The timer keeps its callback and gets a new repeat value.\<close>

definition again :: "rat \<Rightarrow> 'e srv \<Rightarrow> 'e srv" where
  "again r s = s\<lparr>timer_event := ev_timer_again ((timer_event s)\<lparr>tm_repeat := r\<rparr>)\<rparr>"

definition find_reply :: "'e srv \<Rightarrow> nat" where
  "find_reply s =
     (case filter (\<lambda>i. i \<noteq> me s \<and> (let r = c_sm_rep (ctrl s) i in
             sr_sid r > c_sid (ctrl s) \<and> sr_raddr r \<noteq> 0 \<and> sr_rkey r \<noteq> 0 \<and> sr_len r \<noteq> 0)) [0..<group_n s]
      of [] \<Rightarrow> group_n s | i # _ \<Rightarrow> i)"

definition poll_sm_reply :: "'e ibv \<Rightarrow> 'e srv \<Rightarrow> 'e srv option" where
  "poll_sm_reply ib s =
     (let target = find_reply s in
      if target = group_n s then Some s
      else do {
        (rc, s1) \<leftarrow> rc_recover_sm ib target (upd_ctrl (\<lambda>c. c\<lparr>c_sid := sr_sid (c_sm_rep c target)\<rparr>) s);
        if rc > 1 then None
        else if rc \<noteq> 0 then Some s1
        else
          let s2 = upd_ctrl (\<lambda>c. c\<lparr>c_sm_rep := (\<lambda>i. if i < MAX_SERVER_COUNT
                then \<lparr>sr_sid = 0, sr_raddr = 0, sr_rkey = 0, sr_len = 0\<rparr> else c_sm_rep c i)\<rparr>) s1
          in Some (set_timer Cb_recover_log NOW (s2\<lparr>dare_state := dare_state s2 OR SM_RECOVERED\<rparr>))
      })"

definition recover_log_cb :: "'e ibv \<Rightarrow> 'e srv \<Rightarrow> 'e srv option" where
  "recover_log_cb ib s = do {
     (rc, s1) \<leftarrow> rc_recover_log ib s;
     if rc > 1 then None
     else if rc \<noteq> 0 then Some (again (retransmit_period s1) s1)
     else
       let s2 = set_timer Cb_update_rc_info (rc_info_period s1) (s1\<lparr>dare_state := dare_state s1 OR LOG_RECOVERED\<rparr>)
       in if SID_GET_TERM (c_sid (ctrl s2)) = 0 then start_election ib s2 else server_to_follower ib s2
   }"

definition start_sid :: "'e srv \<Rightarrow> u64" where
  "start_sid s = SID_SET_L (SID_SET_IDX (SID_SET_TERM (c_sid (ctrl s)) 0) (my_idx (config s)))"

definition get_replicated_vote_cb :: "'e ibv \<Rightarrow> 'e srv \<Rightarrow> 'e srv option" where
  "get_replicated_vote_cb ib s = do {
     let s1 = upd_ctrl (\<lambda>c. c\<lparr>c_sid := start_sid s\<rparr>) s;
     if size0 (cid (config s1)) = 2 then Some (set_timer Cb_send_sm_request NOW s1)
     else do {
       (rc, s2) \<leftarrow> rc_get_replicated_vote ib s1;
       if rc > 1 then None
       else if rc \<noteq> 0 then Some (again (retransmit_period s2) s2)
       else Some (set_timer Cb_send_sm_request NOW s2)
     }
   }"

definition send_sm_request_cb :: "'e ibv \<Rightarrow> 'e srv \<Rightarrow> 'e srv option" where
  "send_sm_request_cb ib s = do {
     (rc, s1) \<leftarrow> rc_send_sm_request ib s;
     if rc \<noteq> 0 then None else Some (again (retransmit_period s1) s1)
   }"

definition join_cluster_cb :: "'e ibv \<Rightarrow> 'e srv \<Rightarrow> 'e srv option" where
  "join_cluster_cb ib s = do {
     (rc, s1) \<leftarrow> ud_join_cluster ib s;
     if rc \<noteq> 0 then None else Some (again (retransmit_period s1) s1)
   }"

definition exchange_rc_info_cb :: "'e ibv \<Rightarrow> 'e srv \<Rightarrow> 'e srv option" where
  "exchange_rc_info_cb ib s = do {
     (rc, s1) \<leftarrow> ud_exchange_rc_info ib s;
     if rc \<noteq> 0 then None else Some (again (retransmit_period s1) s1)
   }"

definition update_rc_info_cb :: "'e ibv \<Rightarrow> 'e srv \<Rightarrow> 'e srv option" where
  "update_rc_info_cb ib s = do {
     (rc, s1) \<leftarrow> ud_update_rc_info ib s;
     if rc \<noteq> 0 then None else Some (again (rc_info_period s1) s1)
   }"

end
