(* ===== verification/Dare_Uthash.thy ===== *)
theory Dare_Uthash
  imports Dare_Prelude "HOL-Library.Multiset"
begin

text \<open>
  The hash table of \<^verbatim>\<open>utils/uthash/uthash.h\<close>, as the proxy uses it: intrusive, with chained buckets
  that are doubled when a chain grows too long.  An element is a block of memory, named by its
  address; the table keeps its key and hash value.  A bucket's chain is the list of its elements
  from \<^verbatim>\<open>hh_head\<close> on, and \<open>ut_app\<close> is the list of all elements in the order of their
  insertion (the \<^verbatim>\<open>next\<close>/\<^verbatim>\<open>prev\<close> links).  A NULL head is \<open>None\<close>.  Running out of memory ends the process and is
  not modelled; \<open>None\<close> as the result of an insertion is a bucket count that exceeds 32 bits.
\<close>

section \<open>Data\<close>

definition HASH_INITIAL_NUM_BUCKETS :: u32 where "HASH_INITIAL_NUM_BUCKETS = 32"
definition HASH_INITIAL_NUM_BUCKETS_LOG2 :: u32 where "HASH_INITIAL_NUM_BUCKETS_LOG2 = 5"
definition HASH_BKT_CAPACITY_THRESH :: u32 where "HASH_BKT_CAPACITY_THRESH = 10"

lemmas ut_consts = HASH_INITIAL_NUM_BUCKETS_def HASH_INITIAL_NUM_BUCKETS_LOG2_def HASH_BKT_CAPACITY_THRESH_def

record ut_handle =
  hh_addr :: nat
  hh_key :: "u8 list"
  hh_hashv :: u32

record ut_bucket =
  bk_chain :: "ut_handle list"
  bk_count :: u32
  bk_expand_mult :: u32

record ut_table =
  ut_buckets :: "ut_bucket list"
  ut_num_buckets :: u32
  ut_log2 :: u32
  ut_num_items :: u32
  ut_ideal :: u32
  ut_nonideal :: u32
  ut_ineff :: u32
  ut_noexpand :: u32
  ut_app :: "nat list"

type_synonym uthash = "ut_table option"

section \<open>The hash function\<close>

definition HASH_JEN_MIX :: "u32 \<Rightarrow> u32 \<Rightarrow> u32 \<Rightarrow> u32 \<times> u32 \<times> u32" where
  "HASH_JEN_MIX a b c =
     (let a = (a - b - c) XOR drop_bit 13 c; b = (b - c - a) XOR push_bit 8 a; c = (c - a - b) XOR drop_bit 13 b;
          a = (a - b - c) XOR drop_bit 12 c; b = (b - c - a) XOR push_bit 16 a; c = (c - a - b) XOR drop_bit 5 b;
          a = (a - b - c) XOR drop_bit 3 c; b = (b - c - a) XOR push_bit 10 a; c = (c - a - b) XOR drop_bit 15 b
      in (a, b, c))"

text \<open>Byte \<open>n\<close> of a key, shifted; nothing for a byte the key does not have.\<close>

definition jen_byte :: "u8 list \<Rightarrow> nat \<Rightarrow> nat \<Rightarrow> u32" where
  "jen_byte key n sh = (if n < length key then push_bit sh (ucast (key ! n)) else 0)"

fun jen_loop :: "u8 list \<Rightarrow> u32 \<Rightarrow> u32 \<Rightarrow> u32 \<Rightarrow> u8 list \<times> u32 \<times> u32 \<times> u32" where
  "jen_loop key i j hashv =
     (if length key \<ge> 12 then
        let b = jen_byte key;
            (i, j, hashv) = HASH_JEN_MIX (i + (b 0 0 + b 1 8 + b 2 16 + b 3 24))
               (j + (b 4 0 + b 5 8 + b 6 16 + b 7 24)) (hashv + (b 8 0 + b 9 8 + b 10 16 + b 11 24))
        in jen_loop (drop 12 key) i j hashv
      else (key, i, j, hashv))"

declare jen_loop.simps [simp del]

text \<open>The switch falls through, from the last byte down to the first.\<close>

definition HASH_JEN :: "u8 list \<Rightarrow> u32" where
  "HASH_JEN key =
     (let (rest, i, j, hashv) = jen_loop key 0x9e3779b9 0x9e3779b9 0xfeedbeef;
          hashv = hashv + of_nat (length key);
          b = jen_byte rest;
          hashv = hashv + b 10 24 + b 9 16 + b 8 8;
          j = j + b 7 24 + b 6 16 + b 5 8 + b 4 0;
          i = i + b 3 24 + b 2 16 + b 1 8 + b 0 0
      in snd (snd (HASH_JEN_MIX i j hashv)))"

definition HASH_TO_BKT :: "u32 \<Rightarrow> u32 \<Rightarrow> nat" where
  "HASH_TO_BKT hashv num_bkts = unat (hashv AND (num_bkts - 1))"

section \<open>Operations\<close>

definition HASH_FIND_IN_BKT :: "ut_bucket \<Rightarrow> u8 list \<Rightarrow> ut_handle option" where
  "HASH_FIND_IN_BKT bkt key = find (\<lambda>x. hh_key x = key) (bk_chain bkt)"

definition HASH_FIND :: "uthash \<Rightarrow> u8 list \<Rightarrow> ut_handle option" where
  "HASH_FIND head key = (case head of None \<Rightarrow> None
     | Some t \<Rightarrow> HASH_FIND_IN_BKT (ut_buckets t ! HASH_TO_BKT (HASH_JEN key) (ut_num_buckets t)) key)"

definition empty_bucket :: ut_bucket where
  "empty_bucket = \<lparr>bk_chain = [], bk_count = 0, bk_expand_mult = 0\<rparr>"

definition HASH_MAKE_TABLE :: ut_table where
  "HASH_MAKE_TABLE = \<lparr>ut_buckets = replicate (unat HASH_INITIAL_NUM_BUCKETS) empty_bucket,
     ut_num_buckets = HASH_INITIAL_NUM_BUCKETS, ut_log2 = HASH_INITIAL_NUM_BUCKETS_LOG2, ut_num_items = 0,
     ut_ideal = 0, ut_nonideal = 0, ut_ineff = 0, ut_noexpand = 0, ut_app = []\<rparr>"

text \<open>Moving one element to the head of its new bucket.\<close>

definition rehash_item :: "u32 \<Rightarrow> u32 \<Rightarrow> ut_handle \<Rightarrow> ut_bucket list \<times> u32 \<Rightarrow> ut_bucket list \<times> u32" where
  "rehash_item num_bkts ideal x = (\<lambda>(bkts, nonideal).
     let b = HASH_TO_BKT (hh_hashv x) num_bkts; bk = bkts ! b; count = bk_count bk + 1;
         bk' = \<lparr>bk_chain = x # bk_chain bk, bk_count = count,
                bk_expand_mult = (if count > ideal then count div ideal else bk_expand_mult bk)\<rparr>
     in (bkts[b := bk'], if count > ideal then nonideal + 1 else nonideal))"

definition ideal_maxlen :: "ut_table \<Rightarrow> u32" where
  "ideal_maxlen t = drop_bit (unat (ut_log2 t + 1)) (ut_num_items t)
     + (if ut_num_items t AND (ut_num_buckets t * 2 - 1) \<noteq> 0 then 1 else 0)"

definition HASH_EXPAND_BUCKETS :: "ut_table \<Rightarrow> ut_table option" where
  "HASH_EXPAND_BUCKETS t =
     (let num2 = 2 * ut_num_buckets t; ideal = ideal_maxlen t;
          (bkts, nonideal) = fold (rehash_item num2 ideal) (concat (map bk_chain (ut_buckets t)))
             (replicate (unat num2) empty_bucket, 0);
          ineff = (if nonideal > drop_bit 1 (ut_num_items t) then ut_ineff t + 1 else 0)
      in if num2 = 0 then None
         else Some (t\<lparr>ut_buckets := bkts, ut_num_buckets := num2, ut_log2 := ut_log2 t + 1, ut_ideal := ideal,
           ut_nonideal := nonideal, ut_ineff := ineff, ut_noexpand := (if ineff > 1 then 1 else ut_noexpand t)\<rparr>))"

definition HASH_ADD_TO_BKT :: "nat \<Rightarrow> ut_handle \<Rightarrow> ut_table \<Rightarrow> ut_table option" where
  "HASH_ADD_TO_BKT b x t =
     (let bk = ut_buckets t ! b;
          bk' = bk\<lparr>bk_count := bk_count bk + 1, bk_chain := x # bk_chain bk\<rparr>;
          t' = t\<lparr>ut_buckets := (ut_buckets t)[b := bk']\<rparr>
      in if bk_count bk' \<ge> (bk_expand_mult bk' + 1) * HASH_BKT_CAPACITY_THRESH \<and> ut_noexpand t' \<noteq> 1
         then HASH_EXPAND_BUCKETS t' else Some t')"

definition HASH_ADD :: "uthash \<Rightarrow> u8 list \<Rightarrow> nat \<Rightarrow> uthash option" where
  "HASH_ADD head key addr =
     (let t = (case head of None \<Rightarrow> HASH_MAKE_TABLE | Some t \<Rightarrow> t);
          t1 = t\<lparr>ut_app := ut_app t @ [addr], ut_num_items := ut_num_items t + 1\<rparr>;
          hashv = HASH_JEN key
      in map_option Some (HASH_ADD_TO_BKT (HASH_TO_BKT hashv (ut_num_buckets t1))
           \<lparr>hh_addr = addr, hh_key = key, hh_hashv = hashv\<rparr> t1))"

definition HASH_DEL_IN_BKT :: "nat \<Rightarrow> ut_handle \<Rightarrow> ut_table \<Rightarrow> ut_table" where
  "HASH_DEL_IN_BKT b x t =
     (let bk = ut_buckets t ! b
      in t\<lparr>ut_buckets := (ut_buckets t)[b := bk\<lparr>bk_count := bk_count bk - 1, bk_chain := remove1 x (bk_chain bk)\<rparr>]\<rparr>)"

text \<open>The table is released with its last element.\<close>

definition HASH_DELETE :: "uthash \<Rightarrow> ut_handle \<Rightarrow> uthash" where
  "HASH_DELETE head x = (case head of None \<Rightarrow> None
     | Some t \<Rightarrow>
         if ut_app t = [hh_addr x] then None
         else
           let t1 = t\<lparr>ut_app := remove1 (hh_addr x) (ut_app t)\<rparr>;
               t2 = HASH_DEL_IN_BKT (HASH_TO_BKT (hh_hashv x) (ut_num_buckets t1)) x t1
           in Some (t2\<lparr>ut_num_items := ut_num_items t2 - 1\<rparr>))"

definition HASH_REPLACE :: "uthash \<Rightarrow> u8 list \<Rightarrow> nat \<Rightarrow> (ut_handle option \<times> uthash) option" where
  "HASH_REPLACE head key addr =
     (let replaced = HASH_FIND head key;
          head' = (case replaced of None \<Rightarrow> head | Some x \<Rightarrow> HASH_DELETE head x)
      in map_option (\<lambda>h. (replaced, h)) (HASH_ADD head' key addr))"

section \<open>Invariant\<close>

definition ut_handles :: "ut_table \<Rightarrow> ut_handle list" where
  "ut_handles t = concat (map bk_chain (ut_buckets t))"

text \<open>Every element is in the bucket of its hash value; the number of buckets is a power of two.\<close>

definition bkt_ok :: "u32 \<Rightarrow> nat \<Rightarrow> ut_bucket \<Rightarrow> bool" where
  "bkt_ok n b bk \<longleftrightarrow> bk_count bk = of_nat (length (bk_chain bk)) \<and>
     (\<forall>x\<in>set (bk_chain bk). hh_hashv x = HASH_JEN (hh_key x) \<and> HASH_TO_BKT (hh_hashv x) n = b)"

definition bkts_ok :: "u32 \<Rightarrow> ut_bucket list \<Rightarrow> bool" where
  "bkts_ok n bkts \<longleftrightarrow> length bkts = unat n \<and> (\<forall>b < unat n. bkt_ok n b (bkts ! b))"

definition ut_inv :: "ut_table \<Rightarrow> bool" where
  "ut_inv t \<longleftrightarrow> ut_log2 t < 32 \<and> ut_num_buckets t = push_bit (unat (ut_log2 t)) 1 \<and>
     bkts_ok (ut_num_buckets t) (ut_buckets t) \<and>
     mset (map hh_addr (ut_handles t)) = mset (ut_app t) \<and> distinct (ut_app t) \<and>
     distinct (map hh_key (ut_handles t)) \<and> ut_num_items t = of_nat (length (ut_app t))"

text \<open>A table and what it holds: a head with an invariant is a table with at least one element.\<close>

definition uthash_inv :: "uthash \<Rightarrow> bool" where
  "uthash_inv head \<longleftrightarrow> (case head of None \<Rightarrow> True | Some t \<Rightarrow> ut_inv t \<and> ut_app t \<noteq> [])"

definition ut_elems :: "uthash \<Rightarrow> (u8 list \<times> nat) multiset" where
  "ut_elems head = (case head of None \<Rightarrow> {#} | Some t \<Rightarrow> mset (map (\<lambda>x. (hh_key x, hh_addr x)) (ut_handles t)))"

section \<open>Buckets\<close>

lemma num_buckets_pow:
  fixes n k :: u32
  assumes "k < 32" "n = push_bit (unat k) 1"
  shows "unat n = 2 ^ unat k" "HASH_TO_BKT h n < unat n" "n \<noteq> 0"
proof -
  have k: "unat k < 32" using assms(1) by (simp add: word_less_nat_alt)
  have n: "n = 2 ^ unat k" using assms(2) by (simp add: push_bit_eq_mult)
  have "(2 :: nat) ^ unat k < 2 ^ 32" using k by (intro power_strict_increasing) auto
  then show u: "unat n = 2 ^ unat k" unfolding n using unat_of_nat [of "2 ^ unat k", where 'a = 32] by simp
  have "n - 1 = mask (unat k)" by (simp add: n mask_eq_exp_minus_1)
  then have "HASH_TO_BKT h n = take_bit (unat k) (unat h)"
    by (simp add: HASH_TO_BKT_def take_bit_eq_mask [symmetric] unsigned_take_bit_eq)
  then show "HASH_TO_BKT h n < unat n" by (simp add: u)
  show "n \<noteq> 0" using u by auto
qed

lemma mset_concat_add:
  "b < length xss \<Longrightarrow> mset (concat (xss[b := x # xss ! b])) = add_mset x (mset (concat xss))"
proof (induction xss arbitrary: b)
  case (Cons xs xss)
  then show ?case by (cases b) auto
qed simp

lemma mset_concat_remove:
  "b < length xss \<Longrightarrow> x \<in> set (xss ! b) \<Longrightarrow>
     mset (concat (xss[b := remove1 x (xss ! b)])) = mset (concat xss) - {#x#}"
proof (induction xss arbitrary: b)
  case (Cons xs xss)
  show ?case
  proof (cases b)
    case 0
    then show ?thesis using Cons.prems by (simp add: subset_eq_diff_conv)
  next
    case (Suc c)
    then have "x \<in># mset (concat xss)" using Cons.prems nth_mem [of c xss] by auto
    then show ?thesis using Suc Cons by (simp add: Cons.IH)
  qed
qed simp

lemma bkts_ok_add:
  assumes ok: "bkts_ok n bkts" and b: "b = HASH_TO_BKT (hh_hashv x) n" "b < unat n" and h: "hh_hashv x = HASH_JEN (hh_key x)"
    and bk: "bk_chain bk = x # bk_chain (bkts ! b)" "bk_count bk = bk_count (bkts ! b) + 1"
  shows "bkts_ok n (bkts[b := bk])"
    and "mset (concat (map bk_chain (bkts[b := bk]))) = add_mset x (mset (concat (map bk_chain bkts)))"
proof -
  have len: "b < length bkts" using ok b(2) by (simp add: bkts_ok_def)
  have "bkt_ok n b (bkts ! b)" using ok b(2) by (simp add: bkts_ok_def)
  then have "bkt_ok n b bk" using b(1) h bk by (auto simp: bkt_ok_def)
  then show "bkts_ok n (bkts[b := bk])" using ok len by (auto simp: bkts_ok_def nth_list_update)
  show "mset (concat (map bk_chain (bkts[b := bk]))) = add_mset x (mset (concat (map bk_chain bkts)))"
    using mset_concat_add [of b "map bk_chain bkts" x] len bk(1) by (simp add: map_update)
qed

lemma rehash_item_step:
  obtains bk c' where "rehash_item n ideal x (bkts, c) = (bkts[HASH_TO_BKT (hh_hashv x) n := bk], c')"
    "bk_chain bk = x # bk_chain (bkts ! HASH_TO_BKT (hh_hashv x) n)"
    "bk_count bk = bk_count (bkts ! HASH_TO_BKT (hh_hashv x) n) + 1"
  by (simp add: rehash_item_def Let_def)

lemma rehash_fold:
  fixes n k :: u32
  assumes n: "k < 32" "n = push_bit (unat k) 1" and ok: "bkts_ok n bkts"
    and xs: "\<forall>x\<in>set xs. hh_hashv x = HASH_JEN (hh_key x)"
  shows "bkts_ok n (fst (fold (rehash_item n ideal) xs (bkts, c))) \<and>
    mset (concat (map bk_chain (fst (fold (rehash_item n ideal) xs (bkts, c)))))
      = mset xs + mset (concat (map bk_chain bkts))"
  using ok xs
proof (induction xs arbitrary: bkts c)
  case (Cons x xs)
  obtain bk c' where step: "rehash_item n ideal x (bkts, c) = (bkts[HASH_TO_BKT (hh_hashv x) n := bk], c')"
    "bk_chain bk = x # bk_chain (bkts ! HASH_TO_BKT (hh_hashv x) n)"
    "bk_count bk = bk_count (bkts ! HASH_TO_BKT (hh_hashv x) n) + 1"
    by (rule rehash_item_step)
  note add = bkts_ok_add [OF Cons.prems(1) refl num_buckets_pow(2) [OF n] _ step(2,3)]
  show ?case using Cons.IH [OF add(1), of c'] add(2) Cons.prems(2) step(1) by simp
qed simp

lemma bkts_ok_handle:
  "bkts_ok n bkts \<Longrightarrow> x \<in> set (concat (map bk_chain bkts)) \<Longrightarrow>
     hh_hashv x = HASH_JEN (hh_key x) \<and> HASH_TO_BKT (hh_hashv x) n < length bkts \<and>
     x \<in> set (bk_chain (bkts ! HASH_TO_BKT (hh_hashv x) n))"
  unfolding bkts_ok_def bkt_ok_def by (auto simp: in_set_conv_nth [of _ bkts] dest: spec) metis+

lemma bkts_ok_empty: "bkts_ok n (replicate (unat n) empty_bucket)"
  by (simp add: bkts_ok_def bkt_ok_def empty_bucket_def)

text \<open>Doubling the buckets keeps the invariant and every element.\<close>

lemma expand_spec:
  assumes inv: "ut_inv t" and t': "HASH_EXPAND_BUCKETS t = Some t'"
  shows "ut_inv t' \<and> mset (ut_handles t') = mset (ut_handles t) \<and> ut_app t' = ut_app t"
proof -
  let ?n = "2 * ut_num_buckets t"
  define f where "f = fold (rehash_item ?n (ideal_maxlen t)) (concat (map bk_chain (ut_buckets t)))
    (replicate (unat ?n) empty_bucket, 0)"
  have n0: "?n \<noteq> 0" and t'_eq: "ut_buckets t' = fst f" "ut_num_buckets t' = ?n" "ut_log2 t' = ut_log2 t + 1"
      "ut_app t' = ut_app t" "ut_num_items t' = ut_num_items t"
    using t' by (auto simp: HASH_EXPAND_BUCKETS_def Let_def f_def split: prod.splits if_splits)
  have k: "ut_log2 t < 32" "ut_num_buckets t = 2 ^ unat (ut_log2 t)"
    using inv by (auto simp: ut_inv_def push_bit_eq_mult)
  have "unat (ut_log2 t) \<noteq> 31"
  proof
    assume "unat (ut_log2 t) = 31"
    then have "?n = 0" using k(2) by simp
    then show False using n0 by simp
  qed
  then have k': "ut_log2 t + 1 < 32" "unat (ut_log2 t + 1) = Suc (unat (ut_log2 t))"
    using k(1) by (auto simp: word_less_nat_alt unat_word_ariths)
  have n': "?n = push_bit (unat (ut_log2 t + 1)) 1" using k(2) k'(2) by (simp add: push_bit_eq_mult)
  have "\<forall>x\<in>set (concat (map bk_chain (ut_buckets t))). hh_hashv x = HASH_JEN (hh_key x)"
    using inv bkts_ok_handle unfolding ut_inv_def by blast
  from rehash_fold [OF k'(1) n' bkts_ok_empty this, of "ideal_maxlen t" 0]
  have f: "bkts_ok ?n (fst f)" "mset (concat (map bk_chain (fst f))) = mset (ut_handles t)"
    by (simp_all add: f_def ut_handles_def empty_bucket_def concat_replicate_trivial)
  have handles: "mset (ut_handles t') = mset (ut_handles t)" using f(2) t'_eq by (simp add: ut_handles_def)
  then have "mset (map g (ut_handles t')) = mset (map g (ut_handles t))" for g :: "ut_handle \<Rightarrow> 'a" by simp
  moreover have "distinct (map hh_key (ut_handles t'))"
    using handles inv by (metis mset_map mset_eq_imp_distinct_iff ut_inv_def)
  ultimately show ?thesis
    using inv f(1) k' n' t'_eq handles by (simp add: ut_inv_def)
qed

section \<open>Operations on the elements\<close>

text \<open>Looking up a key finds the element with that key.\<close>

lemma HASH_FIND_spec:
  assumes "uthash_inv head"
  shows "map_option hh_addr (HASH_FIND head key) = Some a \<longleftrightarrow> (key, a) \<in># ut_elems head"
    and "HASH_FIND head key = Some x \<Longrightarrow> hh_key x = key \<and> hh_hashv x = HASH_JEN key \<and>
      (\<exists>t. head = Some t \<and> x \<in> set (ut_handles t))"
proof -
  show "HASH_FIND head key = Some x \<Longrightarrow> hh_key x = key \<and> hh_hashv x = HASH_JEN key \<and>
      (\<exists>t. head = Some t \<and> x \<in> set (ut_handles t))" for x
  proof -
    assume f: "HASH_FIND head key = Some x"
    then obtain t where t: "head = Some t"
      "find (\<lambda>x. hh_key x = key) (bk_chain (ut_buckets t ! HASH_TO_BKT (HASH_JEN key) (ut_num_buckets t))) = Some x"
      by (auto simp: HASH_FIND_def HASH_FIND_IN_BKT_def split: option.splits)
    have inv: "ut_inv t" using assms t(1) by (simp add: uthash_inv_def)
    let ?b = "HASH_TO_BKT (HASH_JEN key) (ut_num_buckets t)"
    have b: "?b < length (ut_buckets t)"
      using inv num_buckets_pow(2) by (simp add: ut_inv_def bkts_ok_def)
    have x: "hh_key x = key" "x \<in> set (bk_chain (ut_buckets t ! ?b))" using t(2) by (auto simp: find_Some_iff in_set_conv_nth)
    then have "x \<in> set (ut_handles t)" using b by (auto simp: ut_handles_def)
    then show ?thesis using x(1) t(1) inv bkts_ok_handle [of "ut_num_buckets t" "ut_buckets t" x]
      by (auto simp: ut_inv_def ut_handles_def)
  qed
  note found = this
  show "map_option hh_addr (HASH_FIND head key) = Some a \<longleftrightarrow> (key, a) \<in># ut_elems head"
  proof
    assume "map_option hh_addr (HASH_FIND head key) = Some a"
    then obtain x where "HASH_FIND head key = Some x" "a = hh_addr x" by auto
    then show "(key, a) \<in># ut_elems head" using found by (auto simp: ut_elems_def image_iff)
  next
    assume "(key, a) \<in># ut_elems head"
    then obtain t y where y: "head = Some t" "y \<in> set (ut_handles t)" "hh_key y = key" "hh_addr y = a"
      by (auto simp: ut_elems_def split: option.splits)
    have inv: "ut_inv t" using assms y(1) by (simp add: uthash_inv_def)
    have "y \<in> set (bk_chain (ut_buckets t ! HASH_TO_BKT (HASH_JEN key) (ut_num_buckets t)))"
      using bkts_ok_handle [of "ut_num_buckets t" "ut_buckets t" y] y inv by (auto simp: ut_inv_def ut_handles_def)
    then have "HASH_FIND head key \<noteq> None"
      using y by (auto simp: HASH_FIND_def HASH_FIND_IN_BKT_def find_None_iff)
    then obtain x where x: "HASH_FIND head key = Some x" by blast
    have "x = y"
    proof -
      have "x \<in> set (ut_handles t)" "hh_key x = hh_key y" using found [OF x] y by auto
      then show ?thesis using inv y(2) by (auto simp: ut_inv_def distinct_map dest: inj_onD)
    qed
    then show "map_option hh_addr (HASH_FIND head key) = Some a" using x y(4) by simp
  qed
qed

lemma ut_make_inv: "ut_inv HASH_MAKE_TABLE" "ut_handles HASH_MAKE_TABLE = []"
proof -
  show h: "ut_handles HASH_MAKE_TABLE = []"
    by (simp add: ut_handles_def HASH_MAKE_TABLE_def empty_bucket_def)
  have "bkts_ok (32 :: u32) (replicate 32 empty_bucket)" using bkts_ok_empty [of 32] by simp
  then show "ut_inv HASH_MAKE_TABLE"
    using h by (simp add: ut_inv_def) (simp add: HASH_MAKE_TABLE_def ut_consts)
qed

lemma ut_elems_Some: "ut_elems (Some t) = image_mset (\<lambda>x. (hh_key x, hh_addr x)) (mset (ut_handles t))"
  by (simp add: ut_elems_def)

text \<open>Adding an element with a new key and a new address.\<close>

lemma HASH_ADD_spec:
  assumes inv: "uthash_inv head" and new: "key \<notin> fst ` set_mset (ut_elems head)" "addr \<notin> snd ` set_mset (ut_elems head)"
    and h: "HASH_ADD head key addr = Some head'"
  shows "uthash_inv head' \<and> ut_elems head' = add_mset (key, addr) (ut_elems head)"
proof -
  define t where "t = (case head of None \<Rightarrow> HASH_MAKE_TABLE | Some t \<Rightarrow> t)"
  define t1 where "t1 = t\<lparr>ut_app := ut_app t @ [addr], ut_num_items := ut_num_items t + 1\<rparr>"
  define x where "x = \<lparr>hh_addr = addr, hh_key = key, hh_hashv = HASH_JEN key\<rparr>"
  let ?b = "HASH_TO_BKT (HASH_JEN key) (ut_num_buckets t)"
  define bk where "bk = (ut_buckets t ! ?b)\<lparr>bk_count := bk_count (ut_buckets t ! ?b) + 1,
    bk_chain := x # bk_chain (ut_buckets t ! ?b)\<rparr>"
  define t2 where "t2 = t1\<lparr>ut_buckets := (ut_buckets t)[?b := bk]\<rparr>"
  have t: "ut_inv t" "ut_elems head = image_mset (\<lambda>x. (hh_key x, hh_addr x)) (mset (ut_handles t))"
    using inv ut_make_inv by (auto simp: t_def uthash_inv_def ut_elems_def split: option.splits)
  have b: "?b < unat (ut_num_buckets t)" using t(1) num_buckets_pow(2) by (simp add: ut_inv_def)
  have ok: "bkts_ok (ut_num_buckets t) (ut_buckets t)" using t(1) unfolding ut_inv_def by blast
  have add: "bkts_ok (ut_num_buckets t) ((ut_buckets t)[?b := bk])"
    "mset (concat (map bk_chain ((ut_buckets t)[?b := bk]))) = add_mset x (mset (ut_handles t))"
    unfolding ut_handles_def by (rule bkts_ok_add [OF ok _ b]; simp add: x_def bk_def)+
  have m2: "mset (ut_handles t2) = add_mset x (mset (ut_handles t))"
    using add(2) by (simp add: ut_handles_def t2_def)
  have app: "addr \<notin> set (ut_app t)"
  proof -
    have "mset (ut_app t) = image_mset snd (ut_elems head)"
      using t by (simp add: ut_inv_def image_mset.compositionality comp_def)
    then have "set (ut_app t) = snd ` set_mset (ut_elems head)" by (metis set_image_mset set_mset_mset)
    then show ?thesis using new(2) by simp
  qed
  have keys: "distinct (map hh_key (ut_handles t2))"
  proof -
    have "mset (map hh_key (ut_handles t2)) = mset (key # map hh_key (ut_handles t))"
      using m2 by (simp add: x_def)
    moreover have "key \<notin> set (map hh_key (ut_handles t))" using new(1) t(2) by (auto simp: image_iff)
    ultimately show ?thesis using t(1) by (metis distinct.simps(2) mset_eq_imp_distinct_iff ut_inv_def)
  qed
  have inv2: "ut_inv t2"
    using t(1) add(1) keys app m2
    by (simp add: ut_inv_def) (simp add: t2_def t1_def x_def)
  have res: "\<exists>t3. head' = Some t3 \<and> (t3 = t2 \<or> HASH_EXPAND_BUCKETS t2 = Some t3)"
    using h by (auto simp: HASH_ADD_def HASH_ADD_TO_BKT_def Let_def t_def [symmetric] t1_def [symmetric]
        x_def [symmetric] t2_def bk_def split: if_splits) (auto simp: t1_def)
  then obtain t3 where t3: "head' = Some t3" "ut_inv t3" "mset (ut_handles t3) = mset (ut_handles t2)" "ut_app t3 = ut_app t2"
    using inv2 expand_spec [OF inv2] by auto
  moreover have "ut_app t2 \<noteq> []" by (simp add: t2_def t1_def)
  ultimately show ?thesis using m2 t(2) by (simp add: uthash_inv_def ut_elems_Some x_def)
qed

text \<open>An addition fails only when the number of buckets cannot be doubled.\<close>

lemma HASH_ADD_returns:
  assumes "uthash_inv head" "\<And>t. head = Some t \<Longrightarrow> ut_log2 t < 31"
  shows "\<exists>head'. HASH_ADD head key addr = Some head'"
proof -
  define t where "t = (case head of None \<Rightarrow> HASH_MAKE_TABLE | Some t \<Rightarrow> t)"
  have t: "ut_inv t" "ut_log2 t < 31"
    using assms ut_make_inv by (auto simp: t_def uthash_inv_def HASH_MAKE_TABLE_def ut_consts split: option.splits)
  have "HASH_EXPAND_BUCKETS t' \<noteq> None" if "ut_num_buckets t' = ut_num_buckets t" for t'
  proof -
    have k: "ut_log2 t + 1 < 32" "unat (ut_log2 t + 1) = Suc (unat (ut_log2 t))"
      using t(2) by (auto simp: word_less_nat_alt unat_word_ariths)
    have "2 * ut_num_buckets t = push_bit (unat (ut_log2 t + 1)) 1"
      using t(1) k(2) by (simp add: ut_inv_def push_bit_eq_mult)
    then have "2 * ut_num_buckets t \<noteq> 0" by (rule num_buckets_pow(3) [OF k(1)])
    then show ?thesis using that by (simp add: HASH_EXPAND_BUCKETS_def Let_def split: prod.splits)
  qed
  then show ?thesis by (auto simp: HASH_ADD_def HASH_ADD_TO_BKT_def Let_def t_def [symmetric])
qed

lemma of_nat_length_remove1: "x \<in> set xs \<Longrightarrow> (of_nat (length (remove1 x xs)) :: u32) = of_nat (length xs) - 1"
proof -
  assume x: "x \<in> set xs"
  then have "length xs = Suc (length (remove1 x xs))" using length_pos_if_in_set by (fastforce simp: length_remove1)
  then show ?thesis by simp
qed

lemma bkt_ok_remove:
  assumes "bkt_ok n b bk" "x \<in> set (bk_chain bk)" "bk_count bk' = bk_count bk - 1" "bk_chain bk' = remove1 x (bk_chain bk)"
  shows "bkt_ok n b bk'"
  using assms of_nat_length_remove1 [OF assms(2)] notin_set_remove1 by (fastforce simp: bkt_ok_def)

text \<open>Deleting an element that was found.\<close>

lemma HASH_DELETE_spec:
  assumes inv: "uthash_inv head" and x: "HASH_FIND head key = Some x"
  shows "uthash_inv (HASH_DELETE head x) \<and> ut_elems (HASH_DELETE head x) = ut_elems head - {#(key, hh_addr x)#}"
proof -
  obtain t where t: "head = Some t" "x \<in> set (ut_handles t)" "hh_key x = key" "hh_hashv x = HASH_JEN key"
    using HASH_FIND_spec(2) [OF inv x] by blast
  have ti: "ut_inv t" "bkts_ok (ut_num_buckets t) (ut_buckets t)" using inv t(1) by (auto simp: uthash_inv_def ut_inv_def)
  let ?b = "HASH_TO_BKT (hh_hashv x) (ut_num_buckets t)"
  have b: "?b < length (ut_buckets t)" "x \<in> set (bk_chain (ut_buckets t ! ?b))"
    using bkts_ok_handle [OF ti(2), of x] t(2) unfolding ut_handles_def by blast+
  let ?bk = "(ut_buckets t ! ?b)\<lparr>bk_count := bk_count (ut_buckets t ! ?b) - 1, bk_chain := remove1 x (bk_chain (ut_buckets t ! ?b))\<rparr>"
  define t2 where "t2 = t\<lparr>ut_app := remove1 (hh_addr x) (ut_app t), ut_buckets := (ut_buckets t)[?b := ?bk],
    ut_num_items := ut_num_items t - 1\<rparr>"
  have m: "mset (ut_handles t2) = mset (ut_handles t) - {#x#}"
    using mset_concat_remove [of ?b "map bk_chain (ut_buckets t)" x] b by (simp add: t2_def ut_handles_def map_update)
  have app: "hh_addr x \<in> set (ut_app t)"
    using ti(1) t(2) by (metis ut_inv_def mset_eq_setD image_eqI set_map)
  show ?thesis
  proof (cases "ut_app t = [hh_addr x]")
    case True
    then have "mset (map hh_addr (ut_handles t)) = {#hh_addr x#}" using ti(1) by (simp add: ut_inv_def)
    then have "length (ut_handles t) = 1" by (metis length_map size_mset size_single)
    then have "ut_handles t = [x]" using t(2) by (cases "ut_handles t") auto
    then show ?thesis using True t by (simp add: HASH_DELETE_def uthash_inv_def ut_elems_def)
  next
    case False
    have del: "HASH_DELETE head x = Some t2"
      using False t(1) by (simp add: HASH_DELETE_def HASH_DEL_IN_BKT_def Let_def t2_def)
    have "bkt_ok (ut_num_buckets t) ?b (ut_buckets t ! ?b)" using ti(2) b(1) by (simp add: bkts_ok_def)
    then have "bkt_ok (ut_num_buckets t) ?b ?bk" by (rule bkt_ok_remove) (use b(2) in simp_all)
    then have ok: "bkts_ok (ut_num_buckets t) (ut_buckets t2)"
      using ti(2) b(1) by (auto simp: bkts_ok_def nth_list_update t2_def)
    have mx: "mset (ut_handles t) = add_mset x (mset (ut_handles t2))" using m t(2) by simp
    have keys: "distinct (map hh_key (ut_handles t2))"
      using ti(1) mx by (metis distinct.simps(2) image_mset_add_mset mset.simps(2) mset_eq_imp_distinct_iff mset_map ut_inv_def)
    have addrs: "mset (map hh_addr (ut_handles t2)) = mset (ut_app t2)"
    proof -
      have "mset (map hh_addr (ut_handles t)) = mset (ut_app t)" using ti(1) by (simp add: ut_inv_def)
      then have "mset (ut_app t) = add_mset (hh_addr x) (mset (map hh_addr (ut_handles t2)))" using mx by simp
      moreover have "mset (ut_app t2) = mset (ut_app t) - {#hh_addr x#}" by (simp add: t2_def)
      ultimately show ?thesis by simp
    qed
    have n: "ut_num_items t2 = of_nat (length (ut_app t2))"
      using ti(1) of_nat_length_remove1 [OF app] by (simp add: ut_inv_def t2_def)
    have "ut_app t2 \<noteq> []"
      using False app by (cases "ut_app t") (auto simp: t2_def split: if_splits)
    then have "uthash_inv (Some t2)"
      using ti(1) ok keys addrs n by (simp add: uthash_inv_def ut_inv_def) (simp add: t2_def)
    then show ?thesis using del t mx by (simp add: ut_elems_Some)
  qed
qed

lemma distinct_add_mset: "distinct xs \<Longrightarrow> mset xs = add_mset k M \<Longrightarrow> k \<notin># M"
  using distinct_count_atmost_1 [of xs] by (auto simp: count_eq_zero_iff [symmetric] split: if_splits)

text \<open>\<open>HASH_REPLACE\<close> with an element that is in the table under its key puts it back.\<close>

lemma HASH_REPLACE_spec:
  assumes inv: "uthash_inv head" and x: "HASH_FIND head key = Some x" and r: "HASH_REPLACE head key (hh_addr x) = Some (r, head')"
  shows "uthash_inv head' \<and> ut_elems head' = ut_elems head \<and> r = Some x"
proof -
  let ?d = "HASH_DELETE head x"
  have d: "uthash_inv ?d" "ut_elems ?d = ut_elems head - {#(key, hh_addr x)#}" using HASH_DELETE_spec [OF inv x] by auto
  have mem: "(key, hh_addr x) \<in># ut_elems head" using HASH_FIND_spec(1) [OF inv, of key "hh_addr x"] x by simp
  obtain t where t: "head = Some t" "ut_inv t" using inv x by (auto simp: uthash_inv_def HASH_FIND_def split: option.splits)
  have e: "ut_elems head = add_mset (key, hh_addr x) (ut_elems ?d)" using d(2) mem by simp
  have "mset (map hh_key (ut_handles t)) = image_mset fst (ut_elems head)"
    "mset (map hh_addr (ut_handles t)) = image_mset snd (ut_elems head)"
    by (simp_all add: t(1) ut_elems_Some image_mset.compositionality comp_def)
  then have m: "mset (map hh_key (ut_handles t)) = add_mset key (image_mset fst (ut_elems ?d))"
    "mset (ut_app t) = add_mset (hh_addr x) (image_mset snd (ut_elems ?d))"
    using e t(2) by (simp_all add: ut_inv_def)
  have "distinct (map hh_key (ut_handles t))" "distinct (ut_app t)" using t(2) by (simp_all add: ut_inv_def)
  note new = distinct_add_mset [OF this(1) m(1)] distinct_add_mset [OF this(2) m(2)]
  have "HASH_ADD ?d key (hh_addr x) = Some head'" "r = Some x" using r x by (auto simp: HASH_REPLACE_def Let_def)
  then show ?thesis using HASH_ADD_spec [OF d(1) _ _ , of key "hh_addr x" head'] new e by simp
qed

section \<open>The table as a map\<close>

text \<open>The address found for a key.\<close>

definition ut_find :: "uthash \<Rightarrow> u8 list \<Rightarrow> nat option" where
  "ut_find head key = map_option hh_addr (HASH_FIND head key)"

lemma ut_find_iff: "uthash_inv head \<Longrightarrow> ut_find head key = Some a \<longleftrightarrow> (key, a) \<in># ut_elems head"
  using HASH_FIND_spec(1) by (simp add: ut_find_def)

lemma ut_find_eqI:
  assumes "uthash_inv h" "\<And>k a. (k, a) \<in># ut_elems h \<longleftrightarrow> f k = Some a"
  shows "ut_find h = f"
proof
  fix k
  show "ut_find h k = f k" using assms ut_find_iff [OF assms(1), of k] by (cases "f k") (auto intro: option.exhaust)
qed

lemma ut_find_Null [simp]: "ut_find None = Map.empty"
  by (rule ext) (simp add: ut_find_def HASH_FIND_def)

lemma ut_find_add:
  assumes inv: "uthash_inv head" and new: "ut_find head key = None" "addr \<notin> ran (ut_find head)"
    and h: "HASH_ADD head key addr = Some head'"
  shows "uthash_inv head'" "ut_find head' = (ut_find head)(key \<mapsto> addr)"
proof -
  have "key \<notin> fst ` set_mset (ut_elems head)" "addr \<notin> snd ` set_mset (ut_elems head)"
    using new ut_find_iff [OF inv] by (auto simp: ran_def) (metis option.distinct(1))
  then have e: "uthash_inv head'" "ut_elems head' = add_mset (key, addr) (ut_elems head)"
    using HASH_ADD_spec [OF inv _ _ h] by auto
  then show "uthash_inv head'" by simp
  show "ut_find head' = (ut_find head)(key \<mapsto> addr)"
    by (rule ut_find_eqI [OF e(1)]) (use new(1) in \<open>auto simp: e(2) ut_find_iff [OF inv, symmetric]\<close>)
qed

lemma ut_find_delete:
  assumes inv: "uthash_inv head" and x: "HASH_FIND head key = Some x"
  shows "uthash_inv (HASH_DELETE head x)" "ut_find (HASH_DELETE head x) = (ut_find head)(key := None)"
proof -
  let ?d = "HASH_DELETE head x"
  have d: "uthash_inv ?d" "ut_elems ?d = ut_elems head - {#(key, hh_addr x)#}" using HASH_DELETE_spec [OF inv x] by auto
  then show "uthash_inv ?d" by simp
  have f: "ut_find head key = Some (hh_addr x)" using x by (simp add: ut_find_def)
  obtain t where t: "head = Some t" "distinct (map hh_key (ut_handles t))"
    using inv x by (auto simp: uthash_inv_def ut_inv_def HASH_FIND_def split: option.splits)
  have "mset (map (\<lambda>x. (hh_key x, hh_addr x)) (ut_handles t)) = add_mset (key, hh_addr x) (ut_elems ?d)"
    using d(2) f ut_find_iff [OF inv] t(1) by (simp add: ut_elems_def)
  moreover have "distinct (map (\<lambda>x. (hh_key x, hh_addr x)) (ut_handles t))"
    using t(2) by (auto simp: distinct_map inj_on_def)
  ultimately have gone: "(key, hh_addr x) \<notin># ut_elems ?d" by (metis distinct_add_mset)
  have e: "ut_elems head = add_mset (key, hh_addr x) (ut_elems ?d)" using d(2) f ut_find_iff [OF inv] by simp
  show "ut_find ?d = (ut_find head)(key := None)"
  proof (rule ut_find_eqI [OF d(1)])
    fix k a
    have "(k, a) \<in># ut_elems head \<longleftrightarrow> ut_find head k = Some a" using ut_find_iff [OF inv] by simp
    then show "(k, a) \<in># ut_elems ?d \<longleftrightarrow> ((ut_find head)(key := None)) k = Some a"
      using gone e f by (cases "k = key") auto
  qed
qed

lemma ut_find_replace:
  assumes inv: "uthash_inv head" and x: "HASH_FIND head key = Some x" and r: "HASH_REPLACE head key (hh_addr x) = Some (r, head')"
  shows "uthash_inv head'" "ut_find head' = ut_find head"
proof -
  have e: "uthash_inv head'" "ut_elems head' = ut_elems head" using HASH_REPLACE_spec [OF assms] by auto
  then show "uthash_inv head'" by simp
  show "ut_find head' = ut_find head" by (rule ut_find_eqI [OF e(1)]) (simp add: e(2) ut_find_iff [OF inv])
qed

text \<open>C15: the hash table is a map from keys to elements.  Adding an element with a new key to a well-formed
  table keeps the table well-formed, and afterwards exactly the new key is bound in addition to the keys
  that were bound, also when the addition doubles the number of buckets and moves every element.\<close>

theorem HASH_ADD_refines:
  assumes "uthash_inv head" "ut_find head key = None" "addr \<notin> ran (ut_find head)"
    and "\<forall>t. head = Some t \<longrightarrow> ut_log2 t < 31"
  shows "\<exists>head'. HASH_ADD head key addr = Some head' \<and> uthash_inv head' \<and> ut_find head' = (ut_find head)(key \<mapsto> addr)"
proof -
  obtain head' where "HASH_ADD head key addr = Some head'" using HASH_ADD_returns [OF assms(1)] assms(4) by blast
  then show ?thesis using ut_find_add [OF assms(1-3)] by blast
qed

lemma HASH_ADD_refines_witness:
  "\<exists>head'. HASH_ADD None [1, 0] 7 = Some head' \<and> uthash_inv head' \<and> ut_find head' = (ut_find None)([1, 0] \<mapsto> 7)"
  by (rule HASH_ADD_refines) (simp_all add: uthash_inv_def)

end
