(* ===== verification/Dare_Proxy.thy ===== *)
theory Dare_Proxy
  imports Dare_State Dare_Uthash
begin

text \<open>
  The proxy between the replicated application and the servers: \<^verbatim>\<open>proxy.c\<close>, \<^verbatim>\<open>db-interface.c\<close> and \<^verbatim>\<open>config-proxy.c\<close>.  On the leader the calls of the application
  that accept, read or close a connection become requests in the queue that the server thread
  appends to the log; on the other servers the entries applied are replayed
  into the local application over a connection of the proxy's own.  Every entry is
  also stored in a database, which is dumped into a snapshot for a server that recovers.

  The operating system and the Berkeley DB are the record \<open>'o sys\<close> of functions on an unknown
  state \<open>'o\<close>.  Connections are \<^verbatim>\<open>socket_pair\<close> blocks in the heap \<open>pairs\<close>; \<^verbatim>\<open>malloc\<close> returns a block that was
  never used (no block is freed).  \<open>None\<close> is a NULL pointer that is dereferenced, a buffer that overflows or a loop that does not end.
\<close>

section \<open>Data\<close>

definition CONNECT :: u8 where "CONNECT = 4"
definition SEND :: u8 where "SEND = 5"
definition CLOSE :: u8 where "CLOSE = 6"

lemmas actions = CONNECT_def SEND_def CLOSE_def

record socket_pair =
  sp_clt_id :: u32
  sp_req_id :: u64
  sp_connection_id :: u16
  sp_p_s :: int

text \<open>
  \<open>os_setsockopt\<close> is the call that sets \<^verbatim>\<open>TCP_NODELAY\<close>; \<open>db_put\<close> appends a record and yields the return
  code, \<open>db_cursor\<close> yields the records a cursor walks over.
\<close>

record 'o sys =
  os_socket :: "'o \<Rightarrow> int \<times> 'o"
  os_connect :: "int \<Rightarrow> 'o \<Rightarrow> int \<times> 'o"
  os_getfl :: "int \<Rightarrow> 'o \<Rightarrow> int \<times> 'o"
  os_setfl :: "int \<Rightarrow> int \<Rightarrow> 'o \<Rightarrow> int \<times> 'o"
  os_setsockopt :: "int \<Rightarrow> 'o \<Rightarrow> int \<times> 'o"
  os_write :: "int \<Rightarrow> u8 list \<Rightarrow> 'o \<Rightarrow> int \<times> 'o"
  os_close :: "int \<Rightarrow> 'o \<Rightarrow> int \<times> 'o"
  db_put :: "u8 list \<Rightarrow> 'o \<Rightarrow> int \<times> 'o"
  db_cursor :: "'o \<Rightarrow> u8 list list"

record 'o proxy_node =
  leader_hash_map :: uthash
  follower_hash_map :: uthash
  highest_rec :: u64
  cur_rec :: u64
  pair_count :: u8
  db_ptr :: bool
  records_len :: u32
  pairs :: "nat \<Rightarrow> socket_pair"
  next_block :: nat
  tailq :: "tailq_entry list"
  inner_threads :: "nat list"
  os :: 'o

definition null_pair :: socket_pair where
  "null_pair = \<lparr>sp_clt_id = 0, sp_req_id = 0, sp_connection_id = 0, sp_p_s = 0\<rparr>"

section \<open>Requests of the leader\<close>

definition is_inner :: "nat \<Rightarrow> 'o proxy_node \<Rightarrow> bool" where
  "is_inner tid p \<longleftrightarrow> (\<exists>t\<in>set (inner_threads p). t = tid)"

definition gen_key :: "u8 \<Rightarrow> u8 \<Rightarrow> u16" where
  "gen_key node_id node_count = (0 OR push_bit 8 (ucast node_id)) OR ucast node_count"

text \<open>The three kinds of request: the request id and the connection id, and the hash table afterwards.\<close>

definition submit_connect :: "u32 \<Rightarrow> u8 \<Rightarrow> 'o proxy_node \<Rightarrow> (u64 \<times> u16 \<times> 'o proxy_node) option" where
  "submit_connect clt_id node_id p = do {
     let a = next_block p;
     let conn = gen_key node_id (pair_count p);
     let pr = null_pair\<lparr>sp_clt_id := clt_id, sp_req_id := 1, sp_connection_id := conn\<rparr>;
     h \<leftarrow> HASH_ADD (leader_hash_map p) (le32 clt_id) a;
     Some (1, conn, p\<lparr>pair_count := pair_count p + 1, pairs := (pairs p)(a := pr), next_block := Suc a, leader_hash_map := h\<rparr>)
   }"

definition bump_req_id :: "nat \<Rightarrow> 'o proxy_node \<Rightarrow> u64 \<times> u16 \<times> 'o proxy_node" where
  "bump_req_id a p =
     (let pr = (pairs p a)\<lparr>sp_req_id := sp_req_id (pairs p a) + 1\<rparr>
      in (sp_req_id pr, sp_connection_id pr, p\<lparr>pairs := (pairs p)(a := pr)\<rparr>))"

definition submit_send :: "u32 \<Rightarrow> 'o proxy_node \<Rightarrow> (u64 \<times> u16 \<times> 'o proxy_node) option" where
  "submit_send clt_id p = do {
     x \<leftarrow> HASH_FIND (leader_hash_map p) (le32 clt_id);
     let (r, c, p1) = bump_req_id (hh_addr x) p;
     (replaced, h) \<leftarrow> HASH_REPLACE (leader_hash_map p1) (le32 (sp_clt_id (pairs p1 (hh_addr x)))) (hh_addr x);
     Some (r, c, p1\<lparr>leader_hash_map := h\<rparr>)
   }"

definition submit_close :: "u32 \<Rightarrow> 'o proxy_node \<Rightarrow> (u64 \<times> u16 \<times> 'o proxy_node) option" where
  "submit_close clt_id p = do {
     x \<leftarrow> HASH_FIND (leader_hash_map p) (le32 clt_id);
     let (r, c, p1) = bump_req_id (hh_addr x) p;
     Some (r, c, p1\<lparr>leader_hash_map := HASH_DELETE (leader_hash_map p1) x\<rparr>)
   }"

text \<open>The room for a command in a queue entry; its length is kept in 16 bits.\<close>

definition TAILQ_CMD_SIZE :: nat where "TAILQ_CMD_SIZE = 87380"

definition queue_entry :: "u8 \<Rightarrow> u64 \<Rightarrow> u16 \<Rightarrow> u8 list \<Rightarrow> tailq_entry option" where
  "queue_entry typ req_id conn buf =
     (if length buf > TAILQ_CMD_SIZE then None
      else Some \<lparr>tq_type = typ, tq_connection_id = conn, tq_req_id = req_id,
        tq_cmd = take (unat (of_nat (length buf) :: u16)) buf\<rparr>)"

text \<open>
  The whole request, up to the wait at its end.  The result is the number the caller waits for: it
  spins until \<open>highest_rec\<close> has reached it.
\<close>

definition leader_handle_submit_req ::
  "u8 \<Rightarrow> u8 list \<Rightarrow> u32 \<Rightarrow> u8 \<Rightarrow> 'o proxy_node \<Rightarrow> (u64 \<times> 'o proxy_node) option" where
  "leader_handle_submit_req typ buf clt_id node_id p = do {
     let rec = cur_rec p + 1;
     let p0 = p\<lparr>cur_rec := rec\<rparr>;
     (req_id, conn, p1) \<leftarrow> (if typ = CONNECT then submit_connect clt_id node_id p0
        else if typ = SEND then submit_send clt_id p0
        else if typ = CLOSE then submit_close clt_id p0 else None);
     n \<leftarrow> queue_entry typ req_id conn buf;
     Some (rec, p1\<lparr>tailq := tailq p1 @ [n]\<rparr>)
   }"

definition waits :: "u64 \<Rightarrow> 'o proxy_node \<Rightarrow> bool" where
  "waits rec p \<longleftrightarrow> rec > highest_rec p"

text \<open>
  The hooks of the application.  \<open>tid\<close> is the calling thread, \<open>leader\<close> and \<open>node_id\<close> what
  the server answers.  The result has no number if nothing was submitted.
\<close>

definition on_call :: "u8 \<Rightarrow> u8 list \<Rightarrow> u32 \<Rightarrow> nat \<Rightarrow> bool \<Rightarrow> u8 \<Rightarrow> 'o proxy_node \<Rightarrow> (u64 option \<times> 'o proxy_node) option" where
  "on_call typ buf fd tid leader node_id p =
     (if is_inner tid p then Some (None, p)
      else if leader then map_option (\<lambda>(rec, p'). (Some rec, p')) (leader_handle_submit_req typ buf fd node_id p)
      else Some (None, p))"

definition proxy_on_read :: "u8 list \<Rightarrow> u32 \<Rightarrow> nat \<Rightarrow> bool \<Rightarrow> u8 \<Rightarrow> 'o proxy_node \<Rightarrow> (u64 option \<times> 'o proxy_node) option" where
  "proxy_on_read buf fd = on_call SEND buf fd"

definition proxy_on_accept :: "u32 \<Rightarrow> nat \<Rightarrow> bool \<Rightarrow> u8 \<Rightarrow> 'o proxy_node \<Rightarrow> (u64 option \<times> 'o proxy_node) option" where
  "proxy_on_accept fd = on_call CONNECT [] fd"

definition proxy_on_close :: "u32 \<Rightarrow> nat \<Rightarrow> bool \<Rightarrow> u8 \<Rightarrow> 'o proxy_node \<Rightarrow> (u64 option \<times> 'o proxy_node) option" where
  "proxy_on_close fd = on_call CLOSE [] fd"

definition update_highest_rec :: "'o proxy_node \<Rightarrow> 'o proxy_node" where
  "update_highest_rec p = p\<lparr>highest_rec := highest_rec p + 1\<rparr>"

section \<open>Stable storage\<close>

text \<open>The length is added whether or not the record could be stored.\<close>

definition store_record :: "'o sys \<Rightarrow> u8 list \<Rightarrow> 'o proxy_node \<Rightarrow> int \<times> 'o proxy_node" where
  "store_record sys data p =
     (if \<not> db_ptr p then (1, p)
      else let (ret, o') = db_put sys data (os p)
           in (ret, p\<lparr>records_len := records_len p + of_nat (length data), os := o'\<rparr>))"

text \<open>The records one after the other; without a database a NULL pointer is dereferenced.\<close>

definition dump_records :: "'o sys \<Rightarrow> 'o proxy_node \<Rightarrow> u8 list option" where
  "dump_records sys p = (if db_ptr p then Some (concat (db_cursor sys (os p))) else None)"

definition get_records_len :: "'o proxy_node \<Rightarrow> u32" where
  "get_records_len p = records_len p"

text \<open>
  Messages: a connection id, the action at byte 2 and, in a message that sends, the length of the command at byte 8.
  The structure of a sending message has 24 bytes.
\<close>

definition PROXY_CONNECT_MSG_SIZE :: nat where "PROXY_CONNECT_MSG_SIZE = 4"
definition PROXY_CLOSE_MSG_SIZE :: nat where "PROXY_CLOSE_MSG_SIZE = 4"

definition msg_connection_id :: "mem \<Rightarrow> u16" where "msg_connection_id m = rd16 m 0"
definition msg_action :: "mem \<Rightarrow> u8" where "msg_action m = rd8 m 2"
definition msg_cmd_len :: "mem \<Rightarrow> u16" where "msg_cmd_len m = rd16 m 8"
definition msg_cmd :: "mem \<Rightarrow> u8 list" where "msg_cmd m = load m 10 (unat (msg_cmd_len m))"

definition PROXY_SEND_MSG_SIZE :: "mem \<Rightarrow> nat" where
  "PROXY_SEND_MSG_SIZE m = unat (msg_cmd_len m) + 24"

definition stablestorage_save_request :: "'o sys \<Rightarrow> mem \<Rightarrow> 'o proxy_node \<Rightarrow> 'o proxy_node" where
  "stablestorage_save_request sys m p =
     (if msg_action m = CONNECT then snd (store_record sys (load m 0 PROXY_CONNECT_MSG_SIZE) p)
      else if msg_action m = SEND then snd (store_record sys (load m 0 (PROXY_SEND_MSG_SIZE m)) p)
      else if msg_action m = CLOSE then snd (store_record sys (load m 0 PROXY_CLOSE_MSG_SIZE) p)
      else p)"

definition stablestorage_get_records_len :: "'o proxy_node \<Rightarrow> u32" where
  "stablestorage_get_records_len p = get_records_len p"

definition stablestorage_dump_records :: "'o sys \<Rightarrow> 'o proxy_node \<Rightarrow> u8 list option" where
  "stablestorage_dump_records sys p = dump_records sys p"

section \<open>Replaying actions\<close>

definition O_NONBLOCK :: int where "O_NONBLOCK = 2048"

definition set_socket_blocking :: "'o sys \<Rightarrow> int \<Rightarrow> bool \<Rightarrow> 'o \<Rightarrow> 'o" where
  "set_socket_blocking sys fd blocking o0 =
     (let (flags, o1) = os_getfl sys fd o0;
          flags' = (if blocking then and flags (not O_NONBLOCK) else or flags O_NONBLOCK)
      in snd (os_setfl sys fd flags' o1))"

definition do_action_connect :: "'o sys \<Rightarrow> u16 \<Rightarrow> 'o proxy_node \<Rightarrow> 'o proxy_node option" where
  "do_action_connect sys clt_id p =
     (if HASH_FIND (follower_hash_map p) (le16 clt_id) \<noteq> None then Some p
      else do {
        let a = next_block p;
        let pr = null_pair\<lparr>sp_connection_id := clt_id\<rparr>;
        let (sockfd, o1) = os_socket sys (os p);
        let p1 = p\<lparr>next_block := Suc a, pairs := (pairs p)(a := pr), os := o1\<rparr>;
        if sockfd < 0 then Some p1
        else do {
          h \<leftarrow> HASH_ADD (follower_hash_map p1) (le16 clt_id) a;
          let o2 = snd (os_connect sys sockfd o1);
          let o3 = set_socket_blocking sys sockfd False o2;
          let o4 = snd (os_setsockopt sys sockfd o3);
          Some (p1\<lparr>pairs := (pairs p)(a := pr\<lparr>sp_p_s := sockfd\<rparr>), follower_hash_map := h, os := o4\<rparr>)
        }
      })"

definition do_action_send :: "'o sys \<Rightarrow> u16 \<Rightarrow> u8 list \<Rightarrow> 'o proxy_node \<Rightarrow> 'o proxy_node" where
  "do_action_send sys clt_id data p = (case HASH_FIND (follower_hash_map p) (le16 clt_id) of
     None \<Rightarrow> p
   | Some x \<Rightarrow> p\<lparr>os := snd (os_write sys (sp_p_s (pairs p (hh_addr x))) data (os p))\<rparr>)"

definition do_action_close :: "'o sys \<Rightarrow> u16 \<Rightarrow> 'o proxy_node \<Rightarrow> 'o proxy_node" where
  "do_action_close sys clt_id p = (case HASH_FIND (follower_hash_map p) (le16 clt_id) of
     None \<Rightarrow> p
   | Some x \<Rightarrow> p\<lparr>os := snd (os_close sys (sp_p_s (pairs p (hh_addr x))) (os p)),
       follower_hash_map := HASH_DELETE (follower_hash_map p) x\<rparr>)"

definition do_action_to_server :: "'o sys \<Rightarrow> u16 \<Rightarrow> u8 \<Rightarrow> u8 list \<Rightarrow> 'o proxy_node \<Rightarrow> 'o proxy_node option" where
  "do_action_to_server sys clt_id typ data p =
     (if typ = CONNECT then do_action_connect sys clt_id p
      else if typ = SEND then Some (do_action_send sys clt_id data p)
      else if typ = CLOSE then Some (do_action_close sys clt_id p)
      else Some p)"

text \<open>
  Loading a snapshot.  One record is stored and replayed; the loop does not end on a
  record with an unknown action.  The position is a 32-bit integer.
\<close>

definition load_record :: "'o sys \<Rightarrow> mem \<Rightarrow> 'o proxy_node \<Rightarrow> (nat \<times> 'o proxy_node) option" where
  "load_record sys m p =
     (if msg_action m = SEND then
        let p1 = snd (store_record sys (load m 0 (PROXY_SEND_MSG_SIZE m)) p)
        in Some (PROXY_SEND_MSG_SIZE m, do_action_send sys (msg_connection_id m) (msg_cmd m) p1)
      else if msg_action m = CONNECT then do {
        let p1 = snd (store_record sys (load m 0 PROXY_CONNECT_MSG_SIZE) p);
        p2 \<leftarrow> do_action_connect sys (msg_connection_id m) p1;
        Some (PROXY_CONNECT_MSG_SIZE, p2)
      }
      else if msg_action m = CLOSE then
        let p1 = snd (store_record sys (load m 0 PROXY_CLOSE_MSG_SIZE) p)
        in Some (PROXY_CLOSE_MSG_SIZE, do_action_close sys (msg_connection_id m) p1)
      else None)"

partial_function (option) load_loop :: "'o sys \<Rightarrow> mem \<Rightarrow> u32 \<Rightarrow> u32 \<Rightarrow> 'o proxy_node \<Rightarrow> 'o proxy_node option" where
  "load_loop sys buf len n p =
     (if len < n then do {
        (k, p1) \<leftarrow> load_record sys (\<lambda>k. buf (unat len + k)) p;
        load_loop sys buf (len + of_nat k) n p1
      }
      else Some p)"

definition stablestorage_load_records :: "'o sys \<Rightarrow> mem \<Rightarrow> u32 \<Rightarrow> 'o proxy_node \<Rightarrow> 'o proxy_node option" where
  "stablestorage_load_records sys buf n p = load_loop sys buf 0 n p"

section \<open>Start\<close>

text \<open>
  \<^verbatim>\<open>proxy_read_config\<close>: \<open>file\<close> is what the configuration file holds, if it can be read; the name of the
  database, the address and the port are required.
\<close>

record proxy_file =
  pf_req_log :: "int option"
  pf_db_name :: "string option"
  pf_ip_address :: "string option"
  pf_port :: "int option"

definition proxy_read_config :: "proxy_file option \<Rightarrow> int" where
  "proxy_read_config file = (case file of None \<Rightarrow> - 1
     | Some f \<Rightarrow> if pf_db_name f = None then - 1
         else if pf_ip_address f = None then - 1
         else if pf_port f = None then - 1 else 0)"

definition SRV_TYPE_START :: nat where "SRV_TYPE_START = 1"
definition SRV_TYPE_JOIN :: nat where "SRV_TYPE_JOIN = 2"

record server_input =
  in_srv_type :: nat
  in_server_idx :: u8
  in_group_size :: u8

text \<open>
  \<^verbatim>\<open>dare_main\<close> from the environment variables, which are \<open>None\<close> when unset (the numbers as \<^verbatim>\<open>atoi\<close> yields them).  \<open>log_ok\<close> says that the log file,
  if one is named, could be opened.  \<open>None\<close> is the exit of a server that has no log file or starts without an
  index.
\<close>

definition main_input :: "int option \<Rightarrow> int option \<Rightarrow> string option \<Rightarrow> bool \<Rightarrow> server_input option" where
  "main_input server_idx group_size server_type log_ok =
     (let typ = (if server_type = Some ''join'' then SRV_TYPE_JOIN else SRV_TYPE_START);
          idx = (case server_idx of None \<Rightarrow> 0xFF | Some i \<Rightarrow> word_of_int i);
          n = (case group_size of None \<Rightarrow> 3 | Some i \<Rightarrow> word_of_int i)
      in if \<not> log_ok then None
         else if typ = SRV_TYPE_START \<and> idx = 0xFF then None
         else Some \<lparr>in_srv_type = typ, in_server_idx = idx, in_group_size = n\<rparr>)"

text \<open>The thread of the server is an inner thread, if it could be created.\<close>

definition dare_main :: "nat option \<Rightarrow> 'o proxy_node \<Rightarrow> int \<times> 'o proxy_node" where
  "dare_main thread p = (case thread of None \<Rightarrow> (1, p)
     | Some t \<Rightarrow> (0, p\<lparr>inner_threads := t # inner_threads p\<rparr>))"

text \<open>\<open>Some None\<close> is the NULL pointer \<^verbatim>\<open>proxy_init\<close> returns, \<open>None\<close> the exit in \<^verbatim>\<open>dare_main\<close>.\<close>

definition proxy_init ::
  "proxy_file option \<Rightarrow> bool \<Rightarrow> server_input option \<Rightarrow> nat option \<Rightarrow> 'o \<Rightarrow> 'o proxy_node option option" where
  "proxy_init file db_ok input thread o0 =
     (if proxy_read_config file \<noteq> 0 then Some None
      else
        let p = \<lparr>leader_hash_map = None, follower_hash_map = None, highest_rec = 0, cur_rec = 0, pair_count = 0,
                db_ptr = db_ok, records_len = 0, pairs = (\<lambda>_. null_pair), next_block = 0, tailq = [],
                inner_threads = [], os = o0\<rparr>
        in if input = None then None else Some (Some (snd (dare_main thread p))))"

declare load_loop.simps [code]

end
