(* ===== verification/Dare_Server.thy ===== *)
theory Dare_Server
  imports Dare_Recovery Dare_Proxy
begin

text \<open>
  A server as a whole, from \<^verbatim>\<open>dare_server.c\<close>, \<^verbatim>\<open>config-dare.c\<close> and \<^verbatim>\<open>dare_ibv.c\<close>: reading the configuration, the initial state, the
  start of the network, the poll of UD messages and the polling loop that calls the
  operations of the other theories in their order.  What the initialisation of the
  device yields is the record \<open>device\<close>.
\<close>

section \<open>Configuration\<close>

text \<open>The settings of the group \<^verbatim>\<open>dare_global_config\<close>; an absent one leaves the variable as it was.\<close>

record dare_settings =
  ds_hb_period :: "rat option"
  ds_rc_info_period :: "rat option"
  ds_retransmit_period :: "rat option"
  ds_log_pruning_period :: "rat option"
  ds_elec_timeout_low :: "int option"
  ds_elec_timeout_high :: "int option"

definition setting :: "'a option \<Rightarrow> 'a \<Rightarrow> 'a" where
  "setting x old = (case x of None \<Rightarrow> old | Some v \<Rightarrow> v)"

text \<open>\<open>None\<close> is a file that cannot be read, \<open>Some None\<close> one without the group.\<close>

definition dare_read_config :: "dare_settings option option \<Rightarrow> 'e srv \<Rightarrow> int \<times> 'e srv" where
  "dare_read_config file s = (case file of None \<Rightarrow> (- 1, s)
     | Some None \<Rightarrow> (0, s)
     | Some (Some d) \<Rightarrow> (0, s\<lparr>
         hb_period := setting (ds_hb_period d) (hb_period s),
         rc_info_period := setting (ds_rc_info_period d) (rc_info_period s),
         retransmit_period := setting (ds_retransmit_period d) (retransmit_period s),
         log_pruning_period := setting (ds_log_pruning_period d) (log_pruning_period s),
         elec_timeout_low := setting (map_option word_of_int (ds_elec_timeout_low d)) (elec_timeout_low s),
         elec_timeout_high := setting (map_option word_of_int (ds_elec_timeout_high d)) (elec_timeout_high s)\<rparr>))"

section \<open>The initial state\<close>

definition zero_ep :: ib_ep where
  "zero_ep = \<lparr>ib_ud = \<lparr>ud_lid = 0, ud_gid = replicate 16 0, ud_qpn = 0, ud_ah = False\<rparr>,
     rmt_mr = (\<lambda>_. \<lparr>raddr = 0, rkey = 0\<rparr>),
     rc_qps = (\<lambda>_. \<lparr>signaled_wr_id = 0, rqpn = 0, send_count = 0, qp_state = 0\<rparr>),
     ib_mtu = 0, rc_connected = False, log_access = False\<rparr>"

definition zero_server :: server where
  "zero_server = \<lparr>next_wr_id = 0, cached_end_offset = 0, last_get_read_ssn = 0, srv_ep = zero_ep,
     fail_count = 0, next_lr_step = LR_GET_WRITE, send_flag = True, lr_send_count = 0\<rparr>"

definition zero_cid :: dare_cid where
  "zero_cid = \<lparr>epoch = 0, size0 = 0, size1 = 0, cstate = 0, bitmask = 0\<rparr>"

definition zero_ctrl :: ctrl_data where
  "zero_ctrl = \<lparr>c_sid = SID_NULL, c_vote_req = (\<lambda>_. \<lparr>vr_sid = 0, vr_index = 0, vr_term = 0, vr_cid = zero_cid\<rparr>),
     c_log_offsets = (\<lambda>_. \<lparr>lo_head = 0, lo_apply = 0, lo_commit = 0, lo_end = 0\<rparr>),
     c_sm_rep = (\<lambda>_. \<lparr>sr_sid = 0, sr_raddr = 0, sr_rkey = 0, sr_len = 0\<rparr>),
     c_sm_req = (\<lambda>_. 0), c_hb = (\<lambda>_. 0), c_vote_ack = (\<lambda>_. 0), c_rsid = (\<lambda>_. 0),
     c_apply_offsets = (\<lambda>_. 0), c_prv_data = (\<lambda>_. 0)\<rparr>"

text \<open>The configuration of a group that starts with \<open>n\<close> servers.\<close>

definition start_cid :: "u8 \<Rightarrow> dare_cid" where
  "start_cid n = fold (\<lambda>i c. CID_SERVER_ADD c (of_nat i)) [0..<unat n] (zero_cid\<lparr>size0 := n, cstate := CID_STABLE\<rparr>)"

definition idle_timer :: "timer_cb \<Rightarrow> ev_timer" where
  "idle_timer cb = \<lparr>tm_cb = cb, tm_repeat = 0, tm_active = False\<rparr>"

text \<open>The globals of the server before anything is initialised; \<open>raw\<close> is the snapshot buffer as allocated.\<close>

definition zero_srv :: "dare_log \<Rightarrow> snapshot \<Rightarrow> 'e \<Rightarrow> 'e srv" where
  "zero_srv l raw e = \<lparr>config = \<lparr>cid = zero_cid, cid_offset = 0, cid_idx = 0, cfg_req_id = 0,
       servers = (\<lambda>_. zero_server), cfg_clt_id = 0, my_idx = 0, cfg_len = 0\<rparr>,
     ctrl = zero_ctrl, slog = l, endpoints = Leaf,
     last_write_csm_idx = 0, last_cmt_write_csm_idx = 0, prereg_snapshot = raw,
     snapshot_buf = None, ssn = 0, wa_flag = False, rc_max_send_wr = 0, rc_max_inline_data = 0,
     loggp_not_inline = False, dare_state = 0, prev_log_entry_head = False,
     last_applied_entry = \<lparr>det_idx = 0, det_term = 0, det_offset = 0\<rparr>, recomputed_hb_timeout = 0,
     leader_failed = False, hb_timeout_flag = False, latest_hb_received = 0, poll_active = False,
     timer_event = idle_timer Cb_none, hb_event = idle_timer Cb_none,
     to_adjust_event = idle_timer Cb_none, prune_event = idle_timer Cb_none,
     hb_total_count = 0, hb_fp_count = 0, request_id = 0, tailhead = [], committed_flag = False, wrl_count = 0,
     hb_period = 0, elec_timeout_low = 0, elec_timeout_high = 0, rc_info_period = 0, retransmit_period = 0,
     log_pruning_period = 0, sent = [], env = e\<rparr>"

text \<open>
  \<open>alloc_ok\<close> says that the memory for the servers, the control data, the log and the snapshot could be
  allocated.  \<open>None\<close> is the error return.
\<close>

definition init_server_data :: "server_input \<Rightarrow> dare_settings option option \<Rightarrow> bool \<Rightarrow> snapshot \<Rightarrow> 'e \<Rightarrow> 'e srv option" where
  "init_server_data input file alloc_ok raw e =
     (if of_nat MAX_SERVER_COUNT < in_group_size input then None
      else do {
        l \<leftarrow> log_new alloc_ok;
        let s = snd (dare_read_config file (zero_srv l raw e));
        Some (upd_config (\<lambda>g. g\<lparr>my_idx := in_server_idx input, cfg_len := of_nat MAX_SERVER_COUNT,
            cid := start_cid (in_group_size input)\<rparr>) s)
      })"

definition dare_server_init :: "server_input \<Rightarrow> dare_settings option option \<Rightarrow> bool \<Rightarrow> snapshot \<Rightarrow> 'e \<Rightarrow> 'e srv option" where
  "dare_server_init input file alloc_ok raw e = do {
     s \<leftarrow> init_server_data input file alloc_ok raw e;
     Some (s\<lparr>recomputed_hb_timeout := 2 * hb_period s,
       timer_event := ev_timer_again \<lparr>tm_cb = Cb_init_network, tm_repeat = NOW, tm_active = False\<rparr>,
       prune_event := idle_timer Cb_prune_log, hb_event := idle_timer Cb_hb_receive,
       to_adjust_event := idle_timer Cb_to_adjust\<rparr>)
   }"

section \<open>Starting the network\<close>

record device =
  dv_device_ok :: bool
  dv_ep_ok :: bool
  dv_rc_ok :: bool
  dv_ud_ok :: bool
  dv_max_qp_wr :: u32
  dv_max_inline :: u32

definition dare_init_ib_srv_data :: "'e srv \<Rightarrow> 'e srv" where
  "dare_init_ib_srv_data s = upd_config (\<lambda>g. g\<lparr>servers := (\<lambda>i. if i < unat (cfg_len g)
     then (servers g i)\<lparr>srv_ep := zero_ep\<rparr> else servers g i)\<rparr>) s"

definition retry_exec_period :: rat where "retry_exec_period = 355 / 1000"

text \<open>
  The number of work requests a send queue holds.  A period of zero, or one so small that the
  quotient does not fit into 32 bits, makes the conversion from \<^verbatim>\<open>double\<close> undefined.
\<close>

definition rc_prerequisite :: "device \<Rightarrow> 'e srv \<Rightarrow> 'e srv option" where
  "rc_prerequisite dv s =
     (let n = 2 * \<lceil>retry_exec_period / hb_period s\<rceil>;
          w = word_of_int n
      in if hb_period s = 0 \<or> n < 0 \<or> 2 ^ 32 \<le> n then None
         else Some (s\<lparr>rc_max_send_wr := (if w > dv_max_qp_wr dv then dv_max_qp_wr dv else w),
                rc_max_inline_data := dv_max_inline dv\<rparr>))"

definition single_sid :: "u64 \<Rightarrow> u64" where
  "single_sid sid = SID_SET_IDX (SID_SET_L (SID_SET_TERM sid 1)) 0"

text \<open>The device starts with request id 1.\<close>

definition init_network_cb :: "device \<Rightarrow> bool \<Rightarrow> 'e srv \<Rightarrow> 'e srv option" where
  "init_network_cb dv join s =
     (if \<not> dv_device_ok dv \<or> \<not> dv_ep_ok dv \<or> \<not> dv_rc_ok dv \<or> \<not> dv_ud_ok dv then None
      else do {
        s1 \<leftarrow> rc_prerequisite dv (dare_init_ib_srv_data (s\<lparr>request_id := 1\<rparr>));
        let s2 = s1\<lparr>dare_state := dare_state s1 OR INIT, poll_active := True\<rparr>;
        Some (if join then set_timer Cb_join_cluster NOW s2
          else if size0 (cid (config s2)) = 1
          then again 0 (upd_ctrl (\<lambda>c. c\<lparr>c_sid := single_sid (c_sid c)\<rparr>) s2)
          else set_timer Cb_exchange_rc_info NOW s2)
      })"

section \<open>Polling\<close>

text \<open>The first message after which a majority of the servers is connected.\<close>

definition rc_established :: "'e ibv \<Rightarrow> 'e srv \<Rightarrow> 'e srv option" where
  "rc_established ib s =
     (if has_state s RC_ESTABLISHED then Some s
      else
        let s1 = s\<lparr>dare_state := dare_state s OR RC_ESTABLISHED\<rparr>
        in if \<not> has_state s1 JOINED
           then
             let s2 = set_timer Cb_update_rc_info (rc_info_period s1) s1
             in start_election ib (s2\<lparr>dare_state := dare_state s2 OR (LOG_RECOVERED OR SM_RECOVERED)\<rparr>)
           else Some (set_timer Cb_get_replicated_vote NOW s1))"

definition poll_ud :: "'e ibv \<Rightarrow> 'e srv \<Rightarrow> 'e srv option" where
  "poll_ud ib s = do {
     s1 \<leftarrow> get_tailq_message s;
     (typ, s2) \<leftarrow> ud_get_message ib s1;
     if typ = MSG_ERROR then None
     else if typ = CFG_REPLY then Some (set_timer Cb_exchange_rc_info NOW (s2\<lparr>dare_state := dare_state s2 OR JOINED\<rparr>))
     else if typ = RC_SYNACK \<or> typ = RC_ACK then rc_established ib s2
     else Some s2
   }"

text \<open>What a recovered server does in every round.\<close>

definition poll_recovered :: "'e ibv \<Rightarrow> 'e srv \<Rightarrow> 'e srv option" where
  "poll_recovered ib s = do {
     s1 \<leftarrow> (if \<not> IS_LEADER s then poll_sm_requests ib s else Some s);
     s2 \<leftarrow> check_failure_count ib s1;
     s3 \<leftarrow> persist_new_entries ib s2;
     s4 \<leftarrow> (if IS_LEADER s3 then commit_new_entries ib s3 else poll_config_entries ib s3);
     s5 \<leftarrow> apply_committed_entries ib s4;
     s6 \<leftarrow> (if IS_CANDIDATE s5 then poll_vote_count ib s5 else Some s5);
     s7 \<leftarrow> poll_vote_requests ib s6;
     if IS_LEADER s7 then force_log_pruning ib s7 else Some s7
   }"

definition polling :: "'e ibv \<Rightarrow> 'e srv \<Rightarrow> 'e srv option" where
  "polling ib s =
     (if has_state s TERMINATE then None
      else do {
        s1 \<leftarrow> poll_ud ib s;
        s2 \<leftarrow> (if has_state s1 RC_ESTABLISHED \<and> \<not> has_state s1 SM_RECOVERED then poll_sm_reply ib s1 else Some s1);
        if \<not> has_state s2 LOG_RECOVERED then Some s2 else poll_recovered ib s2
      })"

definition int_handler :: "'e srv \<Rightarrow> 'e srv" where
  "int_handler s = s\<lparr>dare_state := dare_state s OR TERMINATE\<rparr>"

text \<open>The callback a timer event runs.\<close>

definition run_timer :: "'e ibv \<Rightarrow> device \<Rightarrow> bool \<Rightarrow> timer_cb \<Rightarrow> 'e srv \<Rightarrow> 'e srv option" where
  "run_timer ib dv join cb s = (case cb of
       Cb_none \<Rightarrow> Some s
     | Cb_init_network \<Rightarrow> init_network_cb dv join s
     | Cb_join_cluster \<Rightarrow> join_cluster_cb ib s
     | Cb_exchange_rc_info \<Rightarrow> exchange_rc_info_cb ib s
     | Cb_update_rc_info \<Rightarrow> update_rc_info_cb ib s
     | Cb_get_replicated_vote \<Rightarrow> get_replicated_vote_cb ib s
     | Cb_send_sm_request \<Rightarrow> send_sm_request_cb ib s
     | Cb_recover_log \<Rightarrow> recover_log_cb ib s
     | Cb_hb_receive \<Rightarrow> hb_receive_cb ib s
     | Cb_hb_send \<Rightarrow> hb_send_cb ib s
     | Cb_to_adjust \<Rightarrow> Some (to_adjust_cb s)
     | Cb_prune_log \<Rightarrow> prune_log_cb ib s)"

end
