(* ===== verification/Dare_Calm.thy ===== *)
theory Dare_Calm
  imports Dare_Server Dare_Election_Props
begin

text \<open>
  The functions that leave a server's SID and its phase alone.  The phase is the
  callback of the main timer with the flags of \<^verbatim>\<open>dare_state\<close> that say how far the server
  has come.  The rules are weakest preconditions over \<open>pred_option\<close>: a call that does not
  return satisfies every postcondition.
\<close>

section \<open>Rules for fallible calls\<close>

named_theorems wp

lemma wp_bind [wp]: "pred_option (\<lambda>x. pred_option Q (f x)) m \<Longrightarrow> pred_option Q (m \<bind> f)"
  by (cases m) auto

lemma wp_map [wp]: "pred_option (\<lambda>x. Q (f x)) m \<Longrightarrow> pred_option Q (map_option f m)"
  by (cases m) auto

lemma wp_if [wp]:
  "(b \<Longrightarrow> pred_option Q x) \<Longrightarrow> (\<not> b \<Longrightarrow> pred_option Q y) \<Longrightarrow> pred_option Q (if b then x else y)"
  by simp

lemma wp_case_option [wp]:
  "(m = None \<Longrightarrow> pred_option Q x) \<Longrightarrow> (\<And>a. m = Some a \<Longrightarrow> pred_option Q (f a)) \<Longrightarrow>
     pred_option Q (case m of None \<Rightarrow> x | Some a \<Rightarrow> f a)"
  by (cases m) auto

lemma wp_case_prod [wp]:
  "(\<And>a b. m = (a, b) \<Longrightarrow> pred_option Q (f a b)) \<Longrightarrow> pred_option Q (case m of (a, b) \<Rightarrow> f a b)"
  by (cases m) auto

text \<open>For calls whose result does not matter.\<close>

lemma any_wp: "(\<And>x. Q x) \<Longrightarrow> pred_option Q m"
  by (cases m) auto

lemma pred_optionD: "pred_option Q m \<Longrightarrow> m = Some x \<Longrightarrow> Q x"
  by simp

lemma pred_optionI: "(\<And>x. m = Some x \<Longrightarrow> Q x) \<Longrightarrow> pred_option Q m"
  by (cases m) auto

section \<open>The phase\<close>

definition phase_flags :: u64 where
  "phase_flags = JOINED OR RC_ESTABLISHED OR SM_RECOVERED OR LOG_RECOVERED"

definition phase :: "'e srv \<Rightarrow> timer_cb \<times> u64" where
  "phase s = (tm_cb (timer_event s), dare_state s AND phase_flags)"

text \<open>What the functions of this theory keep; without the assumption on remote servers only the phase.\<close>

definition skey :: "'e ibv \<Rightarrow> 'e srv \<Rightarrow> u64 \<times> timer_cb \<times> u64" where
  "skey ib s = (if sid_private ib then c_sid (ctrl s) else 0, phase s)"

lemma keeps_skey: "keeps ib s s' \<Longrightarrow> skey ib s' = skey ib s"
  by (simp add: keeps_def skey_def phase_def)

lemma skey_sid: "skey ib s' = skey ib s \<Longrightarrow> sid_private ib \<Longrightarrow> c_sid (ctrl s') = c_sid (ctrl s)"
  by (simp add: skey_def)

lemma skey_phase: "skey ib s' = skey ib s \<Longrightarrow> phase s' = phase s"
  by (simp add: skey_def)

lemma skey_upd [simp]:
  "skey ib (upd_log lf s) = skey ib s" "skey ib (upd_config gf s) = skey ib s" "skey ib (upd_server i f s) = skey ib s"
  "skey ib (upd_ep i ef s) = skey ib s" "skey ib (upd_qp i q qf s) = skey ib s" "skey ib (s\<lparr>env := e\<rparr>) = skey ib s"
  "skey ib (s\<lparr>slog := l\<rparr>) = skey ib s" "skey ib (s\<lparr>config := g\<rparr>) = skey ib s"
  "skey ib (s\<lparr>prev_log_entry_head := ph\<rparr>) = skey ib s" "skey ib (s\<lparr>last_write_csm_idx := x\<rparr>) = skey ib s"
  "skey ib (s\<lparr>last_cmt_write_csm_idx := x\<rparr>) = skey ib s" "skey ib (s\<lparr>last_applied_entry := d\<rparr>) = skey ib s"
  "skey ib (s\<lparr>tailhead := tq\<rparr>) = skey ib s" "skey ib (s\<lparr>endpoints := ep\<rparr>) = skey ib s"
  "skey ib (s\<lparr>request_id := x\<rparr>) = skey ib s" "skey ib (s\<lparr>committed_flag := fl\<rparr>) = skey ib s"
  "skey ib (s\<lparr>wrl_count := x\<rparr>) = skey ib s" "skey ib (s\<lparr>wa_flag := fl\<rparr>) = skey ib s"
  "skey ib (s\<lparr>prereg_snapshot := sn\<rparr>) = skey ib s" "skey ib (s\<lparr>snapshot_buf := sb\<rparr>) = skey ib s"
  "skey ib (s\<lparr>poll_active := fl\<rparr>) = skey ib s" "skey ib (s\<lparr>latest_hb_received := x\<rparr>) = skey ib s"
  "skey ib (s\<lparr>recomputed_hb_timeout := r\<rparr>) = skey ib s" "skey ib (s\<lparr>leader_failed := fl\<rparr>) = skey ib s"
  "skey ib (s\<lparr>hb_total_count := x\<rparr>) = skey ib s" "skey ib (s\<lparr>hb_fp_count := x\<rparr>) = skey ib s"
  "skey ib (s\<lparr>hb_timeout_flag := fl\<rparr>) = skey ib s"
  by (simp_all add: skey_def phase_def upd_log_def upd_config_def upd_server_def upd_ep_def upd_qp_def)

lemma skey_ctrl [simp]: "c_sid (f (ctrl s)) = c_sid (ctrl s) \<Longrightarrow> skey ib (upd_ctrl f s) = skey ib s"
  by (simp add: skey_def phase_def upd_ctrl_def)

lemma skey_fields [simp]:
  "skey ib (inc_ssn s) = skey ib s" "skey ib (set_hb r s) = skey ib s" "skey ib (set_hb_cb cb r s) = skey ib s"
  "skey ib (set_prune r s) = skey ib s" "skey ib (set_to_adjust r s) = skey ib s" "skey ib (stop_leading s) = skey ib s"
  "skey ib (reset_hb i s) = skey ib s" "skey ib (upd_offsets i lf s) = skey ib s" "skey ib (expect_wr i s) = skey ib s"
  "skey ib (set_cfg_req x y s) = skey ib s" "skey ib (set_cid_state c s) = skey ib s"
  "skey ib (set_apply_offset i x s) = skey ib s"
  by (simp_all add: upd_offsets_def expect_wr_def set_cfg_req_def set_cid_state_def set_apply_offset_def
      keeps_skey [OF keeps_timers(1)] keeps_skey [OF keeps_timers(2)] keeps_skey [OF keeps_timers(3)]
      keeps_skey [OF keeps_timers(4)] keeps_skey [OF keeps_timers(5)] keeps_skey [OF keeps_timers(6)]
      keeps_skey [OF keeps_ssn])

lemma skey_again [simp]: "skey ib (again r s) = skey ib s"
  by (simp add: again_def skey_def phase_def ev_timer_again_def)

lemma flags_and_not: "(d AND NOT SNAPSHOT) AND phase_flags = d AND phase_flags"
  "(d OR SNAPSHOT) AND phase_flags = d AND phase_flags" "(d OR DIE_AF_COMMIT) AND phase_flags = d AND phase_flags"
  "(d OR TERMINATE) AND phase_flags = d AND phase_flags"
  by (simp_all add: phase_flags_def SNAPSHOT_def DIE_AF_COMMIT_def TERMINATE_def JOINED_def RC_ESTABLISHED_def
      SM_RECOVERED_def LOG_RECOVERED_def bit.conj_disj_distrib2 bit.conj_disj_distrib and.assoc)

lemma skey_flags [simp]:
  "skey ib (clear_snapshot s) = skey ib s" "skey ib (s\<lparr>dare_state := d OR SNAPSHOT\<rparr>) = skey ib (s\<lparr>dare_state := d\<rparr>)"
  "skey ib (s\<lparr>dare_state := d OR DIE_AF_COMMIT\<rparr>) = skey ib (s\<lparr>dare_state := d\<rparr>)" "skey ib (int_handler s) = skey ib s"
  "skey ib (s\<lparr>dare_state := dare_state s\<rparr>) = skey ib s"
  by (simp_all add: skey_def phase_def clear_snapshot_def int_handler_def flags_and_not)

section \<open>Communication\<close>

lemma calm3:
  "(\<And>r. m = Some r \<Longrightarrow> keeps ib t (snd (snd r))) \<Longrightarrow> (\<And>a b s'. skey ib s' = skey ib t \<Longrightarrow> Q (a, b, s')) \<Longrightarrow> pred_option Q m"
  by (rule pred_optionI) (metis keeps_skey prod.collapse)

lemma calm2:
  "(\<And>a s'. m = Some (a, s') \<Longrightarrow> keeps ib t s') \<Longrightarrow> (\<And>a s'. skey ib s' = skey ib t \<Longrightarrow> Q (a, s')) \<Longrightarrow> pred_option Q m"
  by (rule pred_optionI) (metis keeps_skey prod.collapse)

lemma calm1:
  "(\<And>s'. m = Some s' \<Longrightarrow> keeps ib t s') \<Longrightarrow> (\<And>s'. skey ib s' = skey ib t \<Longrightarrow> Q s') \<Longrightarrow> pred_option Q m"
  by (rule pred_optionI) (metis keeps_skey)

text \<open>The same for a function of which the postcondition is known already.\<close>

lemma after2:
  "pred_option (\<lambda>(a, s'). skey ib s' = skey ib t) m \<Longrightarrow> (\<And>a s'. skey ib s' = skey ib t \<Longrightarrow> Q (a, s')) \<Longrightarrow> pred_option Q m"
  by (cases m) auto

lemma after_all:
  "(\<And>ib. pred_option (\<lambda>s'. skey ib s' = skey ib t) m) \<Longrightarrow> (\<And>s'. \<forall>ib. skey ib s' = skey ib t \<Longrightarrow> Q s') \<Longrightarrow> pred_option Q m"
  by (cases m) auto

lemma after_all2:
  "(\<And>ib. pred_option (\<lambda>(a, s'). skey ib s' = skey ib t) m) \<Longrightarrow> (\<And>a s'. \<forall>ib. skey ib s' = skey ib t \<Longrightarrow> Q (a, s')) \<Longrightarrow> pred_option Q m"
  by (cases m) auto

lemma after1:
  "pred_option (\<lambda>s'. skey ib s' = skey ib t) m \<Longrightarrow> (\<And>s'. skey ib s' = skey ib t \<Longrightarrow> Q s') \<Longrightarrow> pred_option Q m"
  by (cases m) auto

lemma post_wp [wp]:
  "(\<And>a b s'. skey ib s' = skey ib s \<Longrightarrow> Q (a, b, s')) \<Longrightarrow> pred_option Q (post ib i r p s)"
  "(\<And>a b s'. skey ib s' = skey ib s \<Longrightarrow> Q (a, b, s')) \<Longrightarrow> pred_option Q (empty_completion_queue ib j q w p s)"
  by (rule calm3, erule kf.post_R kf.empty_completion_queue_R, blast)+

lemma wait_wp [wp]:
  "(\<And>a b s'. skey ib s' = skey ib s \<Longrightarrow> Q (a, b, s')) \<Longrightarrow> pred_option Q (post_each ib c self req i n p s)"
  "(\<And>a b s'. skey ib s' = skey ib s \<Longrightarrow> Q (a, b, s')) \<Longrightarrow> pred_option Q (wait_for_one ib p q s)"
  "(\<And>a b s'. skey ib s' = skey ib s \<Longrightarrow> Q (a, b, s')) \<Longrightarrow> pred_option Q (wait_for_majority ib p q s)"
  by (rule calm3, erule kf.post_each_R kf.wait_for_one_R kf.wait_for_majority_R, blast)+

lemma message_wp [wp]:
  "(\<And>a s'. skey ib s' = skey ib s \<Longrightarrow> Q (a, s')) \<Longrightarrow> pred_option Q (rc_send_hb ib s)"
  "(\<And>a s'. skey ib s' = skey ib s \<Longrightarrow> Q (a, s')) \<Longrightarrow> pred_option Q (rc_send_hb_reply ib j s)"
  "(\<And>a s'. skey ib s' = skey ib s \<Longrightarrow> Q (a, s')) \<Longrightarrow> pred_option Q (rc_send_vote_request ib s)"
  "(\<And>a s'. skey ib s' = skey ib s \<Longrightarrow> Q (a, s')) \<Longrightarrow> pred_option Q (rc_replicate_vote ib s)"
  "(\<And>a s'. skey ib s' = skey ib s \<Longrightarrow> Q (a, s')) \<Longrightarrow> pred_option Q (rc_send_vote_ack ib s)"
  by (rule calm2, erule rc_send_hb_keeps rc_send_hb_reply_keeps rc_send_vote_request_keeps rc_replicate_vote_keeps rc_send_vote_ack_keeps, blast)+

lemma timeout_wp [wp]:
  "(\<And>a s'. skey ib s' = skey ib s \<Longrightarrow> Q (a, s')) \<Longrightarrow> pred_option Q (random_election_timeout ib s)"
  by (rule calm2, erule random_election_timeout_keeps, blast)+

lemma local_wp [wp]:
  "(\<And>s'. \<forall>ib. skey ib s' = skey ib s \<Longrightarrow> Q s') \<Longrightarrow> pred_option Q (set_vote_request s)"
  "(\<And>s'. \<forall>ib. skey ib s' = skey ib s \<Longrightarrow> Q s') \<Longrightarrow> pred_option Q (fill_nc_buf s)"
  by (rule pred_optionI, use keeps_skey [OF set_vote_request_keeps] in blast,
      rule pred_optionI, use keeps_skey [OF fill_nc_buf_keeps] in blast)

lemma skey_comm [simp]:
  "skey ib (snd (rc_revoke_log_access ib s)) = skey ib s" "skey ib (snd (rc_restore_log_access ib s)) = skey ib s"
  "skey ib (snd (rc_disconnect_server ib j s)) = skey ib s" "skey ib (snd (rc_connect_server ib j q s)) = skey ib s"
  by (rule keeps_skey; (rule access_keeps | rule kf.rc_disconnect_server_R kf.rc_connect_server_R))+

lemma skey_comm_eq:
  "rc_revoke_log_access ib s = (rc, s') \<Longrightarrow> skey ib s' = skey ib s" "rc_restore_log_access ib s = (rc, s') \<Longrightarrow> skey ib s' = skey ib s"
  using skey_comm(1,2) [of ib s] by simp_all

section \<open>Replication\<close>

lemma adjust_switch_calm: "pred_option (\<lambda>(r, s'). skey ib s' = skey ib s) (adjust_switch i c s)"
  by (simp add: adjust_switch_def adjust_nce_len_def adjust_nce_def adjust_set_end_def Let_def split: sum.split)

lemmas [wp] = after_all2 [OF adjust_switch_calm]

lemma log_adjustment_loop_calm: "pred_option (\<lambda>(rc, s'). skey ib s' = skey ib s) (log_adjustment_loop ib i n init s)"
proof (induction n arbitrary: i init s)
  case (Suc n)
  note IH = after2 [OF Suc.IH]
  show ?case by (auto simp: Let_def intro!: wp IH)
qed simp

lemma update_req_skey:
  "update_log_req i s = (r, r2, s') \<Longrightarrow> skey ib s' = skey ib s" "update_end_req i s = (r, r2, s') \<Longrightarrow> skey ib s' = skey ib s"
  by (auto simp: update_log_req_def update_end_req_def Let_def split: if_splits)

lemma write_logs_loop_calm: "pred_option (\<lambda>(rc, s'). skey ib s' = skey ib s) (write_logs_loop ib i n init s)"
proof (induction n arbitrary: i init s)
  case (Suc n)
  note IH = after2 [OF Suc.IH]
  show ?case
    by (auto simp: Let_def update_req_skey intro!: wp IH split: if_splits)
qed simp

lemma commit_offsets_loop_calm: "pred_option (\<lambda>(rc, s'). skey ib s' = skey ib s) (commit_offsets_loop ib i n init s)"
proof (induction n arbitrary: i init s)
  case (Suc n)
  note IH = after2 [OF Suc.IH]
  show ?case by (auto simp: Let_def intro!: wp IH)
qed simp

lemma apply_offsets_loop_calm: "pred_option (\<lambda>(rc, s'). skey ib s' = skey ib s) (apply_offsets_loop ib i n init s)"
proof (induction n arbitrary: i init s)
  case (Suc n)
  note IH = after2 [OF Suc.IH]
  show ?case by (auto simp: Let_def intro!: wp IH)
qed simp

lemma advance_commit_calm: "pred_option (\<lambda>s'. skey ib s' = skey ib s) (advance_commit n s)"
  by (cases "commit_scan (slog s) n (me s) (log_commit (slog s))") (auto simp: advance_commit_def)

lemmas [wp] = after2 [OF log_adjustment_loop_calm] after2 [OF write_logs_loop_calm]
  after2 [OF commit_offsets_loop_calm] after2 [OF apply_offsets_loop_calm] after_all [OF advance_commit_calm]

lemma update_remote_logs_calm: "pred_option (\<lambda>(rc, s'). skey ib s' = skey ib s) (update_remote_logs ib s)"
  by (auto simp: update_remote_logs_def Let_def intro!: wp)

lemmas [wp] = after2 [OF update_remote_logs_calm]

lemma write_remote_logs_loop_calm: "pred_option (\<lambda>(rc, s'). skey ib s' = skey ib s) (write_remote_logs_loop ib w k s)"
proof (induction k arbitrary: s)
  case (Suc k)
  note IH = after2 [OF Suc.IH]
  show ?case by (auto simp: log_adjustment_def Let_def intro!: wp IH)
qed simp

lemmas [wp] = after2 [OF write_remote_logs_loop_calm]

lemma rc_write_remote_logs_calm: "pred_option (\<lambda>(rc, s'). skey ib s' = skey ib s) (rc_write_remote_logs ib w s)"
  by (auto simp: rc_write_remote_logs_def intro!: wp)

lemma rc_send_entries_reply_calm: "pred_option (\<lambda>(rc, s'). skey ib s' = skey ib s) (rc_send_entries_reply ib j s)"
  by (auto simp: rc_send_entries_reply_def Let_def intro!: wp)

lemmas [wp] = after2 [OF rc_write_remote_logs_calm] after2 [OF rc_send_entries_reply_calm]

section \<open>Datagrams\<close>

lemmas [wp] = any_wp [where m = "ud_wait ib e" for ib e] any_wp [where m = "log_append_entry l ph tm r c ty d" for l ph tm r c ty d]
  any_wp [where m = "ep_search t lid" for t lid] any_wp [where m = "ep_insert t raw ah lid g" for t raw ah lid g]
  any_wp [where m = "log_get_tail l" for l] any_wp [where m = "find_config l x y z" for l x y z]

lemma send_message_calm: "pred_option (\<lambda>(rc, s'). skey ib' s' = skey ib' s) (send_message ib dest msg s)"
  by (auto simp: send_message_def Let_def intro!: wp)

lemmas [wp] = after_all2 [OF send_message_calm]

lemma append_entry_calm: "pred_option (\<lambda>(idx, s'). skey ib s' = skey ib s) (append_entry r c ty d s)"
  by (auto simp: append_entry_def intro!: wp)

lemmas [wp] = after_all2 [OF append_entry_calm]

lemma drain_queue_calm: "pred_option (\<lambda>s'. skey ib s' = skey ib s) (drain_queue q s)"
proof (induction q arbitrary: s)
  case (Cons n q)
  note IH = after1 [OF Cons.IH]
  show ?case by (auto intro!: wp IH)
qed simp

lemma ud_replies_calm:
  "pred_option (\<lambda>(rc, s'). skey ib' s' = skey ib' s) (ud_send_clt_reply ib lid r ty s)"
  "pred_option (\<lambda>s'. skey ib' s' = skey ib' s) (ud_clt_answer_read_request ib ep s)"
  by (auto simp: ud_send_clt_reply_def ud_clt_answer_read_request_def ud_send_message_def Let_def intro!: wp)

lemmas [wp] = after_all [OF drain_queue_calm] after_all2 [OF ud_replies_calm(1)] after_all [OF ud_replies_calm(2)]

lemma ud_requests_calm:
  "pred_option (\<lambda>(rc, s'). skey ib' s' = skey ib' s) (ud_join_cluster ib s)"
  "pred_option (\<lambda>(rc, s'). skey ib' s' = skey ib' s) (ud_exchange_rc_info ib s)"
  "pred_option (\<lambda>(rc, s'). skey ib' s' = skey ib' s) (ud_update_rc_info ib s)"
  by (auto simp: ud_join_cluster_def ud_update_rc_info_def ud_exchange_rc_info_def mcast_send_message_def Let_def intro!: wp)

lemma peer_skey [simp]:
  "skey ib' (wc_to_ud_ep ib i w g lid s) = skey ib' s" "skey ib' (learn_peer ib w m lq cq s) = skey ib' s"
  "skey ib' (init_new_server ib w h k s) = skey ib' s" "skey ib' (handle_server_join_reply r s) = skey ib' s"
  by (simp_all add: wc_to_ud_ep_def learn_peer_def init_new_server_def handle_server_join_reply_def Let_def split: prod.split)

lemma join_calm:
  "pred_option (\<lambda>(rc, s'). skey ib' s' = skey ib' s) (add_server ib w h k s)"
  "pred_option (\<lambda>s'. skey ib' s' = skey ib' s) (join_endpoint ib w h s)"
  by (auto simp: add_server_def join_endpoint_def Let_def intro!: wp split: prod.split)

lemmas [wp] = after_all2 [OF join_calm(1)] after_all [OF join_calm(2)]

lemma handle_join_calm: "pred_option (\<lambda>(rc, s'). skey ib' s' = skey ib' s) (handle_server_join_request ib w h s)"
  by (auto simp: handle_server_join_request_def intro!: wp split: sum.split)

lemma connect_peer_skey: "connect_peer ib j s = (rc, s') \<Longrightarrow> skey ib s' = skey ib s"
  using skey_comm(4) [of ib j CTRL_QP s]
  by (auto simp: connect_peer_def and_then_def split: prod.splits if_splits) (metis skey_comm(4) snd_conv)+

lemma handshake_calm:
  "pred_option (\<lambda>(rc, s'). skey ib s' = skey ib s) (handle_rc_syn ib w m s)"
  "pred_option (\<lambda>(rc, s'). skey ib s' = skey ib s) (handle_rc_synack ib w m s)"
  "skey ib (snd (handle_rc_ack a s)) = skey ib s"
  by (auto simp: handle_rc_syn_def handle_rc_synack_def handle_rc_ack_def ud_send_message_def Let_def
      connect_peer_skey intro!: wp split: if_splits)

lemmas [wp] = after_all2 [OF handle_join_calm] after2 [OF handshake_calm(1)] after2 [OF handshake_calm(2)]

lemma handle_message_calm: "pred_option (\<lambda>(ty, s'). skey ib s' = skey ib s) (handle_message_from_client ib w msg s)"
  using handshake_calm(3) [of ib _ s]
  by (auto simp: handle_message_from_client_def Let_def intro!: wp split: ud_msg.split) (metis snd_conv)+

lemmas [wp] = after2 [OF handle_message_calm]

lemma ud_get_message_calm: "pred_option (\<lambda>(ty, s'). skey ib s' = skey ib s) (ud_get_message ib s)"
proof -
  have "ib = ib \<longrightarrow> skey ib (snd r) = skey ib s" if "ud_get_message ib s = Some r" for r
  proof (rule ud_get_message.raw_induct [where P = "\<lambda>ib' s r. ib' = ib \<longrightarrow> skey ib (snd r) = skey ib s", OF _ that])
    fix f :: "'a ibv \<Rightarrow> 'a srv \<Rightarrow> (u8 \<times> 'a srv) option" and ib' s r
    assume IH: "\<And>ib' s r. f ib' s = Some r \<Longrightarrow> ib' = ib \<longrightarrow> skey ib (snd r) = skey ib s"
      and eq: "(case ud_poll_rcq ib' (env s) of (ne, w, msg, e) \<Rightarrow>
        let s1 = s\<lparr>env := e\<rparr>; rearm = (\<lambda>t. t\<lparr>env := ud_post_one_receive ib' (uw_wr_id w) (env t)\<rparr>)
        in if ne < 0 then Some (MSG_ERROR, s1)
           else if ne = 0 then Some (MSG_NONE, s1)
           else if uw_stat w \<noteq> IBV_WC_SUCCESS then Some (MSG_ERROR, s1)
           else if uw_slid w = dev_lid ib' \<or> \<not> uw_recv w then f ib' (rearm s1)
           else map_option (\<lambda>(typ, t). (typ, rearm t)) (handle_message_from_client ib' w msg s1)) = Some r"
    have rec: "pred_option (\<lambda>(ty, s'). skey ib s' = skey ib t) (f ib t)" for t
      using IH [of ib t] by (cases "f ib t") auto
    show "ib' = ib \<longrightarrow> skey ib (snd r) = skey ib s"
    proof
      assume ib: "ib' = ib"
      show "skey ib (snd r) = skey ib s"
        by (rule pred_optionD [where Q = "\<lambda>r. skey ib (snd r) = skey ib s", OF _ eq [unfolded ib]])
          (auto simp: Let_def intro!: wp after2 [OF rec])
    qed
  qed
  then show ?thesis by (auto intro!: pred_optionI)
qed

lemmas [wp] = after2 [OF ud_get_message_calm]

end
