(* ===== verification/Dare_Calm_Server.thy ===== *)
theory Dare_Calm_Server
  imports Dare_Calm
begin

text \<open>
  The operations of \<^verbatim>\<open>dare_server.c\<close> that leave the SID and the phase alone: following,
  persisting, committing, applying and pruning the log, removing servers, serving
  snapshots, and reading the heartbeats.
\<close>

section \<open>CONFIG and HEAD entries\<close>

lemma update_cid_calm: "pred_option (\<lambda>(rc, s'). skey ib s' = skey ib s) (update_cid ib c s)"
  using update_cid_sid [of ib c s] by (auto simp: skey_def phase_def intro!: pred_optionI)

lemmas [wp] = after2 [OF update_cid_calm]

lemma config_entry_calm: "pred_option (\<lambda>(h, s'). skey ib s' = skey ib s) (config_entry ib c p x y s)"
  by (auto simp: config_entry_def Let_def intro!: wp)

lemmas [wp] = after2 [OF config_entry_calm]

lemma config_loop_calm: "pred_option (\<lambda>(x, y, s'). skey ib s' = skey ib s) (config_loop ib c x y s)"
proof -
  have "ib = ib \<longrightarrow> skey ib (snd (snd r)) = skey ib s" if "config_loop ib c x y s = Some r" for r
  proof (rule config_loop.raw_induct [where P = "\<lambda>ib' c x y s r. ib' = ib \<longrightarrow> skey ib (snd (snd r)) = skey ib s", OF _ that])
    fix f :: "'a ibv \<Rightarrow> u64 \<Rightarrow> u64 \<Rightarrow> u64 \<Rightarrow> 'a srv \<Rightarrow> (u64 \<times> u64 \<times> 'a srv) option" and ib' c x y s r
    assume IH: "\<And>ib' c x y s r. f ib' c x y s = Some r \<Longrightarrow> ib' = ib \<longrightarrow> skey ib (snd (snd r)) = skey ib s"
      and eq: "(if log_offset_end_distance (slog s) x = 0 then Some (x, y, s)
        else case log_get_entry (slog s) x of (None, o1) \<Rightarrow> None
        | (Some p, o1) \<Rightarrow>
            if \<not> log_fit_entry (slog s) o1 p then f ib' c 0 y s
            else do {
              (h, s1) \<leftarrow> config_entry ib' c p o1 y s;
              f ib' c (o1 + ucast (log_entry_len (log_entries (slog s1)) p)) h s1
            }) = Some r"
    have rec: "pred_option Q (f ib c x y t)" if "\<And>a b s'. skey ib s' = skey ib t \<Longrightarrow> Q (a, b, s')" for c x y t Q
      using IH [of ib c x y t] that by (cases "f ib c x y t") auto
    show "ib' = ib \<longrightarrow> skey ib (snd (snd r)) = skey ib s"
    proof
      assume ib: "ib' = ib"
      show "skey ib (snd (snd r)) = skey ib s"
        by (rule pred_optionD [where Q = "\<lambda>r. skey ib (snd (snd r)) = skey ib s", OF _ eq [unfolded ib]])
          (auto simp: Let_def intro!: wp rec)
    qed
  qed
  then show ?thesis by (auto intro!: pred_optionI)
qed

lemma poll_config_entries_calm: "pred_option (\<lambda>s'. skey ib s' = skey ib s) (poll_config_entries ib s)"
proof -
  have "pred_option Q (config_loop ib c x y s)" if "\<And>a b s'. skey ib s' = skey ib s \<Longrightarrow> Q (a, b, s')" for c x y Q
    using config_loop_calm [of ib s c x y] that by (cases "config_loop ib c x y s") auto
  then show ?thesis by (auto simp: poll_config_entries_def Let_def intro!: wp)
qed

lemmas [wp] = after1 [OF poll_config_entries_calm]

section \<open>Committing and persisting\<close>

lemma commit_new_entries_calm: "pred_option (\<lambda>s'. skey ib s' = skey ib s) (commit_new_entries ib s)"
  by (auto simp: commit_new_entries_def intro!: wp)

lemma persist_entry_calm: "pred_option (\<lambda>s'. skey ib s' = skey ib s) (persist_entry ib p s)"
  by (auto simp: persist_entry_def Let_def intro!: wp)

lemmas [wp] = after1 [OF commit_new_entries_calm] after1 [OF persist_entry_calm]

lemma persist_new_entries_calm: "pred_option (\<lambda>s'. skey ib s' = skey ib s) (persist_new_entries ib s)"
proof -
  have "ib = ib \<longrightarrow> skey ib r = skey ib s" if "persist_new_entries ib s = Some r" for r
  proof (rule persist_new_entries.raw_induct [where P = "\<lambda>ib' s r. ib' = ib \<longrightarrow> skey ib r = skey ib s", OF _ that])
    fix f :: "'a ibv \<Rightarrow> 'a srv \<Rightarrow> 'a srv option" and ib' s r
    assume IH: "\<And>ib' s r. f ib' s = Some r \<Longrightarrow> ib' = ib \<longrightarrow> skey ib r = skey ib s"
      and eq: "(if \<not> log_is_offset_larger (slog s) (log_end (slog s)) (log_old_end (slog s)) then Some s
        else case log_get_entry (slog s) (log_old_end (slog s)) of (None, o1) \<Rightarrow> None
        | (Some p, o1) \<Rightarrow>
            let s1 = upd_log (\<lambda>l. l\<lparr>log_old_end := o1\<rparr>) s
            in if \<not> log_fit_entry (slog s1) o1 p then f ib' (upd_log (\<lambda>l. l\<lparr>log_old_end := 0\<rparr>) s1)
               else do {
                 s2 \<leftarrow> persist_entry ib' p s1;
                 f ib' (upd_log (\<lambda>l. l\<lparr>log_old_end := log_old_end l + ucast (log_entry_len (log_entries l) p)\<rparr>) s2)
               }) = Some r"
    have rec: "pred_option (\<lambda>s'. skey ib s' = skey ib t) (f ib t)" for t
      using IH [of ib t] by (cases "f ib t") auto
    show "ib' = ib \<longrightarrow> skey ib r = skey ib s"
    proof
      assume ib: "ib' = ib"
      show "skey ib r = skey ib s"
        by (rule pred_optionD [where Q = "\<lambda>r. skey ib r = skey ib s", OF _ eq [unfolded ib]])
          (auto simp: Let_def intro!: wp after1 [OF rec])
    qed
  qed
  then show ?thesis by (auto intro!: pred_optionI)
qed

section \<open>Applying\<close>

lemma remove_server_skey [simp]: "skey ib (remove_server ib i s) = skey ib s"
  by (simp add: remove_server_def Let_def)

lemma fold_remove_skey [simp]: "skey ib (fold (remove_server ib) ks s) = skey ib s"
  by (induction ks arbitrary: s) simp_all

lemma stabilise_skey [simp]: "skey ib (stabilise ib ks s) = skey ib s"
  by (simp add: stabilise_def)

lemma apply_unstable_calm:
  "(\<And>r c s'. skey ib s' = skey ib s \<Longrightarrow> Q (r, c, s')) \<Longrightarrow> pred_option Q (apply_unstable ib p s)"
  by (auto simp: apply_unstable_def Let_def intro!: wp)

lemma apply_config_calm: "pred_option (\<lambda>s'. skey ib s' = skey ib s) (apply_config ib p s)"
  by (auto simp: apply_config_def Let_def intro!: wp apply_unstable_calm)

lemmas [wp] = after1 [OF apply_config_calm]

lemma apply_entry_skey [simp]: "skey ib' (apply_entry ib p s) = skey ib' s"
  by (simp add: apply_entry_def Let_def)

lemma apply_one_calm: "pred_option (\<lambda>s'. skey ib s' = skey ib s) (apply_one ib p s)"
  by (auto simp: apply_one_def Let_def intro!: wp)

lemmas [wp] = after1 [OF apply_one_calm]

lemma apply_loop_calm: "pred_option (\<lambda>s'. skey ib s' = skey ib s) (apply_loop ib s)"
proof -
  have "ib = ib \<longrightarrow> skey ib r = skey ib s" if "apply_loop ib s = Some r" for r
  proof (rule apply_loop.raw_induct [where P = "\<lambda>ib' s r. ib' = ib \<longrightarrow> skey ib r = skey ib s", OF _ that])
    fix f :: "'a ibv \<Rightarrow> 'a srv \<Rightarrow> 'a srv option" and ib' s r
    assume IH: "\<And>ib' s r. f ib' s = Some r \<Longrightarrow> ib' = ib \<longrightarrow> skey ib r = skey ib s"
      and eq: "(if \<not> log_is_offset_larger (slog s) (log_commit (slog s)) (log_apply (slog s)) then Some s
        else case log_get_entry (slog s) (log_apply (slog s)) of (None, o1) \<Rightarrow> None
        | (Some p, o1) \<Rightarrow>
            let s1 = upd_log (\<lambda>l. l\<lparr>log_apply := o1\<rparr>) s
            in if \<not> log_fit_entry (slog s1) o1 p then f ib' (upd_log (\<lambda>l. l\<lparr>log_apply := 0\<rparr>) s1)
               else do {
                 s2 \<leftarrow> apply_one ib' p s1;
                 f ib' (upd_log (\<lambda>l. l\<lparr>log_apply := log_apply l + ucast (log_entry_len (log_entries l) p)\<rparr>) s2)
               }) = Some r"
    have rec: "pred_option (\<lambda>s'. skey ib s' = skey ib t) (f ib t)" for t
      using IH [of ib t] by (cases "f ib t") auto
    show "ib' = ib \<longrightarrow> skey ib r = skey ib s"
    proof
      assume ib: "ib' = ib"
      show "skey ib r = skey ib s"
        by (rule pred_optionD [where Q = "\<lambda>r. skey ib r = skey ib s", OF _ eq [unfolded ib]])
          (auto simp: Let_def intro!: wp after1 [OF rec])
    qed
  qed
  then show ?thesis by (auto intro!: pred_optionI)
qed

lemmas [wp] = after1 [OF persist_new_entries_calm] after1 [OF apply_loop_calm]

section \<open>Pruning and removing servers\<close>

lemma prune_scan_skey: "prune_scan i n x s = (y, s') \<Longrightarrow> skey ib s' = skey ib s"
  by (induction n arbitrary: i x s) (fastforce simp: Let_def split: if_splits)+

lemma advance_head_calm: "pred_option (\<lambda>s'. skey ib s' = skey ib s) (advance_head x s)"
  by (auto simp: advance_head_def intro!: wp)

lemmas [wp] = after_all [OF advance_head_calm]

lemma log_pruning_calm: "pred_option (\<lambda>(rc, s'). skey ib s' = skey ib s) (log_pruning ib s)"
  by (auto simp: log_pruning_def rc_get_remote_apply_offsets_def prune_scan_skey intro!: wp)

lemmas [wp] = after2 [OF log_pruning_calm]

lemma prune_log_cb_calm: "pred_option (\<lambda>s'. skey ib s' = skey ib s) (prune_log_cb ib s)"
  by (auto simp: prune_log_cb_def intro!: wp)

lemma force_log_pruning_calm: "pred_option (\<lambda>s'. skey ib s' = skey ib s) (force_log_pruning ib s)"
  by (auto simp: force_log_pruning_def Let_def intro!: wp)

lemma failure_loop_skey: "failure_loop ib i n c k s = (c', k', s') \<Longrightarrow> skey ib s' = skey ib s"
  by (induction n arbitrary: i c k s) (fastforce split: if_splits)+

lemma check_failure_count_calm: "pred_option (\<lambda>s'. skey ib s' = skey ib s) (check_failure_count ib s)"
  by (auto simp: check_failure_count_def failure_loop_skey intro!: wp)

lemmas [wp] = after1 [OF prune_log_cb_calm] after1 [OF force_log_pruning_calm] after1 [OF check_failure_count_calm]

section \<open>Becoming the leader\<close>

lemma count_votes_skey: "count_votes i n v s = (v', s') \<Longrightarrow> skey ib s' = skey ib s"
  by (induction n arbitrary: i v s) (fastforce simp: Let_def split: if_splits)+

lemma blank_entry_calm: "pred_option (\<lambda>(idx, s'). skey ib s' = skey ib s) (blank_entry ib s)"
  by (auto simp: blank_entry_def Let_def intro!: wp any_wp [where m = "x :: nat option" for x])

lemma start_leading_calm: "pred_option (\<lambda>s'. skey ib s' = skey ib s) (start_leading ib s)"
  by (auto simp: start_leading_def Let_def skey_comm_eq intro!: wp)

lemmas [wp] = after2 [OF blank_entry_calm] after1 [OF start_leading_calm]

section \<open>Snapshots and recovery\<close>

lemma rc_send_sm_calm:
  "pred_option (\<lambda>(rc, s'). skey ib s' = skey ib s) (rc_send_sm_request ib s)"
  "pred_option (\<lambda>(rc, s'). skey ib s' = skey ib s) (rc_send_sm_reply ib i buf len reg s)"
  by (auto simp: rc_send_sm_request_def rc_send_sm_reply_def Let_def intro!: wp)

lemma recover_buffer_skey: "recover_buffer ib len s = (b, s') \<Longrightarrow> skey ib' s' = skey ib' s"
  by (auto simp: recover_buffer_def split: if_splits prod.splits)

lemma rc_recover_sm_calm: "pred_option (\<lambda>(rc, s'). skey ib s' = skey ib s) (rc_recover_sm ib i s)"
  by (auto simp: rc_recover_sm_def recover_buffer_skey Let_def intro!: wp split: if_splits)

lemma adopt_offsets_skey [simp]: "skey ib (adopt_offsets i s) = skey ib s"
  by (simp add: adopt_offsets_def Let_def)

lemma read_entries_calm: "pred_option (\<lambda>(rc, s'). skey ib s' = skey ib s) (read_entries ib i s)"
  by (auto simp: read_entries_def Let_def intro!: wp)

lemmas [wp] = after2 [OF rc_send_sm_calm(1)] after2 [OF rc_send_sm_calm(2)] after2 [OF rc_recover_sm_calm]
  after2 [OF read_entries_calm]

lemma rc_recover_log_calm: "pred_option (\<lambda>(rc, s'). skey ib s' = skey ib s) (rc_recover_log ib s)"
  by (auto simp: rc_recover_log_def Let_def intro!: wp)

lemma make_snapshot_calm:
  "(\<And>b r l s'. skey ib s' = skey ib s \<Longrightarrow> Q (b, r, l, s')) \<Longrightarrow> pred_option Q (make_snapshot ib s)"
  by (auto simp: make_snapshot_def Let_def skey_def phase_def flags_and_not split: prod.split)

lemma sm_requests_loop_calm: "pred_option (\<lambda>s'. skey ib s' = skey ib s) (sm_requests_loop ib i n cur s)"
proof (induction n arbitrary: i cur s)
  case (Suc n)
  note IH = after1 [OF Suc.IH]
  show ?case by (auto simp: Let_def intro!: wp IH make_snapshot_calm
      any_wp [where m = "x :: (region \<times> bool \<times> u32) option" for x])
qed simp

lemmas [wp] = after2 [OF rc_recover_log_calm] after1 [OF sm_requests_loop_calm]

section \<open>Heartbeats\<close>

lemma take_hb_skey: "take_hb l i s = (hb, s') \<Longrightarrow> skey ib s' = skey ib s"
  by (auto simp: take_hb_def Let_def split: if_splits)

lemma receive_loop_calm:
  "pred_option (\<lambda>(sid, b, s'). sid0 \<le> sid \<and> skey ib s' = skey ib s) (receive_loop ib l i n sid0 b0 s)"
proof (induction n arbitrary: i sid0 b0 s)
  case (Suc n)
  have IH: "pred_option Q (receive_loop ib l i n x b t)"
    if "\<And>sid b s'. x \<le> sid \<Longrightarrow> skey ib s' = skey ib t \<Longrightarrow> Q (sid, b, s')" for i x b t Q
    using Suc.IH [of x t i b] that by (cases "receive_loop ib l i n x b t") auto
  show ?case
    by (auto simp: Let_def take_hb_skey not_less intro!: wp IH intro: order_trans split: if_splits)
qed simp

lemma send_loop_skey: "send_loop i n sid s = (b, s') \<Longrightarrow> skey ib s' = skey ib s"
  by (induction n arbitrary: i s) (fastforce simp: Let_def split: if_splits)+

lemma to_adjust_cb_skey [simp]: "skey ib (to_adjust_cb s) = skey ib s"
  by (simp add: to_adjust_cb_def Let_def)

end
