(* ===== verification/Dare_Run.thy ===== *)
theory Dare_Run
  imports Dare_Calm_Server
begin

text \<open>
  The operations that change a server's SID or its phase, and the server as a step
  relation: a timer runs, one part of the polling loop runs, another server writes
  the memory, or the proxy submits a request.
\<close>

section \<open>Rising terms\<close>

abbreviation term_of :: "'e srv \<Rightarrow> u64" where
  "term_of s \<equiv> SID_GET_TERM (c_sid (ctrl s))"

text \<open>
  The term does not fall while the phase stays; a term of 0 after the step says that the
  55 bits of the term have wrapped around.
\<close>

definition climbs :: "'e ibv \<Rightarrow> 'e srv \<Rightarrow> 'e srv \<Rightarrow> bool" where
  "climbs ib s s' \<longleftrightarrow> phase s' = phase s \<and> (sid_private ib \<longrightarrow> term_of s \<le> term_of s')"

definition rises :: "'e ibv \<Rightarrow> 'e srv \<Rightarrow> 'e srv \<Rightarrow> bool" where
  "rises ib s s' \<longleftrightarrow> phase s' = phase s \<and> (sid_private ib \<longrightarrow> term_of s \<le> term_of s' \<or> term_of s' = 0)"

lemma climbs_skey: "climbs ib s s' \<longleftrightarrow> snd (skey ib s') = snd (skey ib s) \<and>
    SID_GET_TERM (fst (skey ib s)) \<le> SID_GET_TERM (fst (skey ib s'))"
  by (simp add: climbs_def skey_def)

lemma rises_skey: "rises ib s s' \<longleftrightarrow> snd (skey ib s') = snd (skey ib s) \<and>
    (SID_GET_TERM (fst (skey ib s)) \<le> SID_GET_TERM (fst (skey ib s')) \<or> SID_GET_TERM (fst (skey ib s')) = 0)"
  by (simp add: rises_def skey_def)

lemma skey_climbs: "skey ib s' = skey ib s \<Longrightarrow> climbs ib s s'"
  by (simp add: climbs_skey)

lemma skey_rises: "skey ib s' = skey ib s \<Longrightarrow> rises ib s s'"
  by (simp add: rises_skey)

lemma climbs_rises: "climbs ib s t \<Longrightarrow> rises ib t u \<Longrightarrow> rises ib s u"
  by (auto simp: climbs_def rises_def)

lemma rises_calm: "rises ib s t \<Longrightarrow> skey ib u = skey ib t \<Longrightarrow> rises ib s u"
  by (simp add: rises_skey)

lemma rises_upd [simp]:
  "rises ib s (s'\<lparr>endpoints := x\<rparr>) = rises ib s s'" "rises ib s (set_hb r s') = rises ib s s'"
  by (simp_all add: rises_skey)

lemma sid_le_term: "a \<le> b \<Longrightarrow> SID_GET_TERM a \<le> SID_GET_TERM b"
  by (simp add: SID_GET_TERM_def word_le_nat_alt drop_bit_eq_div unat_div div_le_mono)

section \<open>The state identifier\<close>

lemma update_sid_wp [wp]:
  "(\<And>s'. \<forall>ib. skey ib s' = (if sid_private ib then new else 0, phase s) \<Longrightarrow> Q s') \<Longrightarrow>
     pred_option Q (server_update_sid new old s)"
  by (auto simp: server_update_sid_def skey_def phase_def upd_ctrl_def)

lemma candidate_term: "SID_GET_TERM (candidate_sid s) = 0 \<or> term_of s \<le> SID_GET_TERM (candidate_sid s)"
proof (cases "unat (term_of s) + 1 < 2 ^ 55")
  case True
  then show ?thesis using candidate_sid_fields(4) [OF True] by (simp add: word_le_nat_alt)
next
  case False
  then have "unat (term_of s) = 2 ^ 55 - 1" using SID_GET_TERM_bound [of "c_sid (ctrl s)"] by simp
  then have "term_of s = of_nat (2 ^ 55 - 1)" by (intro unsigned_word_eqI) simp
  then show ?thesis by (simp add: candidate_sid_def sid_simps SID_TERM_SET_TERM take_bit_eq_mod)
qed

lemma clear_votes_skey [simp]: "skey ib (clear_votes n s) = skey ib s"
  by (rule keeps_skey [OF clear_votes_keeps])

lemma start_election_rises:
  "(\<And>s'. rises ib s s' \<Longrightarrow> Q s') \<Longrightarrow> pred_option Q (start_election ib s)"
proof (rule pred_optionI)
  fix s' assume Q: "\<And>s'. rises ib s s' \<Longrightarrow> Q s'" and s': "start_election ib s = Some s'"
  obtain s1 where s1: "server_update_sid (candidate_sid s) (c_sid (ctrl s)) s = Some s1" "keeps ib s1 s'"
    by (rule start_election_keeps [OF s'])
  have "rises ib s s1"
    using update_sid_sel [OF s1(1)] candidate_term [of s] by (auto simp: rises_def phase_def)
  then show "Q s'" using Q rises_calm keeps_skey [OF s1(2)] by blast
qed

lemmas [wp] = start_election_rises

lemma server_to_follower_rises: "pred_option (rises ib s) (server_to_follower ib s)"
  by (auto simp: server_to_follower_def Let_def skey_rises rises_skey intro!: wp)

lemma follower_wp [wp]: "(\<And>s'. rises ib s s' \<Longrightarrow> Q s') \<Longrightarrow> pred_option Q (server_to_follower ib s)"
  using server_to_follower_rises [of ib s] by (cases "server_to_follower ib s") auto

lemma better_leader_ge: "sid \<le> fold (better_leader p s) ks sid"
proof (induction ks arbitrary: sid)
  case (Cons k ks)
  have "sid \<le> better_leader p s k sid" by (auto simp: better_leader_def Let_def)
  then show ?case using Cons.IH order_trans by fastforce
qed simp

text \<open>While the leadership is confirmed the SID stays.\<close>

lemma updated_climbs:
  assumes "\<forall>ib. skey ib v = (if sid_private ib then sid else 0, phase t)" and "skey ib t = skey ib s"
    and "sid_private ib \<Longrightarrow> term_of t \<le> SID_GET_TERM sid"
  shows "climbs ib s v"
proof -
  have "skey ib s = (if sid_private ib then c_sid (ctrl t) else 0, phase t)" using assms(2) by (simp add: skey_def)
  then show ?thesis using assms(1,3) by (simp add: climbs_skey)
qed

lemma updated_rises:
  assumes "\<forall>ib. skey ib v = (if sid_private ib then sid else 0, phase t)" and "rises ib v u" and "skey ib t = skey ib s"
    and "sid_private ib \<Longrightarrow> term_of t \<le> SID_GET_TERM sid"
  shows "rises ib s u"
  by (rule climbs_rises [OF updated_climbs [OF assms(1,3,4)] assms(2)])

lemma rc_verify_leadership_rises:
  "pred_option (\<lambda>(rc, l, s'). rises ib s s' \<and> (l \<longrightarrow> skey ib s' = skey ib s)) (rc_verify_leadership ib False s)"
  by (auto simp: rc_verify_leadership_def Let_def skey_rises intro!: wp)
    (erule updated_rises, assumption+, rule sid_le_term [OF better_leader_ge])

lemma verify_wp [wp]:
  "(\<And>rc l s'. rises ib s s' \<Longrightarrow> l \<longrightarrow> skey ib s' = skey ib s \<Longrightarrow> Q (rc, l, s')) \<Longrightarrow>
     pred_option Q (rc_verify_leadership ib False s)"
  using rc_verify_leadership_rises [of ib s] by (cases "rc_verify_leadership ib False s") auto

lemma reply_loop_rises: "pred_option (rises ib s) (reply_loop ib idx ls b s)"
proof (induction ls arbitrary: b s)
  case (Cons l ls)
  have IH: "pred_option (rises ib s) (reply_loop ib idx ls b t)" if "skey ib t = skey ib s" for b t
    using Cons.IH [of t b] that by (simp add: rises_skey [abs_def])
  show ?case by (auto simp: skey_rises intro!: wp IH intro: rises_calm)
qed (simp add: skey_rises)

lemma apply_committed_entries_rises: "pred_option (rises ib s) (apply_committed_entries ib s)"
proof -
  have "pred_option (rises ib s) (reply_loop ib idx ls b t)" if "skey ib t = skey ib s" for idx ls b t
    using reply_loop_rises [of ib t idx ls b] that by (simp add: rises_skey [abs_def])
  then show ?thesis
    by (auto simp: apply_committed_entries_def ep_dp_reply_read_req_def skey_rises intro!: wp)
qed

section \<open>Heartbeats\<close>

lemma receive_loop_wp [wp]:
  "(\<And>sid b s'. sid0 \<le> sid \<Longrightarrow> skey ib s' = skey ib s \<Longrightarrow> Q (sid, b, s')) \<Longrightarrow>
     pred_option Q (receive_loop ib l i n sid0 b0 s)"
  using receive_loop_calm [of sid0 ib s l i n b0] by (cases "receive_loop ib l i n sid0 b0 s") auto

lemma climbs_imp_rises: "climbs ib s s' \<Longrightarrow> rises ib s s'"
  by (auto simp: climbs_def rises_def)

lemma rises_from: "rises ib t u \<Longrightarrow> skey ib t = skey ib s \<Longrightarrow> rises ib s u"
  by (simp add: rises_skey)

lemma hb_receive_cb_rises: "pred_option (rises ib s) (hb_receive_cb ib s)"
proof -
  have new: "sid_private ib \<Longrightarrow> term_of t \<le> SID_GET_TERM sid" if "c_sid (ctrl s) \<le> sid" "skey ib t = skey ib s" for t sid
    using sid_le_term [OF that(1)] skey_sid [OF that(2)] by simp
  show ?thesis
    by (auto simp: hb_receive_cb_def Let_def skey_rises intro!: wp)
      ((erule updated_rises, assumption, assumption, rule new, assumption+)
       | (erule rises_from, simp)
       | (erule notE, rule climbs_imp_rises, erule updated_climbs, assumption, rule new, assumption+))+
qed

lemma hb_send_cb_rises: "pred_option (rises ib s) (hb_send_cb ib s)"
proof -
  have key: "skey ib t = skey ib s" if "send_loop i n sid s = (b, t)" for i n sid b t
    by (rule send_loop_skey [OF that])
  show ?thesis
    by (auto simp: hb_send_cb_def Let_def skey_rises key intro!: wp)
      (erule updated_rises, assumption, simp add: key, use key skey_sid in fastforce)
qed

section \<open>Votes\<close>

lemma phase_fields [simp]: "phase (set_hb r s) = phase s" "phase (s\<lparr>ctrl := c\<rparr>) = phase s"
  by (simp_all add: phase_def set_hb_def)

lemma cast_vote_rises:
  assumes "sid_private ib \<Longrightarrow> term_of s \<le> SID_GET_TERM (vr_sid best)"
  shows "pred_option (rises ib s) (cast_vote ib best s)"
proof -
  have up: "rises ib s u" if "rises ib t u" "skey ib t = (if sid_private ib then vr_sid best else 0, phase s)" for t u
    using that assms by (auto simp: rises_skey skey_def [of ib s])
  have "rises ib s u" if "skey ib u = (if sid_private ib then vr_sid best else 0, phase s)" for u
    using up [OF _ that] by (simp add: skey_rises)
  then show ?thesis
    by (auto simp: cast_vote_def Let_def skey_comm_eq intro!: wp) (erule up, assumption)
qed

lemma skey_ctrl_upd [simp]: "c_sid c = c_sid (ctrl s) \<Longrightarrow> skey ib (s\<lparr>ctrl := c\<rparr>) = skey ib s"
  by (simp add: skey_def)

lemma choose_request_terms:
  assumes "choose_request 0 n \<lparr>vr_sid = old_sid, vr_index = ix, vr_term = tm, vr_cid = g\<rparr> (SID_GET_TERM best_sid) c0 = (best, h, c)"
  shows "c_sid c = c_sid c0" "SID_GET_TERM best_sid \<le> h" "SID_GET_TERM (SID_SET_IDX (SID_SET_TERM sid h) k) = h"
    "SID_GET_TERM old_sid \<le> SID_GET_TERM (vr_sid best)"
proof -
  note ch = choose_request_correct [OF assms]
  then have "\<exists>x. h = SID_GET_TERM x" by auto
  then show "SID_GET_TERM (SID_SET_IDX (SID_SET_TERM sid h) k) = h" using SID_GET_TERM_bound by (auto simp: sid_simps)
  show "c_sid c = c_sid c0" "SID_GET_TERM best_sid \<le> h" "SID_GET_TERM old_sid \<le> SID_GET_TERM (vr_sid best)"
    using ch by (auto simp: dropped_def intro: sid_le_term)
qed

lemma judge_requests_rises:
  assumes "sid_private ib \<Longrightarrow> term_of s \<le> SID_GET_TERM old_sid" "SID_GET_TERM old_sid \<le> SID_GET_TERM best_sid"
  shows "pred_option (rises ib s) (judge_requests ib old_sid best_sid s)"
proof -
  have raise: "rises ib s u"
    if "\<forall>ib. skey ib u = (if sid_private ib then SID_SET_IDX (SID_SET_TERM (c_sid c) h) k else 0, phase t)"
      "choose_request 0 n \<lparr>vr_sid = old_sid, vr_index = ix, vr_term = tm, vr_cid = g\<rparr> (SID_GET_TERM best_sid) (ctrl t) = (best, h, c)"
      "skey ib t = skey ib s"
    for t n ix tm g best h c k u
  proof -
    note ch = choose_request_terms [OF that(2)] and kt = skey_sid [OF that(3)]
    show ?thesis
      by (rule climbs_imp_rises, rule updated_climbs [OF that(1)]) (use ch kt that(3) assms order_trans in auto)
  qed
  have vote: "pred_option (rises ib s) (cast_vote ib best (t\<lparr>ctrl := c\<rparr>))"
    if "skey ib t = skey ib s" "choose_request 0 n \<lparr>vr_sid = old_sid, vr_index = ix, vr_term = tm, vr_cid = g\<rparr> (SID_GET_TERM best_sid) (ctrl t) = (best, h, c)"
    for t n ix tm g best h c
  proof -
    note ch = choose_request_terms [OF that(2)] and kt = skey_sid [OF that(1)]
    have "skey ib (t\<lparr>ctrl := c\<rparr>) = skey ib s" using ch that by simp
    moreover have "pred_option (rises ib (t\<lparr>ctrl := c\<rparr>)) (cast_vote ib best (t\<lparr>ctrl := c\<rparr>))"
      by (rule cast_vote_rises) (use ch kt assms order_trans in auto)
    ultimately show ?thesis by (simp add: rises_skey [abs_def])
  qed
  show ?thesis
    by (auto simp: judge_requests_def Let_def skey_comm_eq intro!: wp any_wp [where m = "local_last x" for x] vote)
      (erule raise, simp, simp add: skey_comm_eq)
qed

lemma poll_vote_requests_rises: "pred_option (rises ib s) (poll_vote_requests ib s)"
proof -
  let ?sid = "c_sid (ctrl s)"
  have hb: "pred_option (rises ib s) (server_update_sid hb ?sid s)" if "SID_GET_TERM hb = term_of s" for hb
    by (rule update_sid_wp, rule climbs_imp_rises, erule updated_climbs) (simp_all add: that)
  have judge: "pred_option (rises ib s) (judge_requests ib (SID_SET_L ?sid) b (s\<lparr>ctrl := c\<rparr>))"
    if "scan_requests k 0 n (SID_SET_L ?sid) (ctrl s) = (b, c)" for k n b c
  proof -
    note sc = scan_requests_correct [OF that]
    have "pred_option (rises ib (s\<lparr>ctrl := c\<rparr>)) (judge_requests ib (SID_SET_L ?sid) b (s\<lparr>ctrl := c\<rparr>))"
      by (rule judge_requests_rises) (use sc in \<open>auto simp: dropped_def sid_simps dest: sid_le_term\<close>)
    moreover have "skey ib (s\<lparr>ctrl := c\<rparr>) = skey ib s" using sc by (simp add: dropped_def)
    ultimately show ?thesis by (simp add: rises_skey [abs_def])
  qed
  have same: "rises ib s (s\<lparr>ctrl := c\<rparr>)" if "scan_requests k 0 n (SID_SET_L ?sid) (ctrl s) = (b, c)" for k n b c
    using scan_requests_correct [OF that] by (intro skey_rises) (simp add: dropped_def)
  show ?thesis
    by (auto simp: poll_vote_requests_def Let_def skey_rises intro!: wp_case_prod hb judge same)
qed

lemma apply_committed_wp [wp]:
  "(\<And>s'. rises ib s s' \<Longrightarrow> Q s') \<Longrightarrow> pred_option Q (apply_committed_entries ib s)"
  using apply_committed_entries_rises [of ib s] by (cases "apply_committed_entries ib s") auto

lemma poll_vote_count_rises: "pred_option (rises ib s) (poll_vote_count ib s)"
proof -
  have up: "rises ib s w" if "rises ib u v" "skey ib w = skey ib v" "count_votes i n x s = (y, t)"
      "skey ib u = (if sid_private ib then SID_SET_L (c_sid (ctrl t)) else 0, phase t)" for i n x y t u v w
  proof -
    have "skey ib t = skey ib s" by (rule count_votes_skey [OF that(3)])
    then have "climbs ib s u" using that(4) by (auto simp: climbs_skey skey_def [of ib t] sid_simps dest: sym)
    then show ?thesis using that(1,2) climbs_rises rises_calm by blast
  qed
  show ?thesis
    by (auto simp: poll_vote_count_def skey_rises count_votes_skey intro!: wp) (erule notE, erule up, assumption+)
qed

end
