(* ===== verification/Dare_Run_Props.thy ===== *)
theory Dare_Run_Props
  imports Dare_Run Dare_Demo
begin

text \<open>
  The life of a server.  How far it has come is abstracted to a small state machine; the
  step relation of the whole server refines it, and while it runs normally its term
  never falls.
\<close>

section \<open>The recovery machine\<close>

record recovery =
  cb_of :: timer_cb
  joined :: bool
  established :: bool
  sm_done :: bool
  log_done :: bool

definition recovery_of :: "'e srv \<Rightarrow> recovery" where
  "recovery_of s = \<lparr>cb_of = tm_cb (timer_event s), joined = has_state s JOINED, established = has_state s RC_ESTABLISHED,
     sm_done = has_state s SM_RECOVERED, log_done = has_state s LOG_RECOVERED\<rparr>"

text \<open>
  The steps: the network is up; the group has accepted the server; a majority is
  connected, at the first start or after joining; the vote has been read back; a
  snapshot has been read; the log has been read.
\<close>

inductive recovery_step :: "recovery \<Rightarrow> recovery \<Rightarrow> bool" where
  stay: "recovery_step r r"
| started: "cb_of r = Cb_init_network \<Longrightarrow> cb \<in> {Cb_join_cluster, Cb_exchange_rc_info} \<Longrightarrow> recovery_step r (r\<lparr>cb_of := cb\<rparr>)"
| accepted: "recovery_step r (r\<lparr>cb_of := Cb_exchange_rc_info, joined := True\<rparr>)"
| first_start: "\<not> established r \<Longrightarrow> \<not> joined r \<Longrightarrow>
    recovery_step r (r\<lparr>cb_of := Cb_update_rc_info, established := True, sm_done := True, log_done := True\<rparr>)"
| connected: "\<not> established r \<Longrightarrow> joined r \<Longrightarrow> recovery_step r (r\<lparr>cb_of := Cb_get_replicated_vote, established := True\<rparr>)"
| vote_read: "cb_of r = Cb_get_replicated_vote \<Longrightarrow> recovery_step r (r\<lparr>cb_of := Cb_send_sm_request\<rparr>)"
| snapshot_read: "established r \<Longrightarrow> \<not> sm_done r \<Longrightarrow> recovery_step r (r\<lparr>cb_of := Cb_recover_log, sm_done := True\<rparr>)"
| log_read: "cb_of r = Cb_recover_log \<Longrightarrow> recovery_step r (r\<lparr>cb_of := Cb_update_rc_info, log_done := True\<rparr>)"

inductive_cases recovery_stepE: "recovery_step r r'"

definition recovery_ok :: "recovery \<Rightarrow> bool" where
  "recovery_ok r \<longleftrightarrow>
     (log_done r \<longrightarrow> established r \<and> sm_done r \<and> cb_of r \<in> {Cb_exchange_rc_info, Cb_update_rc_info}) \<and>
     (cb_of r \<in> {Cb_get_replicated_vote, Cb_send_sm_request} \<longrightarrow> established r) \<and>
     (cb_of r = Cb_recover_log \<longrightarrow> established r \<and> sm_done r)"

lemma recovery_ok_step: "recovery_step r r' \<Longrightarrow> recovery_ok r \<Longrightarrow> recovery_ok r'"
  by (erule recovery_stepE) (auto simp: recovery_ok_def)

text \<open>Once recovered, a server stays so; a step only restarts the exchange of connection data.\<close>

lemma recovered_step:
  "recovery_step r r' \<Longrightarrow> recovery_ok r \<Longrightarrow> log_done r \<Longrightarrow> log_done r'"
  by (erule recovery_stepE) (auto simp: recovery_ok_def)

section \<open>Steps of a server\<close>

text \<open>
  \<open>rec_moves\<close>: what a step may do to the phase; \<open>moves\<close> adds that the term does not fall.
\<close>

definition rec_moves :: "'e srv \<Rightarrow> 'e srv \<Rightarrow> bool" where
  "rec_moves s s' \<longleftrightarrow> recovery_step (recovery_of s) (recovery_of s')"

definition moves :: "'e ibv \<Rightarrow> 'e srv \<Rightarrow> 'e srv \<Rightarrow> bool" where
  "moves ib s s' \<longleftrightarrow> rec_moves s s' \<and> (sid_private ib \<longrightarrow> term_of s \<le> term_of s' \<or> term_of s' = 0)"

lemmas flag_defs = JOINED_def RC_ESTABLISHED_def SM_RECOVERED_def LOG_RECOVERED_def INIT_def TERMINATE_def
  SNAPSHOT_def DIE_AF_COMMIT_def

lemma has_state_phase:
  assumes "f \<in> {JOINED, RC_ESTABLISHED, SM_RECOVERED, LOG_RECOVERED}"
  shows "has_state s f \<longleftrightarrow> snd (phase s) AND f \<noteq> 0"
  using assms by (auto simp: has_state_def phase_def phase_flags_def flag_defs and.assoc)

lemma phase_recovery:
  assumes "phase s' = phase s"
  shows "recovery_of s' = recovery_of s"
proof -
  have "has_state s' f = has_state s f" if "f \<in> {JOINED, RC_ESTABLISHED, SM_RECOVERED, LOG_RECOVERED}" for f
    unfolding has_state_phase [OF that] assms ..
  moreover have "tm_cb (timer_event s') = tm_cb (timer_event s)" using assms by (simp add: phase_def)
  ultimately show ?thesis by (simp add: recovery_of_def)
qed

lemma rises_moves: "rises ib s s' \<Longrightarrow> moves ib s s'"
  unfolding rises_def moves_def rec_moves_def by (metis phase_recovery stay)

lemma skey_moves: "skey ib s' = skey ib s \<Longrightarrow> moves ib s s'"
  by (rule rises_moves [OF skey_rises])

lemma flag_set [simp]:
  "has_state (s\<lparr>dare_state := d OR x\<rparr>) f \<longleftrightarrow> has_state (s\<lparr>dare_state := d\<rparr>) f \<or> x AND f \<noteq> 0"
  by (simp add: has_state_def bit.conj_disj_distrib2 or_eq_0_iff)

lemma flag_same [simp]: "has_state (s\<lparr>dare_state := dare_state s\<rparr>) f = has_state s f"
  by (simp add: has_state_def)

lemma recovery_fields [simp]:
  "tm_cb (timer_event (set_timer cb r s)) = cb" "has_state (set_timer cb r s) f = has_state s f"
  "term_of (set_timer cb r s) = term_of s" "tm_cb (timer_event (again r s)) = tm_cb (timer_event s)"
  by (simp_all add: set_timer_def again_def ev_timer_again_def has_state_def)

lemma skey_recovery:
  assumes "skey ib s' = skey ib s"
  shows "recovery_of s' = recovery_of s" "sid_private ib \<Longrightarrow> term_of s' = term_of s"
  using phase_recovery [OF skey_phase [OF assms]] skey_sid [OF assms] by simp_all

text \<open>A step that starts with a calm part.\<close>

lemma moves_from: "skey ib t = skey ib s \<Longrightarrow> moves ib t u \<Longrightarrow> moves ib s u"
  using skey_recovery [of ib t s] by (auto simp: moves_def rec_moves_def)

lemma moves_to: "moves ib s t \<Longrightarrow> rises ib t u \<Longrightarrow> term_of t = term_of s \<Longrightarrow> moves ib s u"
  using phase_recovery [of u t] by (auto simp: moves_def rec_moves_def rises_def)

lemma recovery_sel [simp]:
  "cb_of (recovery_of s) = tm_cb (timer_event s)" "joined (recovery_of s) = has_state s JOINED"
  "established (recovery_of s) = has_state s RC_ESTABLISHED" "sm_done (recovery_of s) = has_state s SM_RECOVERED"
  "log_done (recovery_of s) = has_state s LOG_RECOVERED"
  by (simp_all add: recovery_of_def)

lemma movesI:
  "recovery_of s' = r \<Longrightarrow> recovery_step (recovery_of s) r \<Longrightarrow> (sid_private ib \<Longrightarrow> term_of s \<le> term_of s') \<Longrightarrow> moves ib s s'"
  by (simp add: moves_def rec_moves_def)

lemma rc_established_moves: "pred_option (moves ib s) (rc_established ib s)"
proof (cases "has_state s RC_ESTABLISHED")
  case True
  then show ?thesis by (simp add: rc_established_def skey_moves)
next
  case False
  let ?s1 = "s\<lparr>dare_state := dare_state s OR RC_ESTABLISHED\<rparr>"
  let ?s2 = "set_timer Cb_update_rc_info (rc_info_period ?s1) ?s1"
  let ?s3 = "?s2\<lparr>dare_state := dare_state ?s2 OR (LOG_RECOVERED OR SM_RECOVERED)\<rparr>"
  have j: "has_state ?s1 JOINED = has_state s JOINED" by (simp add: flag_defs)
  show ?thesis
  proof (cases "has_state s JOINED")
    case j': True
    have "moves ib s (set_timer Cb_get_replicated_vote NOW ?s1)"
    proof (rule movesI)
      show "recovery_of (set_timer Cb_get_replicated_vote NOW ?s1) = (recovery_of s)\<lparr>cb_of := Cb_get_replicated_vote, established := True\<rparr>"
        by (simp add: recovery_of_def) (simp add: flag_defs)
    qed (use False j' in \<open>auto intro!: connected\<close>)
    then show ?thesis using False j' j by (simp add: rc_established_def Let_def)
  next
    case j': False
    have m: "moves ib s ?s3"
    proof (rule movesI)
      show "recovery_of ?s3 = (recovery_of s)\<lparr>cb_of := Cb_update_rc_info, established := True, sm_done := True, log_done := True\<rparr>"
        by (simp add: recovery_of_def) (simp add: flag_defs)
    qed (use False j' in \<open>auto intro!: first_start\<close>)
    show ?thesis
      unfolding rc_established_def Let_def using False j' j moves_to [OF m] by (auto intro!: wp)
  qed
qed

lemma poll_ud_moves: "pred_option (moves ib s) (poll_ud ib s)"
proof -
  have cfg: "moves ib s (set_timer Cb_exchange_rc_info NOW (t\<lparr>dare_state := dare_state t OR JOINED\<rparr>))"
    if k: "skey ib t = skey ib s" for t
  proof (rule moves_from [OF k], rule movesI)
    show "recovery_of (set_timer Cb_exchange_rc_info NOW (t\<lparr>dare_state := dare_state t OR JOINED\<rparr>)) =
        (recovery_of t)\<lparr>cb_of := Cb_exchange_rc_info, joined := True\<rparr>"
      by (simp add: recovery_of_def) (simp add: flag_defs)
  qed (auto intro: accepted)
  have est: "pred_option (moves ib s) (rc_established ib t)" if k: "skey ib t = skey ib s" for t
    using rc_established_moves [of ib t] moves_from [OF k] by (cases "rc_established ib t") auto
  show ?thesis
    by (auto simp: poll_ud_def get_tailq_message_def skey_moves intro!: wp cfg est)
qed

lemma poll_sm_reply_moves:
  assumes "has_state s RC_ESTABLISHED" "\<not> has_state s SM_RECOVERED"
  shows "pred_option (moves ib s) (poll_sm_reply ib s)"
proof (cases "find_reply s = group_n s")
  case True
  then show ?thesis by (simp add: poll_sm_reply_def skey_moves)
next
  case False
  let ?i = "find_reply s" and ?s0 = "upd_ctrl (\<lambda>c. c\<lparr>c_sid := sr_sid (c_sm_rep c (find_reply s))\<rparr>) s"
  have "sr_sid (c_sm_rep (ctrl s) ?i) > c_sid (ctrl s)"
    using False by (auto simp: find_reply_def Let_def split: list.splits dest!: arg_cong [where f = set])
  then have s0: "recovery_of ?s0 = recovery_of s" "term_of s \<le> term_of ?s0"
    by (auto simp: recovery_of_def has_state_def upd_ctrl_def intro: sid_le_term)
  have same: "moves ib s t" if "skey ib t = skey ib ?s0" for t
    using skey_recovery [OF that] s0 by (auto simp: moves_def rec_moves_def intro: stay)
  have read: "moves ib s (set_timer Cb_recover_log NOW (u\<lparr>dare_state := dare_state u OR SM_RECOVERED\<rparr>))"
    if "skey ib u = skey ib ?s0" for u
  proof (rule movesI)
    show "recovery_of (set_timer Cb_recover_log NOW (u\<lparr>dare_state := dare_state u OR SM_RECOVERED\<rparr>)) =
        (recovery_of s)\<lparr>cb_of := Cb_recover_log, sm_done := True\<rparr>"
      using skey_recovery(1) [OF that] s0(1) by (simp add: recovery_of_def) (simp add: flag_defs)
    show "sid_private ib \<Longrightarrow> term_of s \<le> term_of (set_timer Cb_recover_log NOW (u\<lparr>dare_state := dare_state u OR SM_RECOVERED\<rparr>))"
      using skey_recovery(2) [OF that] s0(2) by simp
  qed (use assms in \<open>auto intro!: snapshot_read\<close>)
  show ?thesis
    using False by (auto simp: poll_sm_reply_def Let_def intro!: wp same read)
qed

lemma recover_log_cb_moves:
  assumes "tm_cb (timer_event s) = Cb_recover_log"
  shows "pred_option (moves ib s) (recover_log_cb ib s)"
proof -
  let ?t = "\<lambda>t. set_timer Cb_update_rc_info (rc_info_period t) (t\<lparr>dare_state := dare_state t OR LOG_RECOVERED\<rparr>)"
  have fin: "moves ib u (?t u)" if k: "skey ib u = skey ib s" for u
  proof (rule movesI)
    show "recovery_of (?t u) = (recovery_of u)\<lparr>cb_of := Cb_update_rc_info, log_done := True\<rparr>"
      by (simp add: recovery_of_def) (simp add: flag_defs)
    have "cb_of (recovery_of u) = cb_of (recovery_of s)" using skey_recovery(1) [OF k] by simp
    then show "recovery_step (recovery_of u) ((recovery_of u)\<lparr>cb_of := Cb_update_rc_info, log_done := True\<rparr>)"
      using assms by (intro log_read) simp
  qed simp
  have up: "moves ib s v" if "rises ib (?t u) v" "skey ib u = skey ib s" for u v
    by (rule moves_from [OF that(2) moves_to [OF fin [OF that(2)] that(1)]]) simp
  show ?thesis
    by (auto simp: recover_log_cb_def Let_def skey_moves intro!: wp elim!: up)
qed

text \<open>Only two callbacks may lower the term: the start of the network, and reading back the vote.\<close>

lemma better_vote_phase: "phase (upd_ctrl f s) = phase s" "phase (inc_ssn s) = phase s"
  by (simp_all add: phase_def upd_ctrl_def inc_ssn_def)

lemma get_replicated_vote_cb_moves:
  assumes "tm_cb (timer_event s) = Cb_get_replicated_vote"
  shows "pred_option (rec_moves s) (get_replicated_vote_cb ib s)"
proof -
  have same: "rec_moves s u" if "phase u = phase s" for u
    using phase_recovery [OF that] by (simp add: rec_moves_def stay)
  have sm: "rec_moves s (set_timer Cb_send_sm_request NOW u)" if "phase u = phase s" for u
  proof -
    have "recovery_of (set_timer Cb_send_sm_request NOW u) = (recovery_of u)\<lparr>cb_of := Cb_send_sm_request\<rparr>"
      by (simp add: recovery_of_def)
    then show ?thesis using phase_recovery [OF that] assms by (simp add: rec_moves_def vote_read)
  qed
  have vote: "pred_option (\<lambda>(rc, u). phase u = phase t) (rc_get_replicated_vote ib t)" for t
    by (auto simp: rc_get_replicated_vote_def better_vote_phase intro!: wp dest!: skey_phase)
  have vote_wp: "pred_option Q (rc_get_replicated_vote ib t)" if "\<And>rc u. phase u = phase t \<Longrightarrow> Q (rc, u)" for t Q
    using vote [of t] that by (cases "rc_get_replicated_vote ib t") auto
  have "phase (again r u) = phase u" for r and u :: "'a srv"
    by (simp add: phase_def again_def ev_timer_again_def)
  then show ?thesis
    by (auto simp: get_replicated_vote_cb_def Let_def better_vote_phase intro!: wp vote_wp same sm)
qed

lemma init_network_cb_moves:
  assumes "tm_cb (timer_event s) = Cb_init_network"
  shows "pred_option (rec_moves s) (init_network_cb dv join s)"
proof -
  have rc: "pred_option (\<lambda>t. phase t = phase s) (rc_prerequisite dv (dare_init_ib_srv_data (s\<lparr>request_id := 1\<rparr>)))"
    by (simp add: rc_prerequisite_def dare_init_ib_srv_data_def upd_config_def phase_def Let_def)
  have rc_wp: "pred_option Q (rc_prerequisite dv (dare_init_ib_srv_data (s\<lparr>request_id := 1\<rparr>)))"
    if "\<And>t. phase t = phase s \<Longrightarrow> Q t" for Q
    using rc that by (cases "rc_prerequisite dv (dare_init_ib_srv_data (s\<lparr>request_id := 1\<rparr>))") auto
  have init: "recovery_of (t\<lparr>dare_state := dare_state t OR INIT, poll_active := True\<rparr>) = recovery_of s"
    if "phase t = phase s" for t
    using phase_recovery [OF that] by (simp add: recovery_of_def has_state_def) (simp add: has_state_def flag_defs bit.conj_disj_distrib2 recovery_of_def)
  have go: "rec_moves s (set_timer cb NOW t)" if "recovery_of t = recovery_of s" "cb \<in> {Cb_join_cluster, Cb_exchange_rc_info}" for t cb
  proof -
    have "recovery_of (set_timer cb NOW t) = (recovery_of t)\<lparr>cb_of := cb\<rparr>" by (simp add: recovery_of_def)
    then show ?thesis using that assms by (simp add: rec_moves_def started)
  qed
  have one: "rec_moves s (again r (upd_ctrl f t))" if "recovery_of t = recovery_of s" for t r f
  proof -
    have "recovery_of (again r (upd_ctrl f t)) = recovery_of t" 
      by (simp add: recovery_of_def has_state_def upd_ctrl_def again_def ev_timer_again_def)
    then show ?thesis using that by (simp add: rec_moves_def stay)
  qed
  show ?thesis
    by (auto simp: init_network_cb_def Let_def intro!: wp rc_wp go one init)
qed

lemma timer_cb_moves:
  "pred_option (moves ib s) (join_cluster_cb ib s)" "pred_option (moves ib s) (exchange_rc_info_cb ib s)"
  "pred_option (moves ib s) (update_rc_info_cb ib s)" "pred_option (moves ib s) (send_sm_request_cb ib s)"
  by (auto simp: join_cluster_cb_def exchange_rc_info_cb_def update_rc_info_cb_def send_sm_request_cb_def
      intro!: wp skey_moves after2 [OF ud_requests_calm(1)] after2 [OF ud_requests_calm(2)] after2 [OF ud_requests_calm(3)])

section \<open>The server as a transition system\<close>

text \<open>
  A step is a callback of one of the four timers, a part of the polling loop, a write of
  another server, a request of the proxy, or the interrupt signal.  The parts of the
  polling loop may follow each other in any order; \<open>polling_steps\<close> below shows that a
  whole round is a sequence of them.
\<close>

inductive srv_step :: "'e ibv \<Rightarrow> device \<Rightarrow> bool \<Rightarrow> 'e srv \<Rightarrow> 'e srv \<Rightarrow> bool" for ib dv join where
  timer: "tm_active (timer_event s) \<Longrightarrow> tm_cb (timer_event s) \<notin> {Cb_hb_receive, Cb_hb_send, Cb_to_adjust, Cb_prune_log} \<Longrightarrow>
    run_timer ib dv join (tm_cb (timer_event s)) s = Some s' \<Longrightarrow> srv_step ib dv join s s'"
| heartbeat: "tm_active (hb_event s) \<Longrightarrow> tm_cb (hb_event s) \<in> {Cb_hb_receive, Cb_hb_send} \<Longrightarrow>
    run_timer ib dv join (tm_cb (hb_event s)) s = Some s' \<Longrightarrow> srv_step ib dv join s s'"
| adjust: "tm_active (to_adjust_event s) \<Longrightarrow> run_timer ib dv join Cb_to_adjust s = Some s' \<Longrightarrow> srv_step ib dv join s s'"
| prune: "tm_active (prune_event s) \<Longrightarrow> run_timer ib dv join Cb_prune_log s = Some s' \<Longrightarrow> srv_step ib dv join s s'"
| ud: "poll_ud ib s = Some s' \<Longrightarrow> srv_step ib dv join s s'"
| sm_reply: "has_state s RC_ESTABLISHED \<Longrightarrow> \<not> has_state s SM_RECOVERED \<Longrightarrow> poll_sm_reply ib s = Some s' \<Longrightarrow>
    srv_step ib dv join s s'"
| recovered: "f \<in> {poll_sm_requests ib, check_failure_count ib, persist_new_entries ib, commit_new_entries ib,
      poll_config_entries ib, apply_committed_entries ib, poll_vote_count ib, poll_vote_requests ib, force_log_pruning ib} \<Longrightarrow>
    has_state s LOG_RECOVERED \<Longrightarrow> f s = Some s' \<Longrightarrow> srv_step ib dv join s s'"
| remote: "c_sid c = c_sid (ctrl s) \<Longrightarrow> srv_step ib dv join s (s\<lparr>ctrl := c, slog := l\<rparr>)"
| submit: "srv_step ib dv join s (s\<lparr>tailhead := tailhead s @ [e]\<rparr>)"
| signal: "srv_step ib dv join s (int_handler s)"

lemma calm_moves:
  assumes "pred_option (\<lambda>s'. skey ib s' = skey ib s) m" "m = Some s'"
  shows "moves ib s s'"
  using assms by (simp add: skey_moves)

lemma rising_moves:
  assumes "pred_option (rises ib s) m" "m = Some s'"
  shows "moves ib s s'"
  using assms by (simp add: rises_moves)

lemma recovered_rises:
  assumes "f \<in> {poll_sm_requests ib, check_failure_count ib, persist_new_entries ib, commit_new_entries ib,
      poll_config_entries ib, apply_committed_entries ib, poll_vote_count ib, poll_vote_requests ib, force_log_pruning ib}"
    and "f s = Some s'"
  shows "rises ib s s'"
proof -
  have calm: "rises ib s s'" if "pred_option (\<lambda>s'. skey ib s' = skey ib s) m" "m = Some s'" for m
    using that by (simp add: skey_rises)
  show ?thesis
    using assms by (auto simp: poll_sm_requests_def
      elim!: calm [OF sm_requests_loop_calm] calm [OF check_failure_count_calm] calm [OF persist_new_entries_calm]
      calm [OF commit_new_entries_calm] calm [OF poll_config_entries_calm] calm [OF force_log_pruning_calm]
      pred_optionD [OF apply_committed_entries_rises] pred_optionD [OF poll_vote_count_rises]
      pred_optionD [OF poll_vote_requests_rises])
qed

text \<open>Every step follows the recovery machine, and all but two callbacks keep the term from falling.\<close>

lemma to_adjust_moves [simp]: "moves ib s (to_adjust_cb s)"
  by (rule skey_moves) simp

lemma timer_moves:
  assumes "run_timer ib dv join cb s = Some s'" "tm_cb (timer_event s) = cb"
  shows "rec_moves s s'" "cb \<notin> {Cb_init_network, Cb_get_replicated_vote} \<Longrightarrow> moves ib s s'"
proof -
  show m: "moves ib s s'" if "cb \<notin> {Cb_init_network, Cb_get_replicated_vote}"
    using assms that timer_cb_moves [of ib s] recover_log_cb_moves [of s ib]
      rising_moves [OF hb_receive_cb_rises, of ib s s'] rising_moves [OF hb_send_cb_rises, of ib s s']
      calm_moves [OF prune_log_cb_calm, of ib s s']
    by (cases cb) (auto simp: run_timer_def intro: skey_moves)
  show "rec_moves s s'"
    using assms m init_network_cb_moves [of s dv join] get_replicated_vote_cb_moves [of s ib]
    by (cases cb) (auto simp: run_timer_def moves_def)
qed

lemma other_timers_move:
  assumes "run_timer ib dv join cb s = Some s'" "cb \<in> {Cb_hb_receive, Cb_hb_send, Cb_to_adjust, Cb_prune_log}"
  shows "moves ib s s'"
  using assms rising_moves [OF hb_receive_cb_rises, of ib s s'] rising_moves [OF hb_send_cb_rises, of ib s s']
      calm_moves [OF prune_log_cb_calm, of ib s s']
  by (auto simp: run_timer_def intro: skey_moves)

lemma step_moves:
  assumes "srv_step ib dv join s s'"
  shows "moves ib s s' \<or> rec_moves s s' \<and> tm_cb (timer_event s) \<in> {Cb_init_network, Cb_get_replicated_vote}"
  using assms
proof cases
  case timer
  then show ?thesis using timer_moves [OF timer(3)] by auto
next
  case ud
  then show ?thesis using poll_ud_moves [of ib s] by simp
next
  case sm_reply
  then show ?thesis using poll_sm_reply_moves [of s ib] by simp
next
  case (recovered f)
  then show ?thesis using rises_moves [OF recovered_rises] by blast
next
  case (remote c l)
  then have "skey ib s' = skey ib s" by (simp add: skey_def phase_def)
  then show ?thesis by (simp add: skey_moves)
qed (auto intro: other_timers_move skey_moves)

lemma step_recovery: "srv_step ib dv join s s' \<Longrightarrow> recovery_step (recovery_of s) (recovery_of s')"
  using step_moves [of ib dv join s s'] by (auto simp: moves_def rec_moves_def)

lemma init_recovery:
  assumes "dare_server_init input file ok raw e = Some s"
  shows "recovery_of s = \<lparr>cb_of = Cb_init_network, joined = False, established = False, sm_done = False, log_done = False\<rparr>"
  using assms
  by (auto simp: dare_server_init_def init_server_data_def dare_read_config_def recovery_of_def has_state_def upd_config_def
      zero_srv_def ev_timer_again_def split: if_splits bind_splits option.splits)

lemma reachable_ok:
  assumes "dare_server_init input file ok raw e = Some s0" "(srv_step ib dv join)\<^sup>*\<^sup>* s0 s"
  shows "recovery_ok (recovery_of s)"
  using assms(2)
proof (induction rule: rtranclp_induct)
  case base
  then show ?case by (simp add: init_recovery [OF assms(1)] recovery_ok_def)
next
  case (step t u)
  then show ?case using recovery_ok_step step_recovery by blast
qed

text \<open>One round of the polling loop.\<close>

lemma recovered_step1:
  assumes "f \<in> {poll_sm_requests ib, check_failure_count ib, persist_new_entries ib, commit_new_entries ib,
      poll_config_entries ib, apply_committed_entries ib, poll_vote_count ib, poll_vote_requests ib, force_log_pruning ib}"
    and "(srv_step ib dv join)\<^sup>*\<^sup>* s t \<and> has_state t LOG_RECOVERED"
  shows "pred_option (\<lambda>u. (srv_step ib dv join)\<^sup>*\<^sup>* s u \<and> has_state u LOG_RECOVERED) (f t)"
proof (rule pred_optionI)
  fix u assume u: "f t = Some u"
  have "srv_step ib dv join t u" by (rule recovered [OF assms(1) conjunct2 [OF assms(2)] u])
  moreover have "recovery_of u = recovery_of t" using recovered_rises [OF assms(1) u] by (auto simp: rises_def intro: phase_recovery)
  ultimately show "(srv_step ib dv join)\<^sup>*\<^sup>* s u \<and> has_state u LOG_RECOVERED"
    using assms(2) by (auto intro: rtranclp.rtrancl_into_rtrancl simp flip: recovery_sel(5))
qed

lemma wp_bindI: "pred_option P m \<Longrightarrow> (\<And>x. P x \<Longrightarrow> pred_option Q (f x)) \<Longrightarrow> pred_option Q (m \<bind> f)"
  by (cases m) auto

lemma poll_recovered_steps:
  assumes "(srv_step ib dv join)\<^sup>*\<^sup>* s t" "has_state t LOG_RECOVERED"
  shows "pred_option (\<lambda>u. (srv_step ib dv join)\<^sup>*\<^sup>* s u \<and> has_state u LOG_RECOVERED) (poll_recovered ib t)"
    (is "pred_option ?P _")
proof -
  have f: "pred_option ?P (f u)" if "?P u" "f \<in> {poll_sm_requests ib, check_failure_count ib, persist_new_entries ib,
      commit_new_entries ib, poll_config_entries ib, apply_committed_entries ib, poll_vote_count ib,
      poll_vote_requests ib, force_log_pruning ib}" for f u
    by (rule recovered_step1 [OF that(2,1)])
  show ?thesis
    unfolding poll_recovered_def
    by (intro wp_bindI [where P = ?P] wp_if) ((simp add: assms; fail) | (rule f, simp add: assms, simp))+
qed

lemma polling_steps:
  assumes "polling ib s = Some s'"
  shows "(srv_step ib dv join)\<^sup>*\<^sup>* s s'"
proof -
  let ?R = "(srv_step ib dv join)\<^sup>*\<^sup>*"
  have ud: "pred_option (?R s) (poll_ud ib s)"
    by (rule pred_optionI) (rule r_into_rtranclp, erule srv_step.ud)
  have sm: "pred_option (?R s) (poll_sm_reply ib t)" if "?R s t" "has_state t RC_ESTABLISHED" "\<not> has_state t SM_RECOVERED" for t
    by (rule pred_optionI) (rule rtranclp.rtrancl_into_rtrancl [OF that(1)], erule sm_reply [OF that(2,3)])
  have rec: "pred_option (?R s) (poll_recovered ib t)" if "?R s t" "has_state t LOG_RECOVERED" for t
    using poll_recovered_steps [OF that] by (cases "poll_recovered ib t") auto
  have "pred_option (?R s) (polling ib s)"
    unfolding polling_def by (intro wp_if wp_bindI [where P = "?R s"] ud sm rec) simp_all
  then show ?thesis using assms by simp
qed


text \<open>C2: the term of a server never falls.  From the moment its log is recovered, through any
  sequence of timer callbacks, parts of the polling loop, remote writes, requests and signals, the term only grows and the
  server stays recovered; the only exception is the wrap-around of the 55-bit term to 0.\<close>

theorem term_never_falls:
  assumes init: "dare_server_init input file ok raw e = Some s0" and reach: "(srv_step ib dv join)\<^sup>*\<^sup>* s0 s"
    and log: "has_state s LOG_RECOVERED" and priv: "sid_private ib"
    and run: "(\<lambda>a b. srv_step ib dv join a b \<and> term_of b \<noteq> 0)\<^sup>*\<^sup>* s s'"
  shows "term_of s \<le> term_of s' \<and> has_state s' LOG_RECOVERED"
proof -
  have "term_of s \<le> term_of s' \<and> has_state s' LOG_RECOVERED \<and> recovery_ok (recovery_of s')"
    using run
  proof (induction rule: rtranclp_induct)
    case base
    then show ?case using log reachable_ok [OF init reach] by simp
  next
    case (step t u)
    then have ok: "recovery_ok (recovery_of t)" "has_state t LOG_RECOVERED" by simp_all
    note r = step_recovery [OF conjunct1 [OF step.hyps(2)]]
    have "tm_cb (timer_event t) \<notin> {Cb_init_network, Cb_get_replicated_vote}"
      using ok by (auto simp: recovery_ok_def)
    then have "moves ib t u" using step_moves step.hyps(2) by blast
    then have "term_of t \<le> term_of u" using priv step.hyps(2) by (auto simp: moves_def)
    then show ?case
      using step.IH recovery_ok_step [OF r ok(1)] recovered_step [OF r ok(1)] ok(2) by auto
  qed
  then show ?thesis by blast
qed

text \<open>C37: an answer to an old join request, which \<^verbatim>\<open>handle_server_join_reply\<close> ignores, still makes the poll of
  messages restart the exchange of connection data.  When it arrives while the log is to be read,
  the timer that reads the log is gone and the server never finishes its recovery, whatever happens
  afterwards.\<close>

theorem stale_reply_stops_recovery:
  assumes msg: "ud_poll_rcq ib (env s) = (1, w, Msg_cfg r, e)" "uw_stat w = IBV_WC_SUCCESS" "uw_recv w" "uw_slid w \<noteq> dev_lid ib"
      "uh_type (rp_hdr r) = CFG_REPLY" "uh_id (rp_hdr r) < request_id s"
    and s: "tailhead s = []" "has_state s RC_ESTABLISHED" "has_state s SM_RECOVERED" "\<not> has_state s LOG_RECOVERED"
      "tm_cb (timer_event s) = Cb_recover_log"
  shows "\<exists>s1. poll_ud ib s = Some s1 \<and> (\<forall>s'. (srv_step ib dv join)\<^sup>*\<^sup>* s1 s' \<longrightarrow> \<not> has_state s' LOG_RECOVERED)"
proof -
  let ?t = "s\<lparr>env := ud_post_one_receive ib (uw_wr_id w) e\<rparr>"
  let ?s1 = "set_timer Cb_exchange_rc_info NOW (?t\<lparr>dare_state := dare_state s OR JOINED\<rparr>)"
  have "handle_message_from_client ib w (Msg_cfg r) (s\<lparr>env := e\<rparr>) = Some (CFG_REPLY, s\<lparr>env := e\<rparr>)"
    using msg by (simp add: handle_message_from_client_def Let_def ud_types handle_server_join_reply_def)
  then have "ud_get_message ib s = Some (CFG_REPLY, ?t)"
    using msg by (subst ud_get_message.simps) simp
  then have 1: "poll_ud ib s = Some ?s1"
    using s(1) by (simp add: poll_ud_def get_tailq_message_def ud_types)
  have r1: "recovery_of ?s1 = (recovery_of s)\<lparr>cb_of := Cb_exchange_rc_info, joined := True\<rparr>"
    by (simp add: recovery_of_def) (simp add: flag_defs has_state_def)
  define stuck where "stuck q \<longleftrightarrow> cb_of q = Cb_exchange_rc_info \<and> established q \<and> sm_done q \<and> \<not> log_done q" for q :: recovery
  have step: "stuck q'" if "recovery_step q q'" "stuck q" for q q'
    using that by (auto simp: stuck_def elim!: recovery_stepE)
  have "stuck (recovery_of s')" if "(srv_step ib dv join)\<^sup>*\<^sup>* ?s1 s'" for s'
    using that
  proof (induction rule: rtranclp_induct)
    case base
    show ?case using s by (simp add: r1 stuck_def)
  qed (blast intro: step step_recovery)
  then show ?thesis using 1 by (auto simp: stuck_def)
qed

section \<open>A concrete run\<close>

text \<open>A server that is connected, elects itself and times out again.\<close>

definition run_ib :: "ud_msg \<Rightarrow> wc list list ibv" where
  "run_ib m = demo_ib\<lparr>ud_poll_rcq := (\<lambda>e. (1, \<lparr>uw_stat = IBV_WC_SUCCESS, uw_recv = True, uw_slid = 2, uw_src_qp = 0, uw_wr_id = 0\<rparr>, m, e))\<rparr>"

definition ack_msg :: ud_msg where
  "ack_msg = Msg_ack \<lparr>ak_hdr = \<lparr>uh_id = 1, uh_type = RC_ACK, uh_gid = [], uh_slid = 2\<rparr>, ak_idx = 0\<rparr>"

definition run_settings :: dare_settings where
  "run_settings = \<lparr>ds_hb_period = Some (1 / 1000), ds_rc_info_period = Some 1, ds_retransmit_period = Some 1,
     ds_log_pruning_period = Some 1, ds_elec_timeout_low = Some 10, ds_elec_timeout_high = Some 20\<rparr>"

definition run_input :: server_input where
  "run_input = \<lparr>in_srv_type = SRV_TYPE_START, in_server_idx = 0, in_group_size = 1\<rparr>"

definition run_device :: device where
  "run_device = \<lparr>dv_device_ok = True, dv_ep_ok = True, dv_rc_ok = True, dv_ud_ok = True, dv_max_qp_wr = 100, dv_max_inline = 64\<rparr>"

definition run_start :: "wc list list srv option" where
  "run_start = dare_server_init run_input (Some (Some run_settings)) True demo_snapshot []"

lemma run_private [simp]: "sid_private (run_ib m)"
  using demo_sid_private by (simp add: sid_private_def run_ib_def)

lemma run_states:
  obtains s0 s1 s2 where "dare_server_init run_input (Some (Some run_settings)) True demo_snapshot [] = Some s0"
    "srv_step (run_ib ack_msg) run_device False s0 s1" "srv_step (run_ib ack_msg) run_device False s1 s2"
    "has_state s1 LOG_RECOVERED" "term_of s1 = 1" "term_of s2 = 2"
proof -
  have "do {
      s0 \<leftarrow> run_start; s1 \<leftarrow> poll_ud (run_ib ack_msg) s0; s2 \<leftarrow> hb_receive_cb (run_ib ack_msg) s1;
      Some (has_state s1 LOG_RECOVERED, term_of s1, tm_active (hb_event s1), tm_cb (hb_event s1) = Cb_hb_receive, term_of s2)
    } = Some (True, 1, True, True, 2)"
    by code_simp
  then obtain s0 s1 s2 where s: "run_start = Some s0" "poll_ud (run_ib ack_msg) s0 = Some s1"
      "hb_receive_cb (run_ib ack_msg) s1 = Some s2" "has_state s1 LOG_RECOVERED" "term_of s1 = 1" "tm_active (hb_event s1)"
      "tm_cb (hb_event s1) = Cb_hb_receive" "term_of s2 = 2"
    by (auto split: bind_splits)
  have "srv_step (run_ib ack_msg) run_device False s1 s2"
    by (rule heartbeat) (use s in \<open>simp_all add: run_timer_def\<close>)
  from that [OF s(1) [unfolded run_start_def] ud [OF s(2)] this s(4,5,8)] show thesis .
qed


lemma term_never_falls_witness:
  "\<exists>s s'. has_state s LOG_RECOVERED \<and> term_of s = 1 \<and> term_of s' = 2 \<and>
     srv_step (run_ib ack_msg) run_device False s s' \<and> term_of s \<le> term_of s' \<and> has_state s' LOG_RECOVERED"
proof -
  obtain s0 s1 s2 where s: "dare_server_init run_input (Some (Some run_settings)) True demo_snapshot [] = Some s0"
    "srv_step (run_ib ack_msg) run_device False s0 s1" "srv_step (run_ib ack_msg) run_device False s1 s2"
    "has_state s1 LOG_RECOVERED" "term_of s1 = 1" "term_of s2 = 2"
    by (rule run_states)
  let ?R = "\<lambda>a b. srv_step (run_ib ack_msg) run_device False a b \<and> term_of b \<noteq> 0"
  have "?R\<^sup>*\<^sup>* s1 s2" by (rule r_into_rtranclp) (use s in simp)
  moreover have "(srv_step (run_ib ack_msg) run_device False)\<^sup>*\<^sup>* s0 s1" by (rule r_into_rtranclp) (rule s(2))
  ultimately have "term_of s1 \<le> term_of s2 \<and> has_state s2 LOG_RECOVERED"
    by (intro term_never_falls [OF s(1) _ s(4) run_private])
  then show ?thesis using s by blast
qed

definition stale_msg :: reconf_rep where
  "stale_msg = \<lparr>rp_hdr = \<lparr>uh_id = 0, uh_type = CFG_REPLY, uh_gid = [], uh_slid = 2\<rparr>, rp_idx = 0, rp_cid = demo_cid,
     rp_cid_idx = 0, rp_head = 0\<rparr>"

definition recovering :: "wc list list srv" where
  "recovering = (demo_srv (the (log_new True)) [])\<lparr>dare_state := 0x1C, timer_event := \<lparr>tm_cb = Cb_recover_log, tm_repeat = NOW, tm_active = True\<rparr>\<rparr>"

lemma stale_reply_stops_recovery_witness:
  "\<exists>s1. poll_ud (run_ib (Msg_cfg stale_msg)) recovering = Some s1 \<and>
     (\<forall>s'. (srv_step (run_ib (Msg_cfg stale_msg)) run_device True)\<^sup>*\<^sup>* s1 s' \<longrightarrow> \<not> has_state s' LOG_RECOVERED)"
  by (rule stale_reply_stops_recovery [where r = stale_msg and e = "[]" and
        w = "\<lparr>uw_stat = IBV_WC_SUCCESS, uw_recv = True, uw_slid = 2, uw_src_qp = 0, uw_wr_id = 0\<rparr>"])
    (simp_all add: run_ib_def demo_ib_def idle_ib_def stale_msg_def recovering_def demo_srv_def has_state_def flag_defs)

end
