(* ===== verification/Dare_Reconf_Props.thy ===== *)
theory Dare_Reconf_Props
  imports Dare_Normal_Props
begin

text \<open>
  Properties of reconfiguration: the configuration a leader moves to when it applies a
  CONFIG entry, and the three steps that add a server to a full group.
\<close>

section \<open>Removing servers\<close>

lemma CID_SERVER_RM_off:
  assumes "\<not> CID_IS_SERVER_ON c i"
  shows "CID_SERVER_RM c i = c"
proof -
  have "bitmask c AND NOT (push_bit (unat i) 1) = bitmask c"
    using assms by (intro bit_eqI) (auto simp: CID_IS_SERVER_ON_bit bit_simps)
  then show ?thesis by (simp add: CID_SERVER_RM_def)
qed

lemma disconnect_keeps:
  "cid (config (snd (rc_disconnect_server ib i s))) = cid (config s)"
  "my_idx (config (snd (rc_disconnect_server ib i s))) = my_idx (config s)"
  "dare_state (snd (rc_disconnect_server ib i s)) = dare_state s"
  using kf.rc_disconnect_server_R [of ib s i] by (simp_all add: keeps_def)

lemma remove_server_cid [simp]:
  "cid (config (remove_server ib i s)) = CID_SERVER_RM (cid (config s)) (of_nat i)"
  "my_idx (config (remove_server ib i s)) = my_idx (config s)"
  "dare_state (remove_server ib i s) = (if i = me s then dare_state s OR DIE_AF_COMMIT else dare_state s)"
  by (simp_all add: remove_server_def Let_def disconnect_keeps CID_SERVER_RM_off upd_config_def)

lemma remove_servers_cid:
  "cid (config (fold (remove_server ib) is s)) = fold (\<lambda>i c. CID_SERVER_RM c (of_nat i)) is (cid (config s))"
  "dare_state (fold (remove_server ib) is s) = (if me s \<in> set is then dare_state s OR DIE_AF_COMMIT else dare_state s)"
  by (induction "is" arbitrary: s) (auto simp: or.assoc)

lemma fold_RM_frame [simp]:
  "size0 (fold (\<lambda>i c. CID_SERVER_RM c (of_nat i)) is c) = size0 c"
  "size1 (fold (\<lambda>i c. CID_SERVER_RM c (of_nat i)) is c) = size1 c"
  "epoch (fold (\<lambda>i c. CID_SERVER_RM c (of_nat i)) is c) = epoch c"
  "cstate (fold (\<lambda>i c. CID_SERVER_RM c (of_nat i)) is c) = cstate c"
  by (induction "is" arbitrary: c) simp_all

lemma u8_of_nat_eq: "i < 256 \<Longrightarrow> j < 256 \<Longrightarrow> (of_nat j :: u8) = of_nat i \<longleftrightarrow> j = i"
  using unat_of_nat_small [of i, where 'a = 8] unat_of_nat_small [of j, where 'a = 8]
  by (auto dest: arg_cong [where f = unat])

lemma fold_RM_on:
  "(\<forall>i\<in>set is. i < 256) \<Longrightarrow> j < 256 \<Longrightarrow>
     CID_IS_SERVER_ON (fold (\<lambda>i c. CID_SERVER_RM c (of_nat i)) is c) (of_nat j) \<longleftrightarrow>
     CID_IS_SERVER_ON c (of_nat j) \<and> j \<notin> set is"
  by (induction "is" arbitrary: c) (auto simp: CID_SERVER_RM_on u8_of_nat_eq)

lemma CID_SERVER_RM_cstate: "CID_SERVER_RM (c\<lparr>cstate := x\<rparr>) i = (CID_SERVER_RM c i)\<lparr>cstate := x\<rparr>"
  by (simp add: CID_SERVER_RM_def)

text \<open>The configuration after a transitional one: the new size, and the servers beyond it are off.\<close>

lemma stabilise_cid:
  assumes "\<forall>i\<in>set ks. i < 256"
  shows "cid (config (stabilise ib ks s)) = (let c = cid (config s) in
      \<lparr>epoch = epoch c, size0 = size1 c, size1 = 0, cstate = CID_STABLE,
       bitmask = bitmask (fold (\<lambda>i c. CID_SERVER_RM c (of_nat i)) ks c)\<rparr>)"
    "j < 256 \<Longrightarrow> CID_IS_SERVER_ON (cid (config (stabilise ib ks s))) (of_nat j) \<longleftrightarrow>
       CID_IS_SERVER_ON (cid (config s)) (of_nat j) \<and> j \<notin> set ks"
    "dare_state (stabilise ib ks s) = (if me s \<in> set ks then dare_state s OR DIE_AF_COMMIT else dare_state s)"
proof -
  have bm: "bitmask (fold (\<lambda>i c. CID_SERVER_RM c (of_nat i)) ks (c\<lparr>cstate := x\<rparr>)) =
      bitmask (fold (\<lambda>i c. CID_SERVER_RM c (of_nat i)) ks c)" for c x
    by (induction ks arbitrary: c) (simp_all add: CID_SERVER_RM_cstate)
  show 1: "cid (config (stabilise ib ks s)) = (let c = cid (config s) in
      \<lparr>epoch = epoch c, size0 = size1 c, size1 = 0, cstate = CID_STABLE,
       bitmask = bitmask (fold (\<lambda>i c. CID_SERVER_RM c (of_nat i)) ks c)\<rparr>)"
    by (simp add: stabilise_def set_cid_state_def remove_servers_cid bm Let_def)
  show "j < 256 \<Longrightarrow> CID_IS_SERVER_ON (cid (config (stabilise ib ks s))) (of_nat j) \<longleftrightarrow>
       CID_IS_SERVER_ON (cid (config s)) (of_nat j) \<and> j \<notin> set ks"
    using fold_RM_on [OF assms, of j "cid (config s)"] by (simp add: 1 Let_def CID_IS_SERVER_ON_def)
  show "dare_state (stabilise ib ks s) = (if me s \<in> set ks then dare_state s OR DIE_AF_COMMIT else dare_state s)"
    by (simp add: stabilise_def set_cid_state_def remove_servers_cid upd_config_def)
qed

section \<open>Applying CONFIG entries\<close>

lemma append_entry_config: "append_entry req clt typ data s = Some (i, s') \<Longrightarrow>
    config s' = config s \<and> dare_state s' = dare_state s \<and> ctrl s' = ctrl s"
  by (auto simp: append_entry_def split: bind_splits)

lemma send_clt_reply_config:
  "ud_send_clt_reply ib lid req typ s = Some (rc, s') \<Longrightarrow>
     config s' = config s \<and> dare_state s' = dare_state s \<and> slog s' = slog s \<and> ctrl s' = ctrl s"
  by (auto simp: ud_send_clt_reply_def ud_send_message_def send_message_def Let_def
      split: bind_splits if_splits prod.splits)

lemma set_cfg_req_cid [simp]:
  "cid (config (set_cfg_req r l s)) = cid (config s)" "dare_state (set_cfg_req r l s) = dare_state s"
  by (simp_all add: set_cfg_req_def upd_config_def)

lemma apply_unstable_cid:
  assumes "apply_unstable ib p s = Some (req, clt, s')"
  shows "cid (config s') = (let c = cid (config s); st = cstate (entry_cid (log_entries (slog s)) p) in
      if st = CID_EXTENDED then c\<lparr>cstate := CID_TRANSIT\<rparr>
      else if st = CID_TRANSIT then cid (config (stabilise ib [unat (size1 c)..<unat (size0 c)] s))
      else c)"
  using assms
  by (auto simp: apply_unstable_def Let_def set_cid_state_def dest!: send_clt_reply_config split: if_splits)

text \<open>An unstable CONFIG entry of the current epoch moves the configuration on.\<close>

lemma apply_config_cid:
  assumes "apply_config ib p s = Some s'" and "cstate (entry_cid (log_entries (slog s)) p) \<noteq> CID_STABLE"
    and "\<not> epoch (entry_cid (log_entries (slog s)) p) < epoch (cid (config s))"
  obtains req clt s1 where "apply_unstable ib p s = Some (req, clt, s1)" "cid (config s') = cid (config s1)"
    "dare_state s' = dare_state s1"
proof -
  obtain req clt s1 where 1: "apply_unstable ib p s = Some (req, clt, s1)"
    using assms by (auto simp: apply_config_def Let_def split: bind_splits if_splits)
  then obtain idx where "append_entry req clt CONFIG (cid_bytes (cid (config s1))) (set_cfg_req req clt s1) = Some (idx, s')"
    using assms by (auto simp: apply_config_def Let_def split: bind_splits if_splits)
  then show ?thesis using that [OF 1] append_entry_config by fastforce
qed

text \<open>C31: applying a CONFIG entry in transition shrinks the group.  When the leader applies a
  transitional entry of the current epoch, the configuration becomes stable with the new size,
  exactly the servers from the new size up to the old one are switched off, every other server
  stays as it was, and the leader marks itself to stop after the commit iff it is one
  of those removed.\<close>

theorem apply_config_transit:
  assumes a: "apply_config ib p s = Some s'" and st: "cstate (entry_cid (log_entries (slog s)) p) = CID_TRANSIT"
    and ep: "\<not> epoch (entry_cid (log_entries (slog s)) p) < epoch (cid (config s))"
  shows "size0 (cid (config s')) = size1 (cid (config s)) \<and> size1 (cid (config s')) = 0 \<and>
    cstate (cid (config s')) = CID_STABLE \<and> epoch (cid (config s')) = epoch (cid (config s)) \<and>
    (\<forall>j<32. CID_IS_SERVER_ON (cid (config s')) (of_nat j) =
       (CID_IS_SERVER_ON (cid (config s)) (of_nat j) \<and>
        \<not> (unat (size1 (cid (config s))) \<le> j \<and> j < unat (size0 (cid (config s)))))) \<and>
    dare_state s' = (if unat (size1 (cid (config s))) \<le> me s \<and> me s < unat (size0 (cid (config s)))
      then dare_state s OR DIE_AF_COMMIT else dare_state s)"
proof -
  let ?c = "cid (config s)" and ?is = "[unat (size1 (cid (config s)))..<unat (size0 (cid (config s)))]"
  have "unat (size0 ?c) < 256" using unsigned_less [of "size0 ?c", where 'a = nat] by simp
  then have r: "\<forall>i\<in>set ?is. i < 256" by auto
  have st': "cstate (entry_cid (log_entries (slog s)) p) \<noteq> CID_STABLE" using st by (simp add: cid_states)
  obtain req clt s1 where u: "apply_unstable ib p s = Some (req, clt, s1)" and
    k: "cid (config s') = cid (config s1)" "dare_state s' = dare_state s1"
    by (rule apply_config_cid [OF a st' ep])
  have "s1 = stabilise ib ?is s" using u st by (simp add: apply_unstable_def cid_states Let_def)
  then show ?thesis using stabilise_cid [OF r, where ib = ib and s = s] k by (auto simp: Let_def)
qed

text \<open>Server 0 leads a group that shrinks from three servers to two.\<close>

definition transit_cid :: dare_cid where
  "transit_cid = \<lparr>epoch = 0, size0 = 3, size1 = 2, cstate = 1, bitmask = 7\<rparr>"

definition transit_srv :: "unit srv" where
  "transit_srv = (demo_srv ((demo_log 0 64)\<lparr>log_entries := store (\<lambda>x. if x = 26 then 2 else 0) 48 (cid_bytes transit_cid)\<rparr>) ())
     \<lparr>config := demo_config\<lparr>cid := transit_cid\<rparr>, ctrl := demo_ctrl\<lparr>c_sid := 0x300\<rparr>\<rparr>"

lemma transit_run: "map_option (\<lambda>s'. cstate (cid (config s'))) (apply_config idle_ib 0 transit_srv) = Some 0"
  by code_simp

lemma apply_config_transit_witness:
  "\<exists>s'. apply_config idle_ib 0 transit_srv = Some s' \<and> size0 (cid (config s')) = 2 \<and>
     \<not> CID_IS_SERVER_ON (cid (config s')) (of_nat 2) \<and> CID_IS_SERVER_ON (cid (config s')) (of_nat 1) \<and>
     dare_state s' = 0"
proof -
  let ?s = transit_srv
  obtain s' where s': "apply_config idle_ib 0 ?s = Some s'" using transit_run by auto
  have c: "cid (config ?s) = transit_cid" "me ?s = 0" "dare_state ?s = 0"
    by (simp_all add: transit_srv_def demo_srv_def demo_config_def)
  have e: "entry_cid (log_entries (slog ?s)) 0 = transit_cid" by code_simp
  have on1: "CID_IS_SERVER_ON transit_cid (of_nat 1)" by code_simp
  have th: "size0 (cid (config s')) = 2 \<and> dare_state s' = 0 \<and> (\<forall>j<32. CID_IS_SERVER_ON (cid (config s')) (of_nat j) =
      (CID_IS_SERVER_ON transit_cid (of_nat j) \<and> \<not> (2 \<le> j \<and> j < 3)))"
    using apply_config_transit [OF s'] c e by (simp add: transit_cid_def cid_states)
  then have "\<not> CID_IS_SERVER_ON (cid (config s')) (of_nat 2)" 
    by (elim conjE allE [of _ 2]) simp
  moreover have "CID_IS_SERVER_ON (cid (config s')) (of_nat 1)" using th on1
    by (elim conjE allE [of _ 1]) simp
  ultimately show ?thesis using th s' by blast
qed

section \<open>Adding a server\<close>

lemma wc_to_ud_ep_cid:
  "cid (config (wc_to_ud_ep ib i w g l s)) = cid (config s)" "epoch (cid (config (wc_to_ud_ep ib i w g l s))) = epoch (cid (config s))"
  by (simp_all add: wc_to_ud_ep_def Let_def split: prod.splits)

lemma add_server_cid:
  assumes "add_server ib w r k s = Some (rc, s')"
  shows "k < MAX_SERVER_COUNT" "cid (config s') = joined_cid (cid (config s)) k"
proof -
  let ?s1 = "upd_config (\<lambda>g. g\<lparr>cid := joined_cid (cid (config s)) k, cfg_req_id := uh_id r, cfg_clt_id := uw_slid w\<rparr>) s"
  show "k < MAX_SERVER_COUNT" using assms by (auto simp: add_server_def Let_def split: if_splits)
  then obtain idx s2 where "append_entry (uh_id r) (uh_slid r) CONFIG (cid_bytes (joined_cid (cid (config s)) k))
      (init_new_server ib w r k ?s1) = Some (idx, s2)" "cid (config s') = cid (config s2)"
    using assms by (auto simp: add_server_def Let_def split: bind_splits)
  then show "cid (config s') = joined_cid (cid (config s)) k"
    using append_entry_config by (fastforce simp: init_new_server_def wc_to_ud_ep_cid Let_def)
qed

text \<open>C30: a full group grows by one server in the three steps the comment in
  \<^verbatim>\<open>handle_server_join_request\<close> lists.  Adding a server behind the last one extends a stable configuration; applying
  the extended CONFIG entry makes it transitional; applying the transitional one
  makes it stable again, with one more server, which is on, and with the epoch
  increased by one.\<close>

theorem group_upsize:
  assumes st: "cstate (cid (config s)) = CID_STABLE"
    and join: "add_server ib w r (unat (size0 (cid (config s)))) s = Some (rc, s1)"
    and e2: "cid (config s2) = cid (config s1)" "entry_cid (log_entries (slog s2)) p = cid (config s1)"
    and a3: "apply_config ib p s2 = Some s3"
    and e4: "cid (config s4) = cid (config s3)" "entry_cid (log_entries (slog s4)) q = cid (config s3)"
    and a5: "apply_config ib q s4 = Some s5"
  shows "cid (config s1) = (CID_SERVER_ADD (cid (config s)) (size0 (cid (config s))))
      \<lparr>cstate := CID_EXTENDED, size1 := size0 (cid (config s)) + 1, epoch := epoch (cid (config s)) + 1\<rparr> \<and>
    cid (config s3) = (cid (config s1))\<lparr>cstate := CID_TRANSIT\<rparr> \<and>
    cid (config s5) = (CID_SERVER_ADD (cid (config s)) (size0 (cid (config s))))
      \<lparr>cstate := CID_STABLE, size0 := size0 (cid (config s)) + 1, size1 := 0, epoch := epoch (cid (config s)) + 1\<rparr>"
proof -
  let ?c = "cid (config s)"
  note ad = add_server_cid [OF join]
  have 1: "cid (config s1) = (CID_SERVER_ADD ?c (size0 ?c))\<lparr>cstate := CID_EXTENDED, size1 := size0 ?c + 1, epoch := epoch ?c + 1\<rparr>"
    using ad(2) by (simp add: joined_cid_def)
  have x2: "cstate (entry_cid (log_entries (slog s2)) p) = CID_EXTENDED"
    "\<not> epoch (entry_cid (log_entries (slog s2)) p) < epoch (cid (config s2))" using e2 1 by simp_all
  have 3: "cid (config s3) = (cid (config s1))\<lparr>cstate := CID_TRANSIT\<rparr>"
  proof -
    have "cstate (entry_cid (log_entries (slog s2)) p) \<noteq> CID_STABLE" using x2(1) by (simp add: cid_states)
    from apply_config_cid [OF a3 this x2(2)] obtain rq cl t where
      t: "apply_unstable ib p s2 = Some (rq, cl, t)" "cid (config s3) = cid (config t)" by metis
    show ?thesis using apply_unstable_cid [OF t(1)] t(2) x2(1) e2(1) by (simp add: cid_states Let_def)
  qed
  have x4: "cstate (entry_cid (log_entries (slog s4)) q) = CID_TRANSIT"
    "\<not> epoch (entry_cid (log_entries (slog s4)) q) < epoch (cid (config s4))" using e4 3 by simp_all
  have 5: "cid (config s5) = cid (config (stabilise ib [] s4))"
  proof -
    have "cstate (entry_cid (log_entries (slog s4)) q) \<noteq> CID_STABLE" using x4(1) by (simp add: cid_states)
    from apply_config_cid [OF a5 this x4(2)] obtain rq cl t where
      t: "apply_unstable ib q s4 = Some (rq, cl, t)" "cid (config s5) = cid (config t)" by metis
    have "unat (size0 ?c + 1) = unat (size0 ?c) + 1"
      using ad(1) by (simp add: MAX_SERVER_COUNT_def unat_word_ariths)
    then have none: "[unat (size1 (cid (config s4)))..<unat (size0 (cid (config s4)))] = []" using e4 3 1 by simp
    have "cid (config t) = cid (config (stabilise ib [unat (size1 (cid (config s4)))..<unat (size0 (cid (config s4)))] s4))"
      using apply_unstable_cid [OF t(1)] x4(1) by (simp add: cid_states Let_def)
    then show ?thesis using t(2) by (simp only: none)
  qed
  show ?thesis using 1 3 5 stabilise_cid(1) [where ks = "[]" and ib = ib and s = s4] e4(1) by (simp add: Let_def)
qed

text \<open>A group of three servers led by server 0, and a fourth that joins.\<close>

definition join_srv :: "unit srv" where
  "join_srv = (demo_srv (demo_log 0 128) ())
     \<lparr>ctrl := demo_ctrl\<lparr>c_sid := 0x300\<rparr>, endpoints := Node Leaf Black (new_ep demo_ep True 5 []) Leaf\<rparr>"

definition join_wc :: ud_wc where
  "join_wc = \<lparr>uw_stat = IBV_WC_SUCCESS, uw_recv = True, uw_slid = 5, uw_src_qp = 1, uw_wr_id = 0\<rparr>"

definition join_req :: ud_hdr where
  "join_req = \<lparr>uh_id = 1, uh_type = JOIN, uh_gid = [], uh_slid = 5\<rparr>"

definition upsize_run :: "(int \<times> dare_cid list) option" where
  "upsize_run = do {
     (rc, s1) \<leftarrow> add_server idle_ib join_wc join_req 3 join_srv;
     s3 \<leftarrow> apply_config idle_ib 128 s1;
     s5 \<leftarrow> apply_config idle_ib 192 s3;
     Some (rc, [cid (config s1), entry_cid (log_entries (slog s1)) 128, cid (config s3), entry_cid (log_entries (slog s3)) 192])
   }"

definition ext_cid :: dare_cid where
  "ext_cid = \<lparr>epoch = 1, size0 = 3, size1 = 4, cstate = 2, bitmask = 15\<rparr>"

lemma upsize_run:
  "upsize_run = Some (0, [ext_cid, ext_cid, ext_cid\<lparr>cstate := 1\<rparr>, ext_cid\<lparr>cstate := 1\<rparr>])"
  by code_simp

lemma group_upsize_witness:
  "\<exists>s1 s3 s5. add_server idle_ib join_wc join_req 3 join_srv = Some (0, s1) \<and>
     apply_config idle_ib 128 s1 = Some s3 \<and> apply_config idle_ib 192 s3 = Some s5 \<and>
     cid (config s5) = \<lparr>epoch = 1, size0 = 4, size1 = 0, cstate = CID_STABLE, bitmask = 15\<rparr>"
proof -
  obtain s1 s3 s5 where
    s: "add_server idle_ib join_wc join_req 3 join_srv = Some (0, s1)" "apply_config idle_ib 128 s1 = Some s3"
      "apply_config idle_ib 192 s3 = Some s5" and
    e: "cid (config s1) = ext_cid" "entry_cid (log_entries (slog s1)) 128 = ext_cid"
      "cid (config s3) = ext_cid\<lparr>cstate := 1\<rparr>" "entry_cid (log_entries (slog s3)) 192 = ext_cid\<lparr>cstate := 1\<rparr>"
    using upsize_run by (auto simp: upsize_run_def split: bind_splits)
  have c: "cid (config join_srv) = demo_cid" by (simp add: join_srv_def demo_srv_def demo_config_def)
  have n: "unat (size0 (cid (config join_srv))) = 3" "cstate (cid (config join_srv)) = CID_STABLE"
    by (simp_all add: c demo_cid_def cid_states)
  have "(CID_SERVER_ADD demo_cid 3)\<lparr>cstate := CID_STABLE, size0 := 4, size1 := 0, epoch := 1\<rparr> =
      \<lparr>epoch = 1, size0 = 4, size1 = 0, cstate = CID_STABLE, bitmask = 15\<rparr>" by code_simp
  then have "cid (config s5) = \<lparr>epoch = 1, size0 = 4, size1 = 0, cstate = CID_STABLE, bitmask = 15\<rparr>"
    using group_upsize [OF n(2) s(1) [folded n(1)] refl _ s(2) refl _ s(3)] e by (simp add: c demo_cid_def)
  then show ?thesis using s by blast
qed

end
