(* ===== verification/Dare_Server_Props.thy ===== *)
theory Dare_Server_Props
  imports Dare_Run_Props Dare_Reconf_Props
begin

text \<open>
  The start of a server: the state \<^verbatim>\<open>dare_server_init\<close> builds is well-formed, and what
  becomes of a group that starts with one server.
\<close>

section \<open>The initial state\<close>

lemma fold_ADD_on:
  "(\<forall>i\<in>set ks. i < 32) \<Longrightarrow> j < 256 \<Longrightarrow>
     CID_IS_SERVER_ON (fold (\<lambda>i c. CID_SERVER_ADD c (of_nat i)) ks c) (of_nat j) \<longleftrightarrow> CID_IS_SERVER_ON c (of_nat j) \<or> j \<in> set ks"
proof (induction ks arbitrary: c)
  case (Cons k ks)
  have "unat (of_nat k :: u8) < 32" using Cons.prems unat_of_nat_small [of k, where 'a = 8] by simp
  then show ?case using Cons by (auto simp: CID_SERVER_ADD_on u8_of_nat_eq)
qed simp

lemma fold_ADD_frame [simp]:
  "size0 (fold (\<lambda>i c. CID_SERVER_ADD c (of_nat i)) ks c) = size0 c" "size1 (fold (\<lambda>i c. CID_SERVER_ADD c (of_nat i)) ks c) = size1 c"
  "epoch (fold (\<lambda>i c. CID_SERVER_ADD c (of_nat i)) ks c) = epoch c" "cstate (fold (\<lambda>i c. CID_SERVER_ADD c (of_nat i)) ks c) = cstate c"
  by (induction ks arbitrary: c) simp_all

lemma start_cid_on:
  assumes "unat n \<le> 13" "j < 256"
  shows "CID_IS_SERVER_ON (start_cid n) (of_nat j) \<longleftrightarrow> j < unat n"
  using fold_ADD_on [of "[0..<unat n]" j "zero_cid\<lparr>size0 := n, cstate := CID_STABLE\<rparr>"] assms
  by (simp add: start_cid_def zero_cid_def CID_IS_SERVER_ON_def)

lemma start_cid_sel [simp]:
  "size0 (start_cid n) = n" "size1 (start_cid n) = 0" "cstate (start_cid n) = CID_STABLE" "epoch (start_cid n) = 0"
  by (simp_all add: start_cid_def zero_cid_def)

lemma init_state:
  assumes "dare_server_init input file ok raw e = Some s"
  obtains l where "log_new True = Some l" "slog s = l" "cid (config s) = start_cid (in_group_size input)"
    "my_idx (config s) = in_server_idx input" "c_sid (ctrl s) = SID_NULL" "dare_state s = 0" "tailhead s = []"
    "unat (in_group_size input) \<le> 13" "servers (config s) = (\<lambda>_. zero_server)"
proof -
  have sz: "\<not> of_nat MAX_SERVER_COUNT < in_group_size input"
    using assms by (auto simp: dare_server_init_def init_server_data_def)
  then have "unat (in_group_size input) \<le> 13" by (simp add: MAX_SERVER_COUNT_def word_less_nat_alt)
  moreover obtain l where l: "log_new ok = Some l"
    using assms by (auto simp: dare_server_init_def init_server_data_def split: bind_splits)
  moreover have "ok" using l by (simp add: log_new_def split: if_splits)
  moreover have "slog s = l" "cid (config s) = start_cid (in_group_size input)"
    "my_idx (config s) = in_server_idx input" "c_sid (ctrl s) = SID_NULL" "dare_state s = 0" "tailhead s = []"
    "servers (config s) = (\<lambda>_. zero_server)"
    using assms l sz
    by (auto simp: dare_server_init_def init_server_data_def dare_read_config_def upd_config_def
      zero_srv_def zero_ctrl_def split: option.splits)
  ultimately show thesis using that [of l] by simp
qed

text \<open>C22: a server that starts with a group of \<open>n\<close> servers has a well-formed state: there are at
  most 13 servers, exactly the first \<open>n\<close> are on, the configuration is stable, the log is
  empty, every server's log is to be adjusted first, and the server is neither candidate nor leader.\<close>

theorem dare_server_init_ok:
  assumes "dare_server_init input file ok raw e = Some s"
  shows "unat (in_group_size input) \<le> MAX_SERVER_COUNT \<and> group_n s = unat (in_group_size input) \<and>
    (\<forall>j<256. CID_IS_SERVER_ON (cid (config s)) (of_nat j) \<longleftrightarrow> j < unat (in_group_size input)) \<and>
    cstate (cid (config s)) = CID_STABLE \<and> log_inv (slog s) [] [] [] \<and>
    (\<forall>i. next_lr_step (srv_at s i) = LR_GET_WRITE \<and> send_flag (srv_at s i)) \<and> \<not> IS_LEADER s \<and> \<not> IS_CANDIDATE s"
proof -
  obtain l where l: "log_new True = Some l" "slog s = l" "cid (config s) = start_cid (in_group_size input)"
    "my_idx (config s) = in_server_idx input" "c_sid (ctrl s) = SID_NULL" "dare_state s = 0" "tailhead s = []"
    "unat (in_group_size input) \<le> 13" "servers (config s) = (\<lambda>_. zero_server)"
    by (rule init_state [OF assms])
  have "SID_GET_TERM SID_NULL = 0" "\<not> has_L SID_NULL"
    by (simp_all add: SID_GET_TERM_def SID_GET_L_def SID_NULL_def drop_bit_eq_div)
  then have "\<not> IS_LEADER s" "\<not> IS_CANDIDATE s" using l(5) by (auto simp: roles)
  then show ?thesis
    using l start_cid_on [OF l(8)] log_inv_new [OF l(1)]
    by (simp add: MAX_SERVER_COUNT_def get_group_size_def cid_states zero_server_def)
qed

lemma dare_server_init_ok_witness:
  "\<exists>s. dare_server_init (run_input\<lparr>in_group_size := 3\<rparr>) (Some None) True demo_snapshot () = Some s \<and> group_n s = 3 \<and>
     log_inv (slog s) [] [] []"
proof -
  have "map_option (\<lambda>_. ()) (dare_server_init (run_input\<lparr>in_group_size := 3\<rparr>) (Some None) True demo_snapshot ()) = Some ()"
    by code_simp
  then obtain s where s: "dare_server_init (run_input\<lparr>in_group_size := 3\<rparr>) (Some None) True demo_snapshot () = Some s" by auto
  from dare_server_init_ok [OF this] s show ?thesis by simp
qed

section \<open>A group of one server\<close>

lemma log_append_entry_commit:
  assumes "log_append_entry l ph trm req clt typ data = Some (r, l', ph')"
  shows "log_commit l' = log_commit l \<and> log_apply l' = log_apply l"
proof -
  let ?same = "\<lambda>y x. log_commit y = log_commit x \<and> log_apply y = log_apply x"
  have "?same (fst (append_cmd x p idx trm req clt typ data)) x" for x p idx
    by (simp add: append_cmd_def Let_def split: option.splits)
  then have d: "?same (fst (append_data x p idx trm req clt typ data)) x" for x p idx
    by (simp add: append_data_def Let_def)
  have "?same (snd (append_entry_at x p idx trm req clt typ data)) x" for x p idx
    using d [of "if log_fit_entry_header (x\<lparr>log_entries := write_entry_header (log_entries x) p idx trm req clt typ\<rparr>) (log_end x)
        then x\<lparr>log_entries := write_entry_header (log_entries x) p idx trm req clt typ\<rparr>
        else x\<lparr>log_entries := write_entry_header (log_entries x) p idx trm req clt typ, log_end := 0\<rparr>" p idx]
    by (auto simp: append_entry_at_def Let_def split: prod.splits option.splits if_splits)
  then have e: "append_entry_at x p idx trm req clt typ data = (r', l2) \<Longrightarrow> ?same l2 x" for x p idx r' l2
    by (metis snd_conv)
  show ?thesis
    using assms by (auto simp: log_append_entry_def Let_def dest!: e split: bind_splits option.splits prod.splits)
qed

text \<open>What the queue of requests cannot change.\<close>

definition idle_leader :: "'e srv \<Rightarrow> bool" where
  "idle_leader s \<longleftrightarrow> IS_LEADER s \<and> dare_state s = INIT \<and> \<not> tm_active (timer_event s) \<and>
     log_commit (slog s) = 0 \<and> log_apply (slog s) = 0"

lemma drain_queue_idle: "drain_queue q s = Some s' \<Longrightarrow> idle_leader s \<Longrightarrow> idle_leader s'"
proof (induction q arbitrary: s)
  case (Cons n q)
  obtain idx s1 where s1: "append_entry (tq_req_id n) (tq_connection_id n) (tq_type n) (tq_cmd n) s = Some (idx, s1)"
    "drain_queue q (s1\<lparr>last_write_csm_idx := idx, tailhead := q\<rparr>) = Some s'"
    using Cons.prems(1) by (auto split: bind_splits)
  have "idle_leader (s1\<lparr>last_write_csm_idx := idx, tailhead := q\<rparr>)"
    using s1(1) Cons.prems(2)
    by (auto simp: append_entry_def idle_leader_def roles dest!: log_append_entry_commit split: bind_splits)
  from Cons.IH [OF s1(2) this] show ?case .
qed simp

lemma single_sid_fields: "SID_GET_TERM (single_sid sid) = 1" "has_L (single_sid sid)" "SID_GET_IDX (single_sid sid) = 0"
  by (simp_all add: single_sid_def sid_simps)

text \<open>C38: a group that starts with a single server makes it the leader at once, but never sets the flag
  that its log is recovered: without messages from other servers the polling loop appends the requests it
  is given and returns before it commits or applies any of them, and no timer is left that could
  change this.\<close>

theorem single_server_never_commits:
  assumes init: "dare_server_init input file ok raw e = Some s0" "in_group_size input = 1" "in_server_idx input = 0"
    and net: "init_network_cb dv False s0 = Some s1"
    and quiet: "\<forall>e. fst (ud_poll_rcq ib e) = 0"
    and run: "(\<lambda>a b. polling ib a = Some b \<or> (\<exists>n. b = a\<lparr>tailhead := tailhead a @ [n]\<rparr>))\<^sup>*\<^sup>* s1 s"
  shows "IS_LEADER s \<and> log_commit (slog s) = 0 \<and> log_apply (slog s) = 0 \<and> \<not> tm_active (timer_event s)"
proof -
  obtain l where l: "log_new True = Some l" "slog s0 = l" "cid (config s0) = start_cid 1"
    "my_idx (config s0) = 0" "dare_state s0 = 0"
    using init by (auto elim!: init_state)
  have "idle_leader s1"
    using net l single_sid_fields
    by (auto simp: init_network_cb_def rc_prerequisite_def dare_init_ib_srv_data_def Let_def upd_config_def upd_ctrl_def again_def
        ev_timer_again_def idle_leader_def roles log_new_def split: if_splits bind_splits)
  have poll: "idle_leader b" if p: "polling ib a = Some b" and a: "idle_leader a" for a b
  proof -
    obtain a1 where a1: "drain_queue (tailhead a) a = Some a1" "idle_leader a1"
      using p a drain_queue_idle by (auto simp: polling_def poll_ud_def get_tailq_message_def split: if_splits bind_splits)
    obtain w m e where r: "ud_poll_rcq ib (env a1) = (0, w, m, e)"
      using quiet by (metis fst_conv surj_pair)
    have "ud_get_message ib a1 = Some (MSG_NONE, a1\<lparr>env := e\<rparr>)" by (subst ud_get_message.simps) (simp add: r)
    then have "poll_ud ib a = Some (a1\<lparr>env := e\<rparr>)"
      using a1 by (simp add: poll_ud_def get_tailq_message_def ud_types)
    then have "b = a1\<lparr>env := e\<rparr>"
      using p a a1(2) by (auto simp: polling_def idle_leader_def has_state_def flag_defs)
    then show ?thesis using a1(2) by (simp add: idle_leader_def roles)
  qed
  have "idle_leader s"
    using run
  proof (induction rule: rtranclp_induct)
    case (step t u)
    then show ?case using poll by (auto simp: idle_leader_def roles)
  qed (rule \<open>idle_leader s1\<close>)
  then show ?thesis by (simp add: idle_leader_def)
qed

lemma single_server_never_commits_witness:
  "\<exists>s0 s1. dare_server_init run_input (Some (Some run_settings)) True demo_snapshot [] = Some s0 \<and>
     init_network_cb run_device False s0 = Some s1 \<and> IS_LEADER s1 \<and>
     (\<forall>n s. polling demo_ib (s1\<lparr>tailhead := [n]\<rparr>) = Some s \<longrightarrow> log_commit (slog s) = 0)"
proof -
  have "map_option tailhead (run_start \<bind> init_network_cb run_device False) = Some []" by code_simp
  then obtain s0 s1 where s: "run_start = Some s0" "init_network_cb run_device False s0 = Some s1" "tailhead s1 = []"
    by (auto split: bind_splits)
  let ?R = "\<lambda>a b. polling demo_ib a = Some b \<or> (\<exists>n. b = a\<lparr>tailhead := tailhead a @ [n]\<rparr>)"
  have q: "\<forall>e. fst (ud_poll_rcq demo_ib e) = 0" by (simp add: demo_ib_def idle_ib_def)
  note never = single_server_never_commits [OF s(1) [unfolded run_start_def] _ _ s(2) q]
  have "IS_LEADER s1" using never [of s1] by (simp add: run_input_def)
  moreover have "log_commit (slog u) = 0" if "polling demo_ib (s1\<lparr>tailhead := [n]\<rparr>) = Some u" for n u
  proof -
    have "?R\<^sup>*\<^sup>* s1 (s1\<lparr>tailhead := [n]\<rparr>)" by (rule r_into_rtranclp) (use s(3) in auto)
    then have "?R\<^sup>*\<^sup>* s1 u" by (rule rtranclp.rtrancl_into_rtrancl) (use that in simp)
    then show ?thesis using never [of u] by (simp add: run_input_def)
  qed
  ultimately show ?thesis using s by (auto simp: run_start_def)
qed

end
