(* ===== verification/Dare_Kvs.thy ===== *)
theory Dare_Kvs
  imports Dare_Prelude "HOL-Library.Monad_Syntax"
begin

text \<open>
  The key-value store of \<^verbatim>\<open>dare_kvs_sm.c\<close>: a table of chained entries.  A bucket is the
  list of its entries, the head first; a key is the array of \<open>KEY_SIZE\<close> bytes that the code copies, of
  which the hash and the comparison read the bytes up to the first zero.  Running past the end of
  a key that has no zero byte, and reading a value whose memory could not be
  allocated, are undefined: \<open>None\<close>.  The allocator is the parameter \<open>alloc\<close>, which says
  for a number of bytes whether it yields memory.
\<close>

section \<open>Data\<close>

definition DEFAULT_KVS_SIZE :: u32 where "DEFAULT_KVS_SIZE = 1024"
definition KEY_SIZE :: nat where "KEY_SIZE = 64"

definition KVS_PUT :: u8 where "KVS_PUT = 1"
definition KVS_GET :: u8 where "KVS_GET = 2"
definition KVS_RM :: u8 where "KVS_RM = 3"

lemmas kvs_types = KVS_PUT_def KVS_GET_def KVS_RM_def

text \<open>A blob whose data pointer is NULL has \<open>kb_data = None\<close>.\<close>

record kvs_blob =
  kb_len :: u16
  kb_data :: "u8 list option"

record kvs_entry =
  ke_key :: "u8 list"
  ke_blob :: kvs_blob

record kvs_table =
  kt_size :: u32
  kt_table :: "kvs_entry list list"

text \<open>The state machine: its table and the global \<^verbatim>\<open>kvs_size\<close>.\<close>

record kvs =
  kvs_tab :: kvs_table
  kvs_size :: u32

record kvs_cmd =
  kc_type :: u8
  kc_key :: "u8 list"
  kc_len :: u16
  kc_data :: "u8 list"

text \<open>A command in memory: the type, the key from byte 1, the length at byte 66, the data from byte 68.\<close>

definition kvs_cmd_at :: "mem \<Rightarrow> kvs_cmd" where
  "kvs_cmd_at m = \<lparr>kc_type = rd8 m 0, kc_key = load m 1 KEY_SIZE, kc_len = rd16 m 66,
     kc_data = load m 68 (unat (rd16 m 66))\<rparr>"

text \<open>\<open>sizeof(kvs_snapshot_entry_t)\<close>: a length and a key.\<close>

definition sizeof_snapshot_entry :: u32 where "sizeof_snapshot_entry = 66"

text \<open>The string a key array holds, as \<^verbatim>\<open>strcmp\<close> and the hash read it.\<close>

definition cstr :: "u8 list \<Rightarrow> u8 list option" where
  "cstr key = (if 0 \<in> set key then Some (takeWhile (\<lambda>b. b \<noteq> 0) key) else None)"

section \<open>The table\<close>

text \<open>\<^verbatim>\<open>char\<close> is signed.\<close>

fun hash_loop :: "u8 list \<Rightarrow> u32 \<Rightarrow> u32" where
  "hash_loop [] hashval = hashval"
| "hash_loop (k # key) hashval = hash_loop key (scast k + push_bit 5 hashval - hashval)"

definition hash :: "kvs_table \<Rightarrow> u8 list \<Rightarrow> nat option" where
  "hash t key = do { str \<leftarrow> cstr key; Some (unat (hash_loop str 0 mod kt_size t)) }"

text \<open>The walk of a bucket: the position of the entry with the key.\<close>

fun find_pos :: "u8 list \<Rightarrow> kvs_entry list \<Rightarrow> nat option" where
  "find_pos key [] = None"
| "find_pos key (e # es) = (if cstr key = cstr (ke_key e) then Some 0 else map_option Suc (find_pos key es))"

text \<open>The bucket and the position in it; the pointer is NULL when there is no position.\<close>

definition lookup_key :: "kvs_table \<Rightarrow> u8 list \<Rightarrow> (nat \<times> nat option) option" where
  "lookup_key t key = do { h \<leftarrow> hash t key; Some (h, find_pos key (kt_table t ! h)) }"

definition set_bucket :: "nat \<Rightarrow> kvs_entry list \<Rightarrow> kvs_table \<Rightarrow> kvs_table" where
  "set_bucket h es t = t\<lparr>kt_table := (kt_table t)[h := es]\<rparr>"

definition remove_key :: "u8 list \<Rightarrow> kvs \<Rightarrow> kvs option" where
  "remove_key key k = do {
     h \<leftarrow> hash (kvs_tab k) key;
     let es = kt_table (kvs_tab k) ! h;
     case find_pos key es of None \<Rightarrow> Some k
     | Some i \<Rightarrow> Some (k\<lparr>kvs_tab := set_bucket h (take i es @ drop (Suc i) es) (kvs_tab k),
          kvs_size := kvs_size k - sizeof_snapshot_entry - ucast (kb_len (ke_blob (es ! i)))\<rparr>)
   }"

text \<open>
  Overwriting an entry.  When the length changes, the size and the length of the entry are updated
  before the memory is reallocated; if that fails the entry is left without data.
  Copying bytes to an entry without memory is undefined.
\<close>

definition overwrite :: "(nat \<Rightarrow> bool) \<Rightarrow> nat \<Rightarrow> nat \<Rightarrow> u16 \<Rightarrow> u8 list \<Rightarrow> kvs \<Rightarrow> (int \<times> kvs) option" where
  "overwrite alloc h i len data k =
     (let es = kt_table (kvs_tab k) ! h; e = es ! i; b = ke_blob e;
          put = (\<lambda>d. set_bucket h (es[i := e\<lparr>ke_blob := \<lparr>kb_len = len, kb_data = d\<rparr>\<rparr>]) (kvs_tab k))
      in if kb_len b \<noteq> len then
           (let size' = kvs_size k + (ucast len - ucast (kb_len b)) in
            if alloc (unat len) then Some (0, k\<lparr>kvs_tab := put (Some data), kvs_size := size'\<rparr>)
            else Some (1, k\<lparr>kvs_tab := put None, kvs_size := size'\<rparr>))
         else if kb_data b = None then (if len = 0 then Some (0, k) else None)
         else Some (0, k\<lparr>kvs_tab := put (Some data)\<rparr>))"

text \<open>\<open>sizeof(kvs_list_t)\<close>: the key, the blob at 64 and the next pointer.\<close>

definition sizeof_list :: nat where "sizeof_list = 88"

definition write_key :: "(nat \<Rightarrow> bool) \<Rightarrow> u8 list \<Rightarrow> u16 \<Rightarrow> u8 list \<Rightarrow> kvs \<Rightarrow> (int \<times> kvs) option" where
  "write_key alloc key len data k = do {
     (h, pos) \<leftarrow> lookup_key (kvs_tab k) key;
     case pos of Some i \<Rightarrow> overwrite alloc h i len data k
     | None \<Rightarrow>
         if \<not> alloc sizeof_list then Some (1, k)
         else
           let k1 = k\<lparr>kvs_size := kvs_size k + (sizeof_snapshot_entry + ucast len)\<rparr>;
               e = \<lparr>ke_key = key, ke_blob = \<lparr>kb_len = len, kb_data = Some data\<rparr>\<rparr>
           in if \<not> alloc (unat len) then Some (1, k1)
              else Some (0, k1\<lparr>kvs_tab := set_bucket h (e # kt_table (kvs_tab k1) ! h) (kvs_tab k1)\<rparr>)
   }"

section \<open>The state machine\<close>

definition create_kvs_table :: "(nat \<Rightarrow> bool) \<Rightarrow> u32 \<Rightarrow> kvs_table option" where
  "create_kvs_table alloc n =
     (if alloc (8 * unat n) then Some \<lparr>kt_size = n, kt_table = replicate (unat n) []\<rparr> else None)"

text \<open>\<open>sizeof(dare_kvs_sm_t)\<close>: nine pointers and the table.\<close>

definition sizeof_kvs_sm :: nat where "sizeof_kvs_sm = 88"

text \<open>\<open>None\<close> when memory cannot be allocated; \<^verbatim>\<open>kvs_size\<close> is the global's value.\<close>

definition create_kvs_sm :: "(nat \<Rightarrow> bool) \<Rightarrow> u32 \<Rightarrow> u32 \<Rightarrow> kvs option" where
  "create_kvs_sm alloc n kvs_size0 =
     (let n' = (if n = 0 then DEFAULT_KVS_SIZE else n) in
      if \<not> alloc sizeof_kvs_sm then None
      else map_option (\<lambda>t. \<lparr>kvs_tab = t, kvs_size = kvs_size0\<rparr>) (create_kvs_table alloc n'))"

text \<open>
  A command: the return code, the answer (\<open>None\<close> where the code leaves it as it was) and the
  new state.  A NULL state machine is \<open>None\<close>.
\<close>

definition get_value :: "kvs \<Rightarrow> u8 list \<Rightarrow> u8 list option" where
  "get_value k key = do {
     (h, pos) \<leftarrow> lookup_key (kvs_tab k) key;
     case pos of None \<Rightarrow> Some []
     | Some i \<Rightarrow>
         let b = ke_blob (kt_table (kvs_tab k) ! h ! i)
         in (case kb_data b of Some d \<Rightarrow> Some (take (unat (kb_len b)) d)
             | None \<Rightarrow> if kb_len b = 0 then Some [] else None)
   }"

definition apply_kvs_cmd ::
  "(nat \<Rightarrow> bool) \<Rightarrow> kvs_cmd \<Rightarrow> kvs option \<Rightarrow> (int \<times> u8 list option \<times> kvs option) option" where
  "apply_kvs_cmd alloc c sm = (case sm of None \<Rightarrow> Some (1, None, None)
     | Some k \<Rightarrow>
         if kc_type c = KVS_PUT then do {
           (rc, k') \<leftarrow> write_key alloc (kc_key c) (kc_len c) (kc_data c) k;
           Some (if rc \<noteq> 0 then 1 else 0, None, Some k')
         }
         else if kc_type c = KVS_GET then do {
           d \<leftarrow> get_value k (kc_key c);
           Some (0, Some d, Some k)
         }
         else if kc_type c = KVS_RM then do {
           k' \<leftarrow> remove_key (kc_key c) k;
           Some (0, None, Some k')
         }
         else Some (1, None, Some k))"

text \<open>
  \<^verbatim>\<open>destroy_kvs_sm\<close> releases memory: the number of blocks freed by the loops, that is
  every entry and every value, then the table and the state machine.
\<close>

fun destroy_bucket :: "kvs_entry list \<Rightarrow> nat" where
  "destroy_bucket [] = 0"
| "destroy_bucket (e # es) = (if kb_data (ke_blob e) \<noteq> None then 1 else 0) + 1 + destroy_bucket es"

definition destroy_kvs_sm :: "kvs option \<Rightarrow> nat" where
  "destroy_kvs_sm sm = (case sm of None \<Rightarrow> 0
     | Some k \<Rightarrow> sum_list (map destroy_bucket (take (unat (kt_size (kvs_tab k))) (kt_table (kvs_tab k)))) + 2)"

end
