(* ===== verification/Dare_Kvs_Props.thy ===== *)
theory Dare_Kvs_Props
  imports Dare_Kvs
begin

text \<open>
  The key-value store implements a finite map from strings to values, whatever the
  size of its table: every command refines its specification on the map, and the store is an
  instance of the contract \<open>removable_store\<close>.
\<close>

section \<open>Abstraction and invariant\<close>

definition entry_pair :: "kvs_entry \<Rightarrow> u8 list \<times> u8 list" where
  "entry_pair e = (the (cstr (ke_key e)), the (kb_data (ke_blob e)))"

definition bucket_map :: "kvs_entry list \<Rightarrow> u8 list \<Rightarrow> u8 list option" where
  "bucket_map es = map_of (map entry_pair es)"

text \<open>The map: every entry of the table, in whatever bucket.\<close>

definition kvs_map :: "kvs \<Rightarrow> u8 list \<Rightarrow> u8 list option" where
  "kvs_map k = bucket_map (concat (kt_table (kvs_tab k)))"

definition key_array :: "u8 list \<Rightarrow> bool" where
  "key_array key \<longleftrightarrow> length key = KEY_SIZE \<and> 0 \<in> set key"

definition entry_ok :: "kvs_entry \<Rightarrow> bool" where
  "entry_ok e \<longleftrightarrow> key_array (ke_key e) \<and>
     (\<exists>d. kb_data (ke_blob e) = Some d \<and> length d = unat (kb_len (ke_blob e)))"

text \<open>A bucket holds the entries whose keys hash to it, each key once.\<close>

definition bucket_ok :: "kvs_table \<Rightarrow> nat \<Rightarrow> kvs_entry list \<Rightarrow> bool" where
  "bucket_ok t h es \<longleftrightarrow> (\<forall>e\<in>set es. entry_ok e \<and> hash t (ke_key e) = Some h) \<and>
     distinct (map (fst \<circ> entry_pair) es)"

definition kvs_inv :: "kvs \<Rightarrow> bool" where
  "kvs_inv k \<longleftrightarrow> (let t = kvs_tab k in kt_size t \<noteq> 0 \<and> length (kt_table t) = unat (kt_size t) \<and>
     (\<forall>h < length (kt_table t). bucket_ok t h (kt_table t ! h)))"

text \<open>The bytes a snapshot of the table takes.\<close>

definition entry_bytes :: "kvs_entry \<Rightarrow> u32" where
  "entry_bytes e = sizeof_snapshot_entry + ucast (kb_len (ke_blob e))"

definition table_bytes :: "kvs_table \<Rightarrow> u32" where
  "table_bytes t = sum_list (map entry_bytes (concat (kt_table t)))"

section \<open>Keys and buckets\<close>

lemma cstr_Some: "key_array key \<Longrightarrow> cstr key = Some (the (cstr key))"
  by (simp add: key_array_def cstr_def)

lemma hash_Some: "cstr key = Some s \<Longrightarrow> hash t key = Some (unat (hash_loop s 0 mod kt_size t))"
  by (simp add: hash_def)

lemma hash_key_array:
  assumes "key_array key" "kt_size t \<noteq> 0"
  obtains h where "hash t key = Some h" "h < unat (kt_size t)"
proof
  show "hash t key = Some (unat (hash_loop (the (cstr key)) 0 mod kt_size t))"
    by (rule hash_Some) (rule cstr_Some [OF assms(1)])
  show "unat (hash_loop (the (cstr key)) 0 mod kt_size t) < unat (kt_size t)"
    using assms(2) by (simp add: unat_mod unat_gt_0)
qed

lemma hash_cong: "cstr a = cstr b \<Longrightarrow> hash t a = hash t b"
  by (simp add: hash_def)

lemma find_pos_Some:
  "find_pos key es = Some i \<Longrightarrow> i < length es \<and> cstr (ke_key (es ! i)) = cstr key"
  by (induction es arbitrary: i) (auto split: if_splits)

lemma find_pos_None: "find_pos key es = None \<Longrightarrow> e \<in> set es \<Longrightarrow> cstr (ke_key e) \<noteq> cstr key"
  by (induction es) (auto split: if_splits)

lemma bucket_map_Nil [simp]: "bucket_map [] = Map.empty"
  by (simp add: bucket_map_def)

lemma bucket_map_append: "bucket_map (xs @ ys) = bucket_map ys ++ bucket_map xs"
  by (simp add: bucket_map_def)

lemma bucket_map_Cons: "bucket_map (e # es) = (bucket_map es)(fst (entry_pair e) \<mapsto> snd (entry_pair e))"
  by (simp add: bucket_map_def)

lemma bucket_map_None: "s \<notin> (fst \<circ> entry_pair) ` set es \<Longrightarrow> bucket_map es s = None"
  by (auto simp: bucket_map_def map_of_eq_None_iff)

text \<open>Splitting a bucket at the entry with the key.\<close>

lemma bucket_split:
  assumes ok: "bucket_ok t h es" and key: "cstr key = Some s" and pos: "find_pos key es = Some i"
  obtains us e vs where "es = us @ e # vs" "i = length us" "fst (entry_pair e) = s"
    "s \<notin> (fst \<circ> entry_pair) ` set us" "s \<notin> (fst \<circ> entry_pair) ` set vs"
proof
  have i: "i < length es" "cstr (ke_key (es ! i)) = Some s" using find_pos_Some [OF pos] key by auto
  show split: "es = take i es @ es ! i # drop (Suc i) es" using i(1) by (simp add: id_take_nth_drop)
  show "i = length (take i es)" using i(1) by simp
  show fst: "fst (entry_pair (es ! i)) = s" using i(2) by (simp add: entry_pair_def)
  have "distinct (map (fst \<circ> entry_pair) (take i es @ es ! i # drop (Suc i) es))"
    using ok split by (simp add: bucket_ok_def)
  then show "s \<notin> (fst \<circ> entry_pair) ` set (take i es)" "s \<notin> (fst \<circ> entry_pair) ` set (drop (Suc i) es)"
    using fst by auto
qed

lemma find_pos_bucket_None:
  assumes "bucket_ok t h es" "cstr key = Some s" "find_pos key es = None"
  shows "s \<notin> (fst \<circ> entry_pair) ` set es"
proof
  assume "s \<in> (fst \<circ> entry_pair) ` set es"
  then obtain e where e: "e \<in> set es" "s = the (cstr (ke_key e))" by (auto simp: entry_pair_def)
  have "cstr (ke_key e) = Some s"
    using e assms(1) cstr_Some [of "ke_key e"] by (auto simp: bucket_ok_def entry_ok_def)
  then show False using find_pos_None [OF assms(3) e(1)] assms(2) by simp
qed

lemma map_of_concat_at:
  assumes "h < length xss" "\<And>i. i < length xss \<Longrightarrow> i \<noteq> h \<Longrightarrow> bucket_map (xss ! i) s = None"
  shows "bucket_map (concat xss) s = bucket_map (xss ! h) s"
  using assms
proof (induction xss arbitrary: h)
  case (Cons xs xss)
  have none: "bucket_map (concat yss) s = None" if "\<forall>ys\<in>set yss. bucket_map ys s = None" for yss
    using that by (induction yss) (auto simp: bucket_map_append map_add_def)
  show ?case
  proof (cases h)
    case 0
    have "bucket_map ys s = None" if "ys \<in> set xss" for ys
      using Cons.prems(2) 0 that by (metis Suc_less_eq in_set_conv_nth length_Cons nat.distinct(1) nth_Cons_Suc)
    then have "bucket_map (concat xss) s = None" by (simp add: none)
    then show ?thesis using 0 by (simp add: bucket_map_append map_add_def split: option.splits)
  next
    case (Suc g)
    have "bucket_map xs s = None" using Cons.prems(2) [of 0] Suc by simp
    moreover have "bucket_map (concat xss) s = bucket_map (xss ! g) s"
      using Cons.IH [of g] Cons.prems Suc by (metis Suc_less_eq length_Cons nat.inject nth_Cons_Suc)
    ultimately show ?thesis using Suc by (simp add: bucket_map_append map_add_def split: option.splits)
  qed
qed simp

lemma bucket_foreign:
  assumes "bucket_ok t i es" "unat (hash_loop s 0 mod kt_size t) \<noteq> i"
  shows "bucket_map es s = None"
proof (rule bucket_map_None, rule notI)
  assume "s \<in> (fst \<circ> entry_pair) ` set es"
  then obtain e where e: "e \<in> set es" "s = the (cstr (ke_key e))" by (auto simp: entry_pair_def)
  have "cstr (ke_key e) = Some s" "hash t (ke_key e) = Some i"
    using e assms(1) cstr_Some [of "ke_key e"] by (auto simp: bucket_ok_def entry_ok_def)
  then show False using assms(2) hash_Some by fastforce
qed

text \<open>The map at a string is that of the bucket the string hashes to.\<close>

lemma kvs_map_bucket:
  assumes inv: "kvs_inv k" and h: "h = unat (hash_loop s 0 mod kt_size (kvs_tab k))"
  shows "kvs_map k s = bucket_map (kt_table (kvs_tab k) ! h) s"
  unfolding kvs_map_def
proof (rule map_of_concat_at)
  show "h < length (kt_table (kvs_tab k))"
    using inv h by (simp add: kvs_inv_def Let_def unat_mod unat_gt_0)
  show "bucket_map (kt_table (kvs_tab k) ! i) s = None" if "i < length (kt_table (kvs_tab k))" "i \<noteq> h" for i
    using inv that h by (intro bucket_foreign [of "kvs_tab k" i]) (auto simp: kvs_inv_def Let_def)
qed

text \<open>Replacing one bucket.\<close>

lemma set_bucket_inv:
  assumes inv: "kvs_inv k" and h: "h < length (kt_table (kvs_tab k))" and ok: "bucket_ok (kvs_tab k) h es"
  shows "kvs_inv (k\<lparr>kvs_tab := set_bucket h es (kvs_tab k), kvs_size := n\<rparr>)"
proof -
  have same: "bucket_ok (set_bucket h es (kvs_tab k)) = bucket_ok (kvs_tab k)"
    by (intro ext) (simp add: bucket_ok_def hash_def set_bucket_def)
  show ?thesis
    using inv h ok unfolding kvs_inv_def Let_def
    by (auto simp: same) (auto simp: set_bucket_def nth_list_update)
qed

lemma set_bucket_map:
  assumes inv: "kvs_inv k" and h: "hash (kvs_tab k) key = Some h" "cstr key = Some s"
    and ok: "bucket_ok (kvs_tab k) h es"
    and es: "bucket_map es = (bucket_map (kt_table (kvs_tab k) ! h))(s := v)"
  shows "kvs_map (k\<lparr>kvs_tab := set_bucket h es (kvs_tab k), kvs_size := n\<rparr>) = (kvs_map k)(s := v)"
proof
  fix r
  let ?k = "k\<lparr>kvs_tab := set_bucket h es (kvs_tab k), kvs_size := n\<rparr>"
  let ?g = "unat (hash_loop r 0 mod kt_size (kvs_tab k))"
  have hs: "h = unat (hash_loop s 0 mod kt_size (kvs_tab k))" using h hash_Some by fastforce
  then have hl: "h < length (kt_table (kvs_tab k))"
    using inv by (simp add: kvs_inv_def Let_def unat_mod unat_gt_0)
  have "kvs_map ?k r = bucket_map (kt_table (kvs_tab ?k) ! ?g) r"
    by (rule kvs_map_bucket [OF set_bucket_inv [OF inv hl ok]]) (simp add: set_bucket_def)
  moreover have "kvs_map k r = bucket_map (kt_table (kvs_tab k) ! ?g) r"
    by (rule kvs_map_bucket [OF inv]) simp
  moreover have "r = s \<Longrightarrow> ?g = h" using hs by simp
  ultimately show "kvs_map ?k r = ((kvs_map k)(s := v)) r"
    using es hl by (cases "?g = h") (auto simp: set_bucket_def)
qed

lemma table_bytes_set_bucket:
  assumes "h < length (kt_table t)"
  shows "table_bytes (set_bucket h es t)
    = table_bytes t - sum_list (map entry_bytes (kt_table t ! h)) + sum_list (map entry_bytes es)"
proof -
  define b where "b = (\<lambda>es. sum_list (map entry_bytes es))"
  have cat: "sum_list (map entry_bytes (concat xss)) = sum_list (map b xss)" for xss
    by (induction xss) (auto simp: b_def)
  have upd: "sum_list (map b (xss[h := es])) = sum_list (map b xss) - b (xss ! h) + b es"
    if "h < length xss" for xss
    using that
  proof (induction xss arbitrary: h)
    case (Cons xs xss)
    then show ?case by (cases h) (simp_all add: algebra_simps)
  qed simp
  show ?thesis using upd [OF assms] by (simp add: table_bytes_def set_bucket_def cat) (simp add: b_def)
qed

section \<open>Operations\<close>

lemma entry_map_in:
  assumes "bucket_ok t h es" "es = us @ e # vs"
  shows "bucket_map es (fst (entry_pair e)) = Some (snd (entry_pair e))"
proof -
  have "fst (entry_pair e) \<notin> (fst \<circ> entry_pair) ` set us"
    using assms by (auto simp: bucket_ok_def)
  then have "bucket_map us (fst (entry_pair e)) = None" by (rule bucket_map_None)
  then show ?thesis by (simp add: assms(2) bucket_map_append bucket_map_Cons map_add_def)
qed

lemma entry_ok_value: "entry_ok e \<Longrightarrow> kb_data (ke_blob e) = Some (snd (entry_pair e)) \<and>
    length (snd (entry_pair e)) = unat (kb_len (ke_blob e))"
  by (auto simp: entry_ok_def entry_pair_def)

text \<open>The position the code finds is the entry of the map.\<close>

lemma lookup_key_spec:
  assumes inv: "kvs_inv k" and key: "key_array key"
  obtains h s where "hash (kvs_tab k) key = Some h" "cstr key = Some s" "h < length (kt_table (kvs_tab k))"
    "bucket_ok (kvs_tab k) h (kt_table (kvs_tab k) ! h)"
    "kvs_map k s = bucket_map (kt_table (kvs_tab k) ! h) s"
    "lookup_key (kvs_tab k) key = Some (h, find_pos key (kt_table (kvs_tab k) ! h))"
proof -
  have sz: "kt_size (kvs_tab k) \<noteq> 0" "length (kt_table (kvs_tab k)) = unat (kt_size (kvs_tab k))"
    using inv by (auto simp: kvs_inv_def Let_def)
  obtain h where h: "hash (kvs_tab k) key = Some h" "h < unat (kt_size (kvs_tab k))"
    using hash_key_array [OF key sz(1)] .
  obtain s where s: "cstr key = Some s" using cstr_Some [OF key] by blast
  have "bucket_ok (kvs_tab k) h (kt_table (kvs_tab k) ! h)"
    using inv h(2) sz(2) by (simp add: kvs_inv_def Let_def)
  moreover have "kvs_map k s = bucket_map (kt_table (kvs_tab k) ! h) s"
    using kvs_map_bucket [OF inv] h(1) hash_Some [OF s] by simp
  ultimately show thesis using that h s sz by (simp add: lookup_key_def)
qed

lemma get_value_spec:
  assumes inv: "kvs_inv k" and key: "key_array key" and s: "cstr key = Some s"
  shows "get_value k key = Some (case kvs_map k s of None \<Rightarrow> [] | Some d \<Rightarrow> d)"
proof -
  obtain h where h: "bucket_ok (kvs_tab k) h (kt_table (kvs_tab k) ! h)"
    "kvs_map k s = bucket_map (kt_table (kvs_tab k) ! h) s"
    "lookup_key (kvs_tab k) key = Some (h, find_pos key (kt_table (kvs_tab k) ! h))"
    using lookup_key_spec [OF inv key] s by (metis option.inject)
  let ?es = "kt_table (kvs_tab k) ! h"
  show ?thesis
  proof (cases "find_pos key ?es")
    case None
    then show ?thesis
      using h bucket_map_None [OF find_pos_bucket_None [OF h(1) s None]] by (simp add: get_value_def)
  next
    case (Some i)
    obtain us e vs where sp: "?es = us @ e # vs" "i = length us" "fst (entry_pair e) = s"
      by (rule bucket_split [OF h(1) s Some])
    have "entry_ok e" using h(1) sp(1) by (simp add: bucket_ok_def)
    moreover have "bucket_map ?es s = Some (snd (entry_pair e))" using entry_map_in [OF h(1) sp(1)] sp(3) by simp
    moreover have "?es ! i = e" using sp by simp
    ultimately show ?thesis using h Some entry_ok_value [of e] by (simp add: get_value_def)
  qed
qed

lemma remove_key_spec:
  assumes inv: "kvs_inv k" and key: "key_array key" and s: "cstr key = Some s"
  obtains k' where "remove_key key k = Some k'" "kvs_inv k'" "kvs_map k' = (kvs_map k)(s := None)"
    "kvs_size k' - table_bytes (kvs_tab k') = kvs_size k - table_bytes (kvs_tab k)"
proof -
  obtain h where h: "hash (kvs_tab k) key = Some h" "h < length (kt_table (kvs_tab k))"
    "bucket_ok (kvs_tab k) h (kt_table (kvs_tab k) ! h)"
    "kvs_map k s = bucket_map (kt_table (kvs_tab k) ! h) s"
    using lookup_key_spec [OF inv key] s by (metis option.inject)
  let ?es = "kt_table (kvs_tab k) ! h"
  show thesis
  proof (cases "find_pos key ?es")
    case None
    then have "kvs_map k s = None"
      using h bucket_map_None [OF find_pos_bucket_None [OF h(3) s None]] by simp
    then have "kvs_map k = (kvs_map k)(s := None)" by auto
    then show thesis using that [of k] None h(1) inv by (simp add: remove_key_def)
  next
    case (Some i)
    obtain us e vs where sp: "?es = us @ e # vs" "i = length us" "fst (entry_pair e) = s"
      "s \<notin> (fst \<circ> entry_pair) ` set us" "s \<notin> (fst \<circ> entry_pair) ` set vs"
      by (rule bucket_split [OF h(3) s Some])
    have del: "take i ?es @ drop (Suc i) ?es = us @ vs" using sp by simp
    have ok: "bucket_ok (kvs_tab k) h (us @ vs)" using h(3) sp(1) by (auto simp: bucket_ok_def)
    have m: "bucket_map (us @ vs) = (bucket_map ?es)(s := None)"
      using sp(3) bucket_map_None [OF sp(4)] bucket_map_None [OF sp(5)]
      by (auto simp: sp(1) bucket_map_append bucket_map_Cons map_add_def fun_eq_iff split: option.splits)
    define n where "n = kvs_size k - sizeof_snapshot_entry - ucast (kb_len (ke_blob e))"
    let ?k = "k\<lparr>kvs_tab := set_bucket h (us @ vs) (kvs_tab k), kvs_size := n\<rparr>"
    have "remove_key key k = Some ?k"
      using Some h(1) del sp(1,2) by (simp add: remove_key_def Let_def n_def)
    moreover have "kvs_inv ?k" by (rule set_bucket_inv [OF inv h(2) ok])
    moreover have "kvs_map ?k = (kvs_map k)(s := None)" by (rule set_bucket_map [OF inv h(1) s ok m])
    moreover have "kvs_size ?k - table_bytes (kvs_tab ?k) = kvs_size k - table_bytes (kvs_tab k)"
      using table_bytes_set_bucket [OF h(2), of "us @ vs"] sp(1) by (simp add: n_def entry_bytes_def)
    ultimately show thesis by (rule that)
  qed
qed

lemma write_key_spec:
  assumes inv: "kvs_inv k" and key: "key_array key" and s: "cstr key = Some s"
    and len: "length d = unat len" and mem: "alloc sizeof_list" "alloc (unat len)"
  obtains k' where "write_key alloc key len d k = Some (0, k')" "kvs_inv k'" "kvs_map k' = (kvs_map k)(s \<mapsto> d)"
    "kvs_size k' - table_bytes (kvs_tab k') = kvs_size k - table_bytes (kvs_tab k)"
proof -
  obtain h where h: "hash (kvs_tab k) key = Some h" "h < length (kt_table (kvs_tab k))"
    "bucket_ok (kvs_tab k) h (kt_table (kvs_tab k) ! h)"
    "lookup_key (kvs_tab k) key = Some (h, find_pos key (kt_table (kvs_tab k) ! h))"
    using lookup_key_spec [OF inv key] s by (metis option.inject)
  let ?es = "kt_table (kvs_tab k) ! h" and ?b = "\<lparr>kb_len = len, kb_data = Some d\<rparr>"
  note goal = that
  have fin: thesis if res: "write_key alloc key len d k = Some (0, k\<lparr>kvs_tab := set_bucket h es (kvs_tab k), kvs_size := n\<rparr>)"
    and ok: "bucket_ok (kvs_tab k) h es" and m: "bucket_map es = (bucket_map ?es)(s \<mapsto> d)"
    and n: "n - sum_list (map entry_bytes es) = kvs_size k - sum_list (map entry_bytes ?es)" for es n
  proof (rule goal [OF res set_bucket_inv [OF inv h(2) ok] set_bucket_map [OF inv h(1) s ok m]])
    have eq: "n = kvs_size k - sum_list (map entry_bytes ?es) + sum_list (map entry_bytes es)"
      using n by (simp add: algebra_simps)
    show "kvs_size (k\<lparr>kvs_tab := set_bucket h es (kvs_tab k), kvs_size := n\<rparr>)
          - table_bytes (kvs_tab (k\<lparr>kvs_tab := set_bucket h es (kvs_tab k), kvs_size := n\<rparr>))
        = kvs_size k - table_bytes (kvs_tab k)"
      by (simp add: eq table_bytes_set_bucket [OF h(2)])
  qed
  show thesis
  proof (cases "find_pos key ?es")
    case None
    let ?e = "\<lparr>ke_key = key, ke_blob = ?b\<rparr>"
    have new: "s \<notin> (fst \<circ> entry_pair) ` set ?es" by (rule find_pos_bucket_None [OF h(3) s None])
    show thesis
    proof (rule fin [where es = "?e # ?es"])
      show "write_key alloc key len d k = Some (0, k\<lparr>kvs_tab := set_bucket h (?e # ?es) (kvs_tab k),
          kvs_size := kvs_size k + (sizeof_snapshot_entry + ucast len)\<rparr>)"
        using h(4) None mem by (simp add: write_key_def Let_def)
      show "bucket_ok (kvs_tab k) h (?e # ?es)"
        using h key s len new by (auto simp: bucket_ok_def entry_ok_def entry_pair_def)
      show "bucket_map (?e # ?es) = (bucket_map ?es)(s \<mapsto> d)" using s by (simp add: bucket_map_Cons entry_pair_def)
    qed (simp add: entry_bytes_def)
  next
    case (Some i)
    obtain us e vs where sp: "?es = us @ e # vs" "i = length us" "fst (entry_pair e) = s"
      "s \<notin> (fst \<circ> entry_pair) ` set us" "s \<notin> (fst \<circ> entry_pair) ` set vs"
      by (rule bucket_split [OF h(3) s Some])
    define n where "n = kvs_size k + (ucast len - ucast (kb_len (ke_blob e)))"
    let ?e = "e\<lparr>ke_blob := ?b\<rparr>"
    have e: "entry_ok e" "fst (entry_pair ?e) = s" using h(3) sp(1,3) by (auto simp: bucket_ok_def entry_pair_def)
    have upd: "?es[i := ?e] = us @ ?e # vs" "?es ! i = e" using sp by simp_all
    have same: "kb_len (ke_blob e) = len \<Longrightarrow> n = kvs_size k" by (simp add: n_def)
    show thesis
    proof (rule fin [where es = "us @ ?e # vs"])
      show "write_key alloc key len d k = Some (0, k\<lparr>kvs_tab := set_bucket h (us @ ?e # vs) (kvs_tab k), kvs_size := n\<rparr>)"
        using h(4) Some mem entry_ok_value [OF e(1)] same upd
        by (simp add: write_key_def overwrite_def Let_def n_def)
      show "bucket_ok (kvs_tab k) h (us @ ?e # vs)"
        using h(3) e len sp by (auto simp: bucket_ok_def entry_ok_def image_iff)
      show "bucket_map (us @ ?e # vs) = (bucket_map ?es)(s \<mapsto> d)"
        using e(2) sp bucket_map_None [OF sp(4)]
        by (auto simp: bucket_map_append bucket_map_Cons map_add_def fun_eq_iff entry_pair_def split: option.splits)
    qed (simp add: sp(1) n_def entry_bytes_def)
  qed
qed

section \<open>The contract of a keyed store\<close>

text \<open>Strings that fit a key array, and the array of such a string.\<close>

definition key_string :: "u8 list \<Rightarrow> bool" where
  "key_string s \<longleftrightarrow> 0 \<notin> set s \<and> length s < KEY_SIZE"

definition pad_key :: "u8 list \<Rightarrow> u8 list" where
  "pad_key s = s @ replicate (KEY_SIZE - length s) 0"

definition kvs_put :: "u8 list \<Rightarrow> u8 list \<Rightarrow> kvs \<Rightarrow> kvs" where
  "kvs_put s d k = (let len = of_nat (length d) in
     snd (the (write_key (\<lambda>_. True) (pad_key s) len (take (unat len) d) k)))"

definition kvs_rm :: "u8 list \<Rightarrow> kvs \<Rightarrow> kvs" where
  "kvs_rm s k = the (remove_key (pad_key s) k)"

text \<open>The length of a value is kept modulo \<open>2 ^ 16\<close>.\<close>

definition kvs_comb :: "u8 list \<Rightarrow> u8 list option \<Rightarrow> u8 list \<Rightarrow> u8 list" where
  "kvs_comb s old d = take (length d mod 2 ^ 16) d"

lemma pad_key:
  assumes "key_string s"
  shows "key_array (pad_key s) \<and> cstr (pad_key s) = Some s"
proof -
  have "takeWhile (\<lambda>b. b \<noteq> 0) (s @ replicate (KEY_SIZE - length s) 0) = s @ takeWhile (\<lambda>b. b \<noteq> 0) (replicate (KEY_SIZE - length s) 0)"
    using assms by (intro takeWhile_append2) (auto simp: key_string_def)
  then show ?thesis
    using assms by (auto simp: key_string_def key_array_def pad_key_def cstr_def takeWhile_replicate)
qed

interpretation kvs: removable_store kvs_inv key_string kvs_map kvs_put kvs_comb kvs_rm
proof
  fix k :: kvs and s r d :: "u8 list"
  assume inv: "kvs_inv k" and s: "key_string s"
  let ?len = "of_nat (length d) :: u16"
  have comb: "take (unat ?len) d = kvs_comb s o1 d" for o1 by (simp add: kvs_comb_def unat_of_nat)
  obtain k' where k': "write_key (\<lambda>_. True) (pad_key s) ?len (take (unat ?len) d) k = Some (0, k')"
    "kvs_inv k'" "kvs_map k' = (kvs_map k)(s \<mapsto> take (unat ?len) d)"
    using write_key_spec [OF inv, of "pad_key s" s "take (unat ?len) d" ?len "\<lambda>_. True"] pad_key [OF s]
    by (auto simp: unat_of_nat)
  then show "kvs_inv (kvs_put s d k)"
    "kvs_map (kvs_put s d k) r = (if r = s then Some (kvs_comb s (kvs_map k s) d) else kvs_map k r)"
    using comb by (simp_all add: kvs_put_def Let_def)
  obtain k' where "remove_key (pad_key s) k = Some k'" "kvs_inv k'" "kvs_map k' = (kvs_map k)(s := None)"
    using remove_key_spec [OF inv, of "pad_key s" s] pad_key [OF s] by auto
  then show "kvs_inv (kvs_rm s k)" "kvs_map (kvs_rm s k) r = (if r = s then None else kvs_map k r)"
    by (simp_all add: kvs_rm_def)
qed

section \<open>Commands\<close>

text \<open>A command in its message: the key is terminated and the data has the length the message gives.\<close>

definition cmd_ok :: "kvs_cmd \<Rightarrow> bool" where
  "cmd_ok c \<longleftrightarrow> key_array (kc_key c) \<and> length (kc_data c) = unat (kc_len c)"

text \<open>What a command does to a map: return code, answer and the new map.\<close>

definition kvs_spec :: "kvs_cmd \<Rightarrow> (u8 list \<Rightarrow> u8 list option) \<Rightarrow> int \<times> u8 list option \<times> (u8 list \<Rightarrow> u8 list option)" where
  "kvs_spec c m = (let s = the (cstr (kc_key c)) in
     if kc_type c = KVS_PUT then (0, None, m(s \<mapsto> kc_data c))
     else if kc_type c = KVS_GET then (0, Some (case m s of None \<Rightarrow> [] | Some d \<Rightarrow> d), m)
     else if kc_type c = KVS_RM then (0, None, m(s := None))
     else (1, None, m))"

lemma apply_kvs_cmd_spec:
  assumes inv: "kvs_inv k" and c: "cmd_ok c" and mem: "alloc sizeof_list" "alloc (unat (kc_len c))"
  obtains rc r k' where "apply_kvs_cmd alloc c (Some k) = Some (rc, r, Some k')" "kvs_inv k'"
    "kvs_spec c (kvs_map k) = (rc, r, kvs_map k')"
    "kvs_size k' - table_bytes (kvs_tab k') = kvs_size k - table_bytes (kvs_tab k)"
proof -
  have key: "key_array (kc_key c)" "cstr (kc_key c) = Some (the (cstr (kc_key c)))"
    using c cstr_Some by (auto simp: cmd_ok_def)
  have len: "length (kc_data c) = unat (kc_len c)" using c by (simp add: cmd_ok_def)
  consider "kc_type c = KVS_PUT" | "kc_type c = KVS_GET" | "kc_type c = KVS_RM"
    | "kc_type c \<notin> {KVS_PUT, KVS_GET, KVS_RM}" by blast
  then show thesis
  proof cases
    case 1
    obtain k' where "write_key alloc (kc_key c) (kc_len c) (kc_data c) k = Some (0, k')" "kvs_inv k'"
      "kvs_map k' = (kvs_map k)(the (cstr (kc_key c)) \<mapsto> kc_data c)"
      "kvs_size k' - table_bytes (kvs_tab k') = kvs_size k - table_bytes (kvs_tab k)"
      by (rule write_key_spec [OF inv key len mem])
    then show thesis using 1 that [of 0 None k'] by (simp add: apply_kvs_cmd_def kvs_spec_def Let_def)
  next
    case 2
    then show thesis
      using get_value_spec [OF inv key] inv that [of 0 _ k]
      by (simp add: apply_kvs_cmd_def kvs_spec_def kvs_types Let_def)
  next
    case 3
    obtain k' where "remove_key (kc_key c) k = Some k'" "kvs_inv k'"
      "kvs_map k' = (kvs_map k)(the (cstr (kc_key c)) := None)"
      "kvs_size k' - table_bytes (kvs_tab k') = kvs_size k - table_bytes (kvs_tab k)"
      by (rule remove_key_spec [OF inv key])
    then show thesis using 3 that [of 0 None k'] by (simp add: apply_kvs_cmd_def kvs_spec_def kvs_types Let_def)
  next
    case 4
    then show thesis using inv that [of 1 None k] by (simp add: apply_kvs_cmd_def kvs_spec_def Let_def)
  qed
qed




lemma create_kvs_sm_spec:
  assumes "create_kvs_sm alloc n g = Some k"
  shows "kvs_inv k \<and> kvs_map k = Map.empty \<and> kvs_size k = g \<and> table_bytes (kvs_tab k) = 0"
proof -
  obtain n' where n: "n' \<noteq> 0" "k = \<lparr>kvs_tab = \<lparr>kt_size = n', kt_table = replicate (unat n') []\<rparr>, kvs_size = g\<rparr>"
    using assms by (auto simp: create_kvs_sm_def create_kvs_table_def DEFAULT_KVS_SIZE_def Let_def split: if_splits)
  have "concat (replicate m ([] :: kvs_entry list)) = []" for m by (induction m) auto
  then show ?thesis using n by (simp add: kvs_inv_def kvs_map_def table_bytes_def bucket_ok_def Let_def)
qed

text \<open>C7: every command of the key-value store refines its specification on a finite map.
  On a well-formed table and with memory available, PUT binds the string of the key
  to the data, GET answers what is bound (nothing if the key is unbound), RM unbinds the
  key and any other command is an error without effect; the table stays well-formed and \<^verbatim>\<open>kvs_size\<close> follows the
  bytes of its entries.\<close>

theorem apply_kvs_cmd_refines:
  assumes "kvs_inv k" "cmd_ok c" "alloc sizeof_list" "alloc (unat (kc_len c))"
  shows "\<exists>rc r k'. apply_kvs_cmd alloc c (Some k) = Some (rc, r, Some k') \<and> kvs_inv k' \<and>
     kvs_spec c (kvs_map k) = (rc, r, kvs_map k') \<and>
     kvs_size k' - table_bytes (kvs_tab k') = kvs_size k - table_bytes (kvs_tab k)"
  by (rule apply_kvs_cmd_spec [OF assms]) blast

text \<open>A command with a key of two characters.\<close>

definition demo_cmd :: "u8 \<Rightarrow> u8 \<Rightarrow> u8 list \<Rightarrow> kvs_cmd" where
  "demo_cmd ty c d = \<lparr>kc_type = ty, kc_key = [c, 97] @ replicate 62 0, kc_len = of_nat (length d), kc_data = d\<rparr>"

definition demo_kvs :: "u32 \<Rightarrow> kvs" where
  "demo_kvs n = \<lparr>kvs_tab = \<lparr>kt_size = n, kt_table = replicate (unat n) []\<rparr>, kvs_size = 0\<rparr>"

lemma demo_kvs: "n \<noteq> 0 \<Longrightarrow> create_kvs_sm (\<lambda>_. True) n 0 = Some (demo_kvs n)"
  by (simp add: create_kvs_sm_def create_kvs_table_def demo_kvs_def)

lemma demo_cmd: "length d < 2 ^ 16 \<Longrightarrow> cmd_ok (demo_cmd ty c d)"
  by (simp add: cmd_ok_def demo_cmd_def key_array_def KEY_SIZE_def unat_of_nat)

lemma apply_kvs_cmd_refines_witness:
  "\<exists>rc r k'. apply_kvs_cmd (\<lambda>_. True) (demo_cmd KVS_PUT 98 [1, 2]) (Some (demo_kvs 2)) = Some (rc, r, Some k') \<and> kvs_inv k' \<and>
     kvs_spec (demo_cmd KVS_PUT 98 [1, 2]) (kvs_map (demo_kvs 2)) = (rc, r, kvs_map k') \<and>
     kvs_size k' - table_bytes (kvs_tab k') = kvs_size (demo_kvs 2) - table_bytes (kvs_tab (demo_kvs 2))"
  by (rule apply_kvs_cmd_refines) (use create_kvs_sm_spec [OF demo_kvs] in \<open>auto intro: demo_cmd\<close>)



text \<open>C33: a PUT that cannot reallocate the memory of a value loses the value.  When a key is overwritten with a value of
  another length and the reallocation fails, the command reports an error, but the entry stays in the table with
  the new length and no data: reading the key copies that many bytes from a NULL
  pointer, which is undefined.\<close>

theorem write_key_lost_value:
  assumes "kvs_inv k" "cmd_ok c" "kc_type c = KVS_PUT" "kvs_map k (the (cstr (kc_key c))) = Some d"
    and "length d \<noteq> unat (kc_len c)" "kc_len c \<noteq> 0" "\<not> alloc (unat (kc_len c))"
  shows "\<exists>k'. apply_kvs_cmd alloc c (Some k) = Some (1, None, Some k') \<and> get_value k' (kc_key c) = None"
proof -
  let ?s = "the (cstr (kc_key c))" and ?key = "kc_key c"
  have key: "key_array ?key" "cstr ?key = Some ?s" using assms(2) cstr_Some by (auto simp: cmd_ok_def)
  obtain h where h: "hash (kvs_tab k) ?key = Some h" "h < length (kt_table (kvs_tab k))"
    "bucket_ok (kvs_tab k) h (kt_table (kvs_tab k) ! h)" "kvs_map k ?s = bucket_map (kt_table (kvs_tab k) ! h) ?s"
    "lookup_key (kvs_tab k) ?key = Some (h, find_pos ?key (kt_table (kvs_tab k) ! h))"
    using lookup_key_spec [OF assms(1) key(1)] key(2) by (metis option.inject)
  let ?es = "kt_table (kvs_tab k) ! h"
  obtain i where i: "find_pos ?key ?es = Some i"
    using bucket_map_None [OF find_pos_bucket_None [OF h(3) key(2)]] assms(4) h(4) by fastforce
  obtain us e vs where sp: "?es = us @ e # vs" "i = length us" "fst (entry_pair e) = ?s"
    by (rule bucket_split [OF h(3) key(2) i])
  have e: "entry_ok e" "snd (entry_pair e) = d" "?es ! i = e" "i < length ?es"
    using h(3,4) sp assms(4) entry_map_in [OF h(3) sp(1)] by (auto simp: bucket_ok_def)
  then have len: "kb_len (ke_blob e) \<noteq> kc_len c" using entry_ok_value [of e] assms(5) by auto
  let ?e = "e\<lparr>ke_blob := \<lparr>kb_len = kc_len c, kb_data = None\<rparr>\<rparr>"
  define k' where "k' = k\<lparr>kvs_tab := set_bucket h (?es[i := ?e]) (kvs_tab k),
    kvs_size := kvs_size k + (ucast (kc_len c) - ucast (kb_len (ke_blob e)))\<rparr>"
  have pos: "find_pos ?key (es[i := ?e]) = find_pos ?key es" if "i < length es" "es ! i = e" for es
    using that by (induction es arbitrary: i) (auto split: nat.splits simp: nth_Cons' list_update_code)
  have "apply_kvs_cmd alloc c (Some k) = Some (1, None, Some k')"
    using assms(3,7) h(5) i e(3) len by (simp add: apply_kvs_cmd_def write_key_def overwrite_def Let_def k'_def)
  moreover have "get_value k' ?key = None"
    using h(1,2) i e(3,4) pos [of ?es] assms(6)
    by (simp add: get_value_def lookup_key_def hash_def k'_def set_bucket_def)
  ultimately show ?thesis by blast
qed

lemma write_key_lost_value_witness:
  "\<exists>k k'. apply_kvs_cmd (\<lambda>_. True) (demo_cmd KVS_PUT 98 [1, 2]) (Some (demo_kvs 2)) = Some (0, None, Some k) \<and>
     apply_kvs_cmd (\<lambda>n. n \<noteq> 3) (demo_cmd KVS_PUT 98 [1, 2, 3]) (Some k) = Some (1, None, Some k') \<and>
     get_value k' (kc_key (demo_cmd KVS_PUT 98 [1, 2, 3])) = None"
proof -
  let ?c = "demo_cmd KVS_PUT 98 [1, 2]" and ?d = "demo_cmd KVS_PUT 98 [1, 2, 3]"
  have inv: "kvs_inv (demo_kvs 2)" using create_kvs_sm_spec [OF demo_kvs, of 2] by simp
  obtain rc r k where k: "apply_kvs_cmd (\<lambda>_. True) ?c (Some (demo_kvs 2)) = Some (rc, r, Some k)" "kvs_inv k"
    "kvs_spec ?c (kvs_map (demo_kvs 2)) = (rc, r, kvs_map k)"
    by (rule apply_kvs_cmd_spec [OF inv demo_cmd, of "[1, 2]" "\<lambda>_. True" KVS_PUT 98]) simp_all
  have "kvs_map k = (kvs_map (demo_kvs 2))(the (cstr (kc_key ?d)) \<mapsto> [1, 2])" "rc = 0" "r = None"
    using k(3) by (simp_all add: kvs_spec_def Let_def demo_cmd_def)
  then have r: "rc = 0" "r = None" "kvs_map k (the (cstr (kc_key ?d))) = Some [1, 2]" by simp_all
  have "\<exists>k'. apply_kvs_cmd (\<lambda>n. n \<noteq> 3) ?d (Some k) = Some (1, None, Some k') \<and> get_value k' (kc_key ?d) = None"
    by (rule write_key_lost_value [OF k(2) _ _ r(3)]) (auto intro!: demo_cmd, auto simp: demo_cmd_def)
  then show ?thesis using k(1) r by blast
qed

end
