(* ===== verification/Dare_Proxy_Props.thy ===== *)
theory Dare_Proxy_Props
  imports Dare_Proxy Dare_Demo
begin

text \<open>
  The proxy keeps a session per connection: the requests of a connection carry its
  connection id and consecutive request ids, in the order of the calls.  A snapshot loaded on another
  server stores and replays every record of the dump.  The theorems also show what
  goes wrong: calls on connections the leader does not know, and the contents of the records
  that are stored for entries of the log.
\<close>

section \<open>Sessions\<close>

lemma le_inj [simp]: "le32 a = le32 b \<longleftrightarrow> a = b" "le16 c = le16 d \<longleftrightarrow> c = d"
  using from_le_le(2) from_le_le(1) by metis+

text \<open>A hash table whose elements are blocks in use, found under the key stored in the block.\<close>

definition index_ok :: "uthash \<Rightarrow> (socket_pair \<Rightarrow> u8 list) \<Rightarrow> 'o proxy_node \<Rightarrow> bool" where
  "index_ok h keyof p \<longleftrightarrow> uthash_inv h \<and> (\<forall>k a. ut_find h k = Some a \<longrightarrow> a < next_block p \<and> keyof (pairs p a) = k)"

definition leader_key :: "socket_pair \<Rightarrow> u8 list" where "leader_key pr = le32 (sp_clt_id pr)"
definition follower_key :: "socket_pair \<Rightarrow> u8 list" where "follower_key pr = le16 (sp_connection_id pr)"

definition proxy_inv :: "'o proxy_node \<Rightarrow> bool" where
  "proxy_inv p \<longleftrightarrow> index_ok (leader_hash_map p) leader_key p \<and> index_ok (follower_hash_map p) follower_key p \<and>
     ran (ut_find (leader_hash_map p)) \<inter> ran (ut_find (follower_hash_map p)) = {}"

text \<open>The connection id and last request id of a file descriptor, and the socket of a connection id.\<close>

definition session :: "'o proxy_node \<Rightarrow> u32 \<Rightarrow> (u16 \<times> u64) option" where
  "session p fd = map_option (\<lambda>a. (sp_connection_id (pairs p a), sp_req_id (pairs p a)))
     (ut_find (leader_hash_map p) (le32 fd))"

definition replay_socket :: "'o proxy_node \<Rightarrow> u16 \<Rightarrow> int option" where
  "replay_socket p c = map_option (\<lambda>a. sp_p_s (pairs p a)) (ut_find (follower_hash_map p) (le16 c))"


definition buckets_fit :: "uthash \<Rightarrow> bool" where
  "buckets_fit h \<longleftrightarrow> (case h of None \<Rightarrow> True | Some t \<Rightarrow> ut_log2 t < 31)"








section \<open>Requests\<close>








lemma proxy_frame [simp]:
  "proxy_inv (p\<lparr>cur_rec := r\<rparr>) = proxy_inv p" "session (p\<lparr>cur_rec := r\<rparr>) = session p"
  "replay_socket (p\<lparr>cur_rec := r\<rparr>) = replay_socket p"
  "proxy_inv (p\<lparr>tailq := q\<rparr>) = proxy_inv p" "session (p\<lparr>tailq := q\<rparr>) = session p"
  "replay_socket (p\<lparr>tailq := q\<rparr>) = replay_socket p"
  by (simp_all add: proxy_inv_def index_ok_def session_def [abs_def] replay_socket_def [abs_def])





text \<open>A proxy after its start.\<close>

definition fresh_proxy :: "'o \<Rightarrow> 'o proxy_node" where
  "fresh_proxy o0 = \<lparr>leader_hash_map = None, follower_hash_map = None, highest_rec = 0, cur_rec = 0, pair_count = 0,
     db_ptr = True, records_len = 0, pairs = (\<lambda>_. null_pair), next_block = 0, tailq = [],
     inner_threads = [7], os = o0\<rparr>"


lemma fresh_proxy_session: "session (fresh_proxy o0) = Map.empty" "buckets_fit (leader_hash_map (fresh_proxy o0))"
  by (simp_all add: fresh_proxy_def session_def fun_eq_iff buckets_fit_def)


text \<open>A call on a connection that the leader has no session for crashes it.  When the application of a
  leader reads from or closes a socket that was not accepted while the server was leader, the lookup
  yields NULL, which is dereferenced.\<close>

theorem unknown_connection_crashes:
  assumes "session p fd = None" "tid \<notin> set (inner_threads p)"
  shows "proxy_on_read buf fd tid True node p = None \<and> proxy_on_close fd tid True node p = None"
proof -
  have "HASH_FIND (leader_hash_map p) (le32 fd) = None" using assms(1) by (simp add: session_def ut_find_def)
  then show ?thesis
    using assms(2) by (auto simp: proxy_on_read_def proxy_on_close_def on_call_def is_inner_def actions
        leader_handle_submit_req_def submit_send_def submit_close_def Let_def)
qed

lemma unknown_connection_crashes_witness:
  "proxy_on_read [1, 2] 5 3 True 0 (fresh_proxy ()) = None \<and> proxy_on_close 5 3 True 0 (fresh_proxy ()) = None"
  by (rule unknown_connection_crashes) (simp_all add: fresh_proxy_session, simp add: fresh_proxy_def)

text \<open>C34: connection ids.  The id of a connection determines the node and the counter it was made from, so the ids of
  different nodes never meet; the ids of one node repeat exactly after a multiple of 256 connections.\<close>

theorem gen_key_unique:
  "(gen_key n c = gen_key m d \<longleftrightarrow> n = m \<and> c = d) \<and> (gen_key n (c + of_nat k) = gen_key n c \<longleftrightarrow> 256 dvd k)"
proof -
  have inj: "gen_key n c = gen_key m d \<longleftrightarrow> n = m \<and> c = d" for n m c d
  proof
    assume eq: "gen_key n c = gen_key m d"
    have low: "(ucast (gen_key n c) :: u8) = c" for n c
      by (rule bit_word_eqI) (auto simp: gen_key_def bit_simps)
    have high: "(ucast (drop_bit 8 (gen_key n c)) :: u8) = n" for n c
      by (rule bit_word_eqI) (auto simp: gen_key_def bit_simps dest: bit_imp_le_length)
    show "n = m \<and> c = d" using low [of n c] low [of m d] high [of n c] high [of m d] eq by metis
  qed simp
  have "c + of_nat k = c \<longleftrightarrow> (of_nat k :: u8) = 0" by simp
  also have "\<dots> \<longleftrightarrow> 256 dvd k" by (simp add: word_of_nat_eq_0_iff)
  finally show ?thesis using inj by simp
qed



section \<open>Snapshots\<close>

text \<open>The bytes of a record as memory, and the records the code writes: their length is the one the header gives.\<close>

definition mem_of :: "u8 list \<Rightarrow> mem" where
  "mem_of bs = (\<lambda>i. if i < length bs then bs ! i else 0)"

definition record_len :: "mem \<Rightarrow> nat" where
  "record_len m = (if msg_action m = SEND then PROXY_SEND_MSG_SIZE m else 4)"

definition wf_record :: "u8 list \<Rightarrow> bool" where
  "wf_record r \<longleftrightarrow> msg_action (mem_of r) \<in> {CONNECT, SEND, CLOSE} \<and> 4 \<le> length r \<and> length r = record_len (mem_of r)"

text \<open>Storing and replaying the records of a list, one after the other.\<close>

fun replay_records :: "'o sys \<Rightarrow> u8 list list \<Rightarrow> 'o proxy_node \<Rightarrow> 'o proxy_node option" where
  "replay_records sys [] p = Some p"
| "replay_records sys (r # rs) p = do { (k, p1) \<leftarrow> load_record sys (mem_of r) p; replay_records sys rs p1 }"

text \<open>A record is read from its own bytes only.\<close>

lemma load_record_local:
  assumes wf: "wf_record r" and m: "\<And>i. i < length r \<Longrightarrow> m i = r ! i"
  shows "load_record sys m p = load_record sys (mem_of r) p"
    and "load_record sys m p = Some (k, p') \<Longrightarrow> k = length r"
proof -
  have len: "4 \<le> length r" using wf by (simp add: wf_record_def)
  have agree: "m i = mem_of r i" if "i < length r" for i using m that by (simp add: mem_of_def)
  have load: "load m a n = load (mem_of r) a n" if "a + n \<le> length r" for a n
    by (rule load_cong) (use agree that in auto)
  have hd: "msg_action m = msg_action (mem_of r)" "msg_connection_id m = msg_connection_id (mem_of r)"
    using len agree load [of 0 2] by (auto simp: msg_action_def rd8_def msg_connection_id_def rd16_def)
  have send: "msg_cmd_len m = msg_cmd_len (mem_of r) \<and> msg_cmd m = msg_cmd (mem_of r) \<and> length r = PROXY_SEND_MSG_SIZE (mem_of r)"
    if "msg_action m = SEND"
  proof -
    have l: "length r = unat (msg_cmd_len (mem_of r)) + 24"
      using wf that hd by (simp add: wf_record_def record_len_def PROXY_SEND_MSG_SIZE_def)
    then have "msg_cmd_len m = msg_cmd_len (mem_of r)" using load [of 8 2] by (simp add: msg_cmd_len_def rd16_def)
    then show ?thesis using l load [of 10 "unat (msg_cmd_len (mem_of r))"] by (simp add: msg_cmd_def PROXY_SEND_MSG_SIZE_def)
  qed
  have short: "length r = 4" if "msg_action m \<noteq> SEND" using wf that hd by (simp add: wf_record_def record_len_def)
  have l4: "load m 0 4 = load (mem_of r) 0 4" using load len by simp
  have lr: "load m 0 (length r) = load (mem_of r) 0 (length r)" using load by simp
  show "load_record sys m p = load_record sys (mem_of r) p"
  proof (cases "msg_action m = SEND")
    case True
    then have "load m 0 (PROXY_SEND_MSG_SIZE m) = load (mem_of r) 0 (PROXY_SEND_MSG_SIZE (mem_of r))"
      using send lr by (simp add: PROXY_SEND_MSG_SIZE_def)
    then show ?thesis using True hd send by (simp add: load_record_def PROXY_SEND_MSG_SIZE_def)
  next
    case False
    then show ?thesis using hd l4
      by (simp add: load_record_def PROXY_CONNECT_MSG_SIZE_def PROXY_CLOSE_MSG_SIZE_def)
  qed
  show "load_record sys m p = Some (k, p') \<Longrightarrow> k = length r"
    using send short wf hd
    by (auto simp: load_record_def wf_record_def Let_def PROXY_SEND_MSG_SIZE_def PROXY_CONNECT_MSG_SIZE_def
        PROXY_CLOSE_MSG_SIZE_def actions split: if_splits bind_splits)
qed

lemma load_loop_records:
  assumes "\<forall>r\<in>set rs. wf_record r" "len + length (concat rs) < 2 ^ 32"
    and "\<And>i. i < length (concat rs) \<Longrightarrow> buf (len + i) = concat rs ! i"
  shows "load_loop sys buf (of_nat len) (of_nat (len + length (concat rs))) p = replay_records sys rs p"
  using assms
proof (induction rs arbitrary: len p)
  case Nil
  then show ?case by (subst load_loop.simps) simp
next
  case (Cons r rs)
  let ?n = "of_nat (len + length (concat (r # rs))) :: u32"
  have wf: "wf_record r" "0 < length r" using Cons.prems(1) by (auto simp: wf_record_def)
  have fit: "unat (of_nat j :: u32) = j" if "j < 2 ^ 32" for j using that by (simp add: unat_of_nat)
  have ul: "unat (of_nat len :: u32) = len" "unat ?n = len + length (concat (r # rs))"
    by (rule fit; use Cons.prems(2) in linarith)+
  then have lt: "(of_nat len :: u32) < ?n" using wf(2) by (simp add: word_less_nat_alt)
  have bytes: "buf (len + i) = r ! i" if "i < length r" for i using Cons.prems(3) [of i] that by (simp add: nth_append)
  have rec: "load_record sys (\<lambda>k. buf (unat (of_nat len :: u32) + k)) p = load_record sys (mem_of r) p"
    by (rule load_record_local(1) [OF wf(1)]) (simp add: ul bytes)
  have step: "load_loop sys buf (of_nat len + of_nat k) ?n p1 = replay_records sys rs p1"
    if "load_record sys (mem_of r) p = Some (k, p1)" for k p1
  proof -
    have k: "k = length r" using load_record_local(2) [OF wf(1) _ that] by (simp add: mem_of_def)
    have "load_loop sys buf (of_nat (len + length r)) (of_nat (len + length r + length (concat rs))) p1 = replay_records sys rs p1"
      using Cons.prems(2,3) by (intro Cons.IH) (use Cons.prems(1) in \<open>auto simp: add.assoc nth_append\<close>)
    then show ?thesis using k by (simp add: add.assoc)
  qed
  show ?case
    by (subst load_loop.simps) (use lt rec step in \<open>auto split: bind_splits\<close>)
qed

text \<open>
  What the database promises: a record put with \<open>DB_APPEND\<close> comes after all others, and sockets do
  not concern it.
\<close>

definition db_appends :: "'o sys \<Rightarrow> bool" where
  "db_appends sys \<longleftrightarrow> (\<forall>d o0. db_cursor sys (snd (db_put sys d o0)) = db_cursor sys o0 @ [d]) \<and>
     (\<forall>o0. db_cursor sys (snd (os_socket sys o0)) = db_cursor sys o0) \<and>
     (\<forall>fd o0. db_cursor sys (snd (os_connect sys fd o0)) = db_cursor sys o0) \<and>
     (\<forall>fd o0. db_cursor sys (snd (os_getfl sys fd o0)) = db_cursor sys o0) \<and>
     (\<forall>fd v o0. db_cursor sys (snd (os_setfl sys fd v o0)) = db_cursor sys o0) \<and>
     (\<forall>fd o0. db_cursor sys (snd (os_setsockopt sys fd o0)) = db_cursor sys o0) \<and>
     (\<forall>fd d o0. db_cursor sys (snd (os_write sys fd d o0)) = db_cursor sys o0) \<and>
     (\<forall>fd o0. db_cursor sys (snd (os_close sys fd o0)) = db_cursor sys o0)"

text \<open>Actions leave the database alone; a stored record is appended.\<close>

lemma actions_db:
  assumes "db_appends sys"
  shows "do_action_connect sys c p = Some p' \<Longrightarrow> db_cursor sys (os p') = db_cursor sys (os p) \<and> db_ptr p' = db_ptr p"
    and "db_cursor sys (os (do_action_send sys c d p)) = db_cursor sys (os p) \<and> db_ptr (do_action_send sys c d p) = db_ptr p"
    and "db_cursor sys (os (do_action_close sys c p)) = db_cursor sys (os p) \<and> db_ptr (do_action_close sys c p) = db_ptr p"
proof -
  have sock: "db_cursor sys o1 = db_cursor sys o0" if "os_socket sys o0 = (n, o1)" for n o0 o1
    using assms that unfolding db_appends_def by (metis snd_conv)
  have fl: "db_cursor sys o1 = db_cursor sys o0" if "os_getfl sys fd o0 = (n, o1)" for n fd o0 o1
    using assms that unfolding db_appends_def by (metis snd_conv)
  have block: "db_cursor sys (set_socket_blocking sys fd b o0) = db_cursor sys o0" for fd b o0
    using assms fl by (auto simp: set_socket_blocking_def db_appends_def Let_def split: prod.splits)
  have rest: "db_cursor sys (snd (os_connect sys fd o0)) = db_cursor sys o0"
    "db_cursor sys (snd (os_setsockopt sys fd o0)) = db_cursor sys o0"
    "db_cursor sys (snd (os_write sys fd d o0)) = db_cursor sys o0"
    "db_cursor sys (snd (os_close sys fd o0)) = db_cursor sys o0" for fd d o0
    using assms by (simp_all add: db_appends_def)
  show "do_action_connect sys c p = Some p' \<Longrightarrow> db_cursor sys (os p') = db_cursor sys (os p) \<and> db_ptr p' = db_ptr p"
    using sock by (auto simp: do_action_connect_def Let_def block rest split: if_splits prod.splits bind_splits)
  show "db_cursor sys (os (do_action_send sys c d p)) = db_cursor sys (os p) \<and> db_ptr (do_action_send sys c d p) = db_ptr p"
    "db_cursor sys (os (do_action_close sys c p)) = db_cursor sys (os p) \<and> db_ptr (do_action_close sys c p) = db_ptr p"
    by (auto simp: do_action_send_def do_action_close_def rest split: option.splits)
qed

lemma store_record_db:
  assumes "db_appends sys" "db_ptr p"
  shows "db_cursor sys (os (snd (store_record sys d p))) = db_cursor sys (os p) @ [d]" "db_ptr (snd (store_record sys d p))"
proof -
  have "db_cursor sys (snd (db_put sys d (os p))) = db_cursor sys (os p) @ [d]" using assms(1) by (simp add: db_appends_def)
  then show "db_cursor sys (os (snd (store_record sys d p))) = db_cursor sys (os p) @ [d]" "db_ptr (snd (store_record sys d p))"
    using assms(2) by (auto simp: store_record_def Let_def split: prod.splits)
qed

lemma load_mem_of: "load (mem_of r) 0 (length r) = r"
  by (rule nth_equalityI) (simp_all add: mem_of_def)

lemma load_record_db:
  assumes sys: "db_appends sys" and db: "db_ptr p" and wf: "wf_record r" and l: "load_record sys (mem_of r) p = Some (k, p')"
  shows "db_cursor sys (os p') = db_cursor sys (os p) @ [r] \<and> db_ptr p'"
proof -
  have "k = length r" by (rule load_record_local(2) [OF wf _ l]) (simp add: mem_of_def)
  then have "load (mem_of r) 0 k = r" by (simp add: load_mem_of)
  then show ?thesis
    using l store_record_db [OF sys db] actions_db [OF sys]
    by (auto simp: load_record_def Let_def split: if_splits bind_splits)
qed

lemma replay_records_db:
  "db_appends sys \<Longrightarrow> db_ptr q \<Longrightarrow> \<forall>r\<in>set rs. wf_record r \<Longrightarrow> replay_records sys rs q = Some q' \<Longrightarrow>
     db_cursor sys (os q') = db_cursor sys (os q) @ rs"
proof (induction rs arbitrary: q)
  case (Cons r rs)
  obtain k q1 where q1: "load_record sys (mem_of r) q = Some (k, q1)" "replay_records sys rs q1 = Some q'"
    using Cons.prems(4) by (auto split: bind_splits)
  have "db_cursor sys (os q1) = db_cursor sys (os q) @ [r] \<and> db_ptr q1"
    by (rule load_record_db [OF Cons.prems(1,2) _ q1(1)]) (use Cons.prems(3) in simp)
  then show ?case using Cons.IH [OF Cons.prems(1) _ _ q1(2)] Cons.prems(3) by simp
qed simp

text \<open>C21: a snapshot carries the database to another server.  If the database holds records of the three kinds of message,
  and the buffer holds their dump, then loading the buffer stores and replays exactly these
  records in order, and nothing else; on a database that appends, the receiver's records are then its own
  followed by those of the sender.\<close>

theorem snapshot_roundtrip:
  assumes "stablestorage_dump_records sys p = Some dump" "\<forall>r\<in>set (db_cursor sys (os p)). wf_record r" "length dump < 2 ^ 32"
    and "\<forall>i < length dump. buf i = dump ! i" "db_appends sys'" "db_ptr q"
  shows "stablestorage_load_records sys' buf (of_nat (length dump)) q = replay_records sys' (db_cursor sys (os p)) q \<and>
    (\<forall>q'. replay_records sys' (db_cursor sys (os p)) q = Some q' \<longrightarrow>
       db_cursor sys' (os q') = db_cursor sys' (os q) @ db_cursor sys (os p))"
proof -
  have "dump = concat (db_cursor sys (os p))"
    using assms(1) by (simp add: stablestorage_dump_records_def dump_records_def split: if_splits)
  then show ?thesis
    using load_loop_records [of "db_cursor sys (os p)" 0 buf sys' q] replay_records_db [OF assms(5,6,2)] assms(2-4)
    by (simp add: stablestorage_load_records_def)
qed

text \<open>A system whose state is the list of records and the list of writes; every socket is 9.\<close>

definition demo_sys :: "(u8 list list \<times> (int \<times> u8 list) list) sys" where
  "demo_sys = \<lparr>os_socket = (\<lambda>o0. (9, o0)), os_connect = (\<lambda>_ o0. (0, o0)), os_getfl = (\<lambda>_ o0. (0, o0)),
     os_setfl = (\<lambda>_ _ o0. (0, o0)), os_setsockopt = (\<lambda>_ o0. (0, o0)),
     os_write = (\<lambda>fd d (db, ws). (int (length d), (db, ws @ [(fd, d)]))), os_close = (\<lambda>_ o0. (0, o0)),
     db_put = (\<lambda>d (db, ws). (0, (db @ [d], ws))), db_cursor = fst\<rparr>"

lemma demo_sys_appends: "db_appends demo_sys"
  by (auto simp: db_appends_def demo_sys_def)

text \<open>A CLOSE record and a SEND record with a command of one byte.\<close>

definition demo_records :: "u8 list list" where
  "demo_records = [[1, 2, 6, 0], [1, 2, 5, 0, 0, 0, 0, 0, 1, 0, 77] @ replicate 14 0]"

lemma demo_records_wf: "\<forall>r\<in>set demo_records. wf_record r"
proof -
  have "wf_record [1, 2, 6, 0]" by code_simp
  moreover have "wf_record ([1, 2, 5, 0, 0, 0, 0, 0, 1, 0, 77] @ replicate 14 0)" by code_simp
  ultimately show ?thesis by (simp add: demo_records_def)
qed

lemma snapshot_roundtrip_witness:
  "\<exists>q'. stablestorage_load_records demo_sys (mem_of (concat demo_records)) 29 (fresh_proxy ([], [])) = Some q' \<and>
     fst (os q') = demo_records"
proof -
  let ?p = "fresh_proxy (demo_records, [])" and ?q = "fresh_proxy ([], [])"
  have cur: "db_cursor demo_sys (os ?p) = demo_records" "db_ptr ?q" by (simp_all add: demo_sys_def fresh_proxy_def)
  then have dump: "stablestorage_dump_records demo_sys ?p = Some (concat demo_records)" "length (concat demo_records) = 29"
    by (simp_all add: stablestorage_dump_records_def dump_records_def fresh_proxy_def) (simp add: demo_records_def)
  have "replay_records demo_sys demo_records ?q \<noteq> None" by code_simp
  then obtain q' where q': "replay_records demo_sys demo_records ?q = Some q'" by blast
  have "stablestorage_load_records demo_sys (mem_of (concat demo_records)) (of_nat (length (concat demo_records))) ?q
      = replay_records demo_sys (db_cursor demo_sys (os ?p)) ?q \<and>
    (\<forall>q'. replay_records demo_sys (db_cursor demo_sys (os ?p)) ?q = Some q' \<longrightarrow>
       db_cursor demo_sys (os q') = db_cursor demo_sys (os ?q) @ db_cursor demo_sys (os ?p))"
    by (rule snapshot_roundtrip [OF dump(1)])
      (simp_all add: cur dump(2) demo_records_wf demo_sys_appends, simp add: mem_of_def dump(2))
  then show ?thesis using q' cur dump by (simp add: demo_sys_def) (simp add: fresh_proxy_def)
qed

section \<open>What is stored for an entry of the log\<close>

lemma rd16_zero: "m a = 0 \<Longrightarrow> m (Suc a) = 0 \<Longrightarrow> rd16 m a = 0"
  by (simp add: rd16_def load_def upt_rec numeral_2_eq_2)

text \<open>C36: the record stored for a SEND entry does not hold its command.  The server passes the address of
  the field \<^verbatim>\<open>clt_id\<close> of a log entry; the proxy reads it as a message of another layout, in which the length of
  the command lies on the reply bytes 4 and 5 of the entry.  While these are zero, 24 bytes are stored, which end before the
  command of the entry (byte 48), and replaying the record sends nothing to the application.\<close>

theorem persisted_send_has_no_command:
  assumes "ents (a + off_type) = SEND" "ents (a + off_reply + 4) = 0" "ents (a + off_reply + 5) = 0"
  shows "stablestorage_save_request sys (\<lambda>k. ents (a + off_clt_id + k)) p
      = snd (store_record sys (load ents (a + off_clt_id) 24) p) \<and>
    a + off_clt_id + 24 \<le> a + off_data \<and>
    load_record sys (mem_of (load ents (a + off_clt_id) 24)) q
      = Some (24, do_action_send sys (rd16 ents (a + off_clt_id)) []
          (snd (store_record sys (load ents (a + off_clt_id) 24) q)))"
proof -
  let ?m = "\<lambda>k. ents (a + off_clt_id + k)" and ?r = "load ents (a + off_clt_id) 24"
  have load: "load ?m b n = load ents (a + off_clt_id + b) n" for b n
    by (rule nth_equalityI) (simp_all add: add.assoc)
  have at: "mem_of ?r i = ?m i" if "i < 24" for i using that by (simp add: mem_of_def)
  have act: "msg_action ?m = SEND" "msg_cmd_len ?m = 0"
    using assms rd16_zero [of ?m 8] by (simp_all add: msg_action_def rd8_def msg_cmd_len_def layout_simps add.commute)
  have loc: "load (mem_of ?r) b n = load ?m b n" if "b + n \<le> 24" for b n
    by (rule load_cong) (use that at in simp)
  have act': "msg_action (mem_of ?r) = SEND" "msg_cmd_len (mem_of ?r) = 0"
    "msg_connection_id (mem_of ?r) = rd16 ents (a + off_clt_id)"
    using act at [of 2] loc [of 8 2] loc [of 0 2] load [of 0 2]
    by (simp_all add: msg_action_def rd8_def msg_cmd_len_def msg_connection_id_def rd16_def)
  have sz: "PROXY_SEND_MSG_SIZE ?m = 24" "PROXY_SEND_MSG_SIZE (mem_of ?r) = 24" "msg_cmd (mem_of ?r) = []"
    using act act' by (simp_all add: PROXY_SEND_MSG_SIZE_def msg_cmd_def)
  have "load (mem_of ?r) 0 24 = ?r" using loc [of 0 24] load [of 0 24] by simp
  then show ?thesis
    using act act' sz load [of 0 24]
    by (simp add: stablestorage_save_request_def load_record_def actions Let_def layout_simps)
qed

lemma persisted_send_has_no_command_witness:
  "stablestorage_save_request demo_sys (\<lambda>k. (wr8 (\<lambda>_. 0) 26 5) (0 + off_clt_id + k)) (fresh_proxy ([], []))
     = snd (store_record demo_sys (load (wr8 (\<lambda>_. 0) 26 5) (0 + off_clt_id) 24) (fresh_proxy ([], [])))"
  using persisted_send_has_no_command [of "wr8 (\<lambda>_. 0) 26 5" 0 demo_sys "fresh_proxy ([], [])"]
  by (simp add: wr8_def store_def actions layout_simps)

end
