(* ===== verification/Dare_Ep_Erase.thy ===== *)
theory Dare_Ep_Erase
  imports Dare_Ep_Db "HOL-Library.Monad_Syntax" "HOL-Library.Multiset"
begin

text \<open>
  The rest of the endpoint database: erasing a node from the red-black tree
  (\<^verbatim>\<open>__rb_erase_augmented\<close> and \<^verbatim>\<open>____rb_erase_color\<close>), and the walks in symmetric order and in
  postorder over which the other functions iterate.  Erasing keeps the tree sorted and
  balanced and never follows a missing sibling; both walks visit every node once.
\<close>

section \<open>Rebalancing after a removal\<close>

text \<open>
  Cases 2 to 4 of \<^verbatim>\<open>____rb_erase_color\<close>: \<open>n\<close> is the node whose paths have one black node too few, \<open>c\<close> and \<open>x\<close> are
  its parent, and the last argument is its black sibling.  The result is the subtree in place of the parent
  and whether it still has one black node too few.
\<close>

fun fix_left :: "'a rbt \<Rightarrow> color \<Rightarrow> 'a \<Rightarrow> 'a rbt \<Rightarrow> ('a rbt \<times> bool) option" where
  "fix_left n c x Leaf = None"
| "fix_left n c x (Node sl sc sx sr) =
     (if is_red sr then Some (Node (Node n Black x sl) c sx (set_black sr), False)
      else case sl of
        Node a Red y b \<Rightarrow> Some (Node (Node n Black x a) c y (Node (set_black b) Black sx sr), False)
      | _ \<Rightarrow> Some (Node n Black x (Node sl Red sx sr), c = Black))"

fun fix_right :: "'a rbt \<Rightarrow> color \<Rightarrow> 'a \<Rightarrow> 'a rbt \<Rightarrow> ('a rbt \<times> bool) option" where
  "fix_right Leaf c x n = None"
| "fix_right (Node sl sc sx sr) c x n =
     (if is_red sl then Some (Node (set_black sl) c sx (Node sr Black x n), False)
      else case sr of
        Node a Red y b \<Rightarrow> Some (Node (Node sl Black sx (set_black a)) c y (Node b Black x n), False)
      | _ \<Rightarrow> Some (Node (Node sl Red sx sr) Black x n, c = Black))"

text \<open>
  The loop.  A red sibling is first rotated above the parent, which becomes red, so that the other
  cases end the loop; \<open>None\<close> is the dereference of a missing node.
\<close>

fun rb_erase_color :: "'a rbt \<Rightarrow> 'a step list \<Rightarrow> 'a rbt option" where
  "rb_erase_color n [] = Some n"
| "rb_erase_color n (L c x s # p) =
     (case s of
        Node Leaf Red sx sr \<Rightarrow> None
      | Node sl Red sx sr \<Rightarrow> map_option (\<lambda>(t, deficit). plug t (L c sx sr # p)) (fix_left n Red x (set_black sl))
      | _ \<Rightarrow> (case fix_left n c x s of
                None \<Rightarrow> None
              | Some (t, deficit) \<Rightarrow> if deficit then rb_erase_color t p else Some (plug t p)))"
| "rb_erase_color n (R s c x # p) =
     (case s of
        Node sl Red sx Leaf \<Rightarrow> None
      | Node sl Red sx sr \<Rightarrow> map_option (\<lambda>(t, deficit). plug t (R sl c sx # p)) (fix_right (set_black sr) Red x n)
      | _ \<Rightarrow> (case fix_right s c x n of
                None \<Rightarrow> None
              | Some (t, deficit) \<Rightarrow> if deficit then rb_erase_color t p else Some (plug t p)))"

section \<open>Erasing a node\<close>

text \<open>The leftmost node of a tree that is not empty: its colour, its element, its right child and the path to it.\<close>

fun rb_min :: "color \<Rightarrow> 'a \<Rightarrow> 'a rbt \<Rightarrow> 'a rbt \<Rightarrow> 'a step list \<Rightarrow> color \<times> 'a \<times> 'a rbt \<times> 'a step list" where
  "rb_min c x r Leaf p = (c, x, r, p)"
| "rb_min c x r (Node ll lc lx lr) p = rb_min lc lx lr ll (L c x r # p)"

fun recolor :: "color \<Rightarrow> 'a rbt \<Rightarrow> 'a rbt" where
  "recolor c Leaf = Leaf"
| "recolor c (Node l _ x r) = Node l c x r"

text \<open>
  A node with at most one child is replaced by it; otherwise the successor takes its place and its
  colour.  The loop runs when a black node without a child has gone.
\<close>

definition rb_erase :: "'a rbt \<Rightarrow> color \<Rightarrow> 'a rbt \<Rightarrow> 'a step list \<Rightarrow> 'a rbt option" where
  "rb_erase l c r p =
     (case l of
        Leaf \<Rightarrow> (case r of
            Leaf \<Rightarrow> if c = Black then rb_erase_color Leaf p else Some (plug Leaf p)
          | Node _ _ _ _ \<Rightarrow> Some (plug (recolor c r) p))
      | Node _ _ _ _ \<Rightarrow> (case r of
            Leaf \<Rightarrow> Some (plug (recolor c l) p)
          | Node rl rc rx rr \<Rightarrow>
              (case rb_min rc rx rr rl [] of (sc, sx, child2, q) \<Rightarrow>
                 let path = q @ R l c sx # p in
                 case child2 of
                   Node _ _ _ _ \<Rightarrow> Some (plug (set_black child2) path)
                 | Leaf \<Rightarrow> if sc = Black then rb_erase_color Leaf path else Some (plug Leaf path))))"

fun ep_find :: "ep_tree \<Rightarrow> u16 \<Rightarrow> dare_ep step list \<Rightarrow> (ep_tree \<times> color \<times> dare_ep \<times> ep_tree \<times> dare_ep step list) option" where
  "ep_find Leaf lid p = None"
| "ep_find (Node l c ep r) lid p =
     (if lid < ep_lid ep then ep_find l lid (L c ep r # p)
      else if lid > ep_lid ep then ep_find r lid (R l c ep # p)
      else Some (l, c, ep, r, p))"

text \<open>\<^verbatim>\<open>ep_erase\<close>: the tree and the endpoint that is released.\<close>

definition ep_erase :: "ep_tree \<Rightarrow> u16 \<Rightarrow> (ep_tree \<times> dare_ep option) option" where
  "ep_erase root lid =
     (case ep_find root lid [] of
        None \<Rightarrow> Some (root, None)
      | Some (l, c, ep, r, p) \<Rightarrow> map_option (\<lambda>t. (t, Some ep)) (rb_erase l c r p))"

section \<open>Walking over the tree\<close>

text \<open>
  A pointer to a node of the tree: the subtree below it and the path above it.  \<^verbatim>\<open>NULL\<close> is \<open>None\<close>; the test
  of \<^verbatim>\<open>RB_EMPTY_NODE\<close>, which holds of nodes outside every tree, is false for these pointers.
\<close>

type_synonym 'a cursor = "'a rbt \<times> 'a step list"

fun rb_leftmost :: "'a rbt \<Rightarrow> 'a step list \<Rightarrow> 'a cursor" where
  "rb_leftmost (Node (Node ll lc lx lr) c x r) p = rb_leftmost (Node ll lc lx lr) (L c x r # p)"
| "rb_leftmost t p = (t, p)"

fun rb_rightmost :: "'a rbt \<Rightarrow> 'a step list \<Rightarrow> 'a cursor" where
  "rb_rightmost (Node l c x (Node rl rc rx rr)) p = rb_rightmost (Node rl rc rx rr) (R l c x # p)"
| "rb_rightmost t p = (t, p)"

definition rb_first :: "'a rbt \<Rightarrow> 'a cursor option" where
  "rb_first root = (if root = Leaf then None else Some (rb_leftmost root []))"

definition rb_last :: "'a rbt \<Rightarrow> 'a cursor option" where
  "rb_last root = (if root = Leaf then None else Some (rb_rightmost root []))"

text \<open>The loops that go up while the node is the right (left) child.\<close>

fun up_right :: "'a rbt \<Rightarrow> 'a step list \<Rightarrow> 'a cursor option" where
  "up_right t [] = None"
| "up_right t (L c x r # p) = Some (Node t c x r, p)"
| "up_right t (R l c x # p) = up_right (Node l c x t) p"

fun up_left :: "'a rbt \<Rightarrow> 'a step list \<Rightarrow> 'a cursor option" where
  "up_left t [] = None"
| "up_left t (R l c x # p) = Some (Node l c x t, p)"
| "up_left t (L c x r # p) = up_left (Node t c x r) p"

fun rb_next :: "'a cursor \<Rightarrow> 'a cursor option" where
  "rb_next (Node l c x (Node rl rc rx rr), p) = Some (rb_leftmost (Node rl rc rx rr) (R l c x # p))"
| "rb_next (t, p) = up_right t p"

fun rb_prev :: "'a cursor \<Rightarrow> 'a cursor option" where
  "rb_prev (Node (Node ll lc lx lr) c x r, p) = Some (rb_rightmost (Node ll lc lx lr) (L c x r # p))"
| "rb_prev (t, p) = up_left t p"

fun rb_left_deepest_node :: "'a rbt \<Rightarrow> 'a step list \<Rightarrow> 'a cursor" where
  "rb_left_deepest_node (Node (Node ll lc lx lr) c x r) p = rb_left_deepest_node (Node ll lc lx lr) (L c x r # p)"
| "rb_left_deepest_node (Node Leaf c x (Node rl rc rx rr)) p = rb_left_deepest_node (Node rl rc rx rr) (R Leaf c x # p)"
| "rb_left_deepest_node t p = (t, p)"

fun rb_next_postorder :: "'a cursor \<Rightarrow> 'a cursor option" where
  "rb_next_postorder (t, []) = None"
| "rb_next_postorder (t, L c x (Node rl rc rx rr) # p) = Some (rb_left_deepest_node (Node rl rc rx rr) (R t c x # p))"
| "rb_next_postorder (t, L c x Leaf # p) = Some (Node t c x Leaf, p)"
| "rb_next_postorder (t, R l c x # p) = Some (Node l c x t, p)"

definition rb_first_postorder :: "'a rbt \<Rightarrow> 'a cursor option" where
  "rb_first_postorder root = (if root = Leaf then None else Some (rb_left_deepest_node root []))"

text \<open>
  A loop over the nodes with one of these steps: the elements in the order in which they are visited, or
  \<open>None\<close> when the loop does not end.
\<close>

partial_function (option) rb_walk :: "('a cursor \<Rightarrow> 'a cursor option) \<Rightarrow> 'a cursor option \<Rightarrow> 'a list option" where
  "rb_walk nxt cur =
     (case cur of
        None \<Rightarrow> Some []
      | Some (t, p) \<Rightarrow> (case t of
            Leaf \<Rightarrow> None
          | Node l c x r \<Rightarrow> do { xs \<leftarrow> rb_walk nxt (nxt (t, p)); Some (x # xs) }))"

text \<open>\<^verbatim>\<open>ep_db_print\<close>: the LID and the queue pair number of every endpoint; \<^verbatim>\<open>ep_db_free\<close>: the endpoints it releases.\<close>

definition ep_db_print :: "ep_tree \<Rightarrow> (u16 \<times> u32) list option" where
  "ep_db_print root = map_option (map (\<lambda>ep. (ep_lid ep, ud_qpn (ep_ud ep)))) (rb_walk rb_next (rb_first root))"

definition ep_db_free :: "ep_tree \<Rightarrow> dare_ep list option" where
  "ep_db_free root = rb_walk rb_next_postorder (rb_first_postorder root)"

section \<open>The elements after a removal\<close>

lemma before_append: "before (q @ p) = before p @ before q"
  by (induction q rule: before.induct) auto

lemma after_append: "after (q @ p) = after q @ after p"
  by (induction q rule: after.induct) auto

lemma inorder_fix:
  "fix_left n c x s = Some (t, m) \<Longrightarrow> inorder t = inorder n @ x # inorder s"
  "fix_right s c x n = Some (t, m) \<Longrightarrow> inorder t = inorder s @ x # inorder n"
  by (cases s; auto split: if_splits rbt.splits color.splits)+

lemma inorder_rb_erase_color: "rb_erase_color n p = Some t \<Longrightarrow> inorder t = before p @ inorder n @ after p"
proof (induction n p rule: rb_erase_color.induct)
  case (2 n c x s p)
  show ?case
    using "2.prems" "2.IH"
    by (auto simp: inorder_plug split: rbt.splits color.splits option.splits prod.splits if_splits dest!: inorder_fix)
next
  case (3 n s c x p)
  show ?case
    using "3.prems" "3.IH"
    by (auto simp: inorder_plug split: rbt.splits color.splits option.splits prod.splits if_splits dest!: inorder_fix)
qed auto

lemma inorder_rb_min:
  "rb_min c x r l p = (sc, sx, child2, q) \<Longrightarrow>
     before q = before p \<and> inorder l @ x # inorder r @ after p = sx # inorder child2 @ after q"
  by (induction c x r l p rule: rb_min.induct) auto

lemma inorder_recolor [simp]: "inorder (recolor c t) = inorder t"
  by (cases t) auto

lemma inorder_rb_erase: "rb_erase l c r p = Some t \<Longrightarrow> inorder t = before p @ inorder l @ inorder r @ after p"
  by (auto simp: rb_erase_def inorder_plug Let_def before_append after_append
      dest!: inorder_rb_erase_color inorder_rb_min split: rbt.splits if_splits prod.splits)

section \<open>The balance after a removal\<close>

lemma fix_ok:
  assumes "rb_ok n h" "\<not> is_red n" "rb_ok s (Suc h)" "\<not> is_red s"
  shows "\<exists>t d. fix_left n c x s = Some (t, d) \<and>
      (if d then c = Black \<and> rb_ok t (Suc h) \<and> \<not> is_red t
       else rb_ok t (if c = Black then Suc (Suc h) else Suc h) \<and> (is_red t \<longrightarrow> c = Red))"
    and "\<exists>t d. fix_right s c x n = Some (t, d) \<and>
      (if d then c = Black \<and> rb_ok t (Suc h) \<and> \<not> is_red t
       else rb_ok t (if c = Black then Suc (Suc h) else Suc h) \<and> (is_red t \<longrightarrow> c = Red))"
proof -
  obtain sl sx sr where s: "s = Node sl Black sx sr" "rb_ok sl h" "rb_ok sr h"
    using assms(3,4) by (cases s rule: is_red.cases) (auto split: color.splits dest: rb_ok.simps [THEN iffD1])
  show "\<exists>t d. fix_left n c x s = Some (t, d) \<and>
      (if d then c = Black \<and> rb_ok t (Suc h) \<and> \<not> is_red t
       else rb_ok t (if c = Black then Suc (Suc h) else Suc h) \<and> (is_red t \<longrightarrow> c = Red))"
    using s assms by (cases c; cases sl rule: is_red.cases; auto simp: set_black_ok)
  show "\<exists>t d. fix_right s c x n = Some (t, d) \<and>
      (if d then c = Black \<and> rb_ok t (Suc h) \<and> \<not> is_red t
       else rb_ok t (if c = Black then Suc (Suc h) else Suc h) \<and> (is_red t \<longrightarrow> c = Red))"
    using s assms by (cases c; cases sr rule: is_red.cases; auto simp: set_black_ok)
qed

lemma rb_ok_Red_child:
  assumes "rb_ok (Node l Red x r) (Suc h)"
  obtains ll lx lr rl rx rr where "l = Node ll Black lx lr" "r = Node rl Black rx rr" "rb_ok l (Suc h)" "rb_ok r (Suc h)"
  using assms by (cases l rule: is_red.cases; cases r rule: is_red.cases) (auto simp del: rb_ok.simps(2))

text \<open>One round of the loop below a step: either the whole tree is done, or the defect has moved up.\<close>

definition fixed :: "'a rbt option \<Rightarrow> 'a step list \<Rightarrow> nat \<Rightarrow> bool" where
  "fixed res p h \<longleftrightarrow>
     (\<exists>t h'. res = Some t \<and> rb_ok t h' \<and> \<not> is_red t) \<or>
     (\<exists>t. res = rb_erase_color t p \<and> rb_ok t (Suc h) \<and> \<not> is_red t \<and> path_ok p (Suc (Suc h)))"

lemma fixed_black_sibling:
  assumes "if d then c = Black \<and> rb_ok t (Suc h) \<and> \<not> is_red t
       else rb_ok t (if c = Black then Suc (Suc h) else Suc h) \<and> (is_red t \<longrightarrow> c = Red)"
    and "if c = Black then path_ok p (Suc (Suc h)) else top_black p \<and> path_ok p (Suc h)"
  shows "fixed (if d then rb_erase_color t p else Some (plug t p)) p h"
  using assms plug_ok [of t "if c = Black then Suc (Suc h) else Suc h" p]
  by (cases c; cases d) (auto simp: fixed_def)

lemma fixed_L:
  assumes "rb_ok n h" "\<not> is_red n" "path_ok (L c x s # p) (Suc h)"
  shows "fixed (rb_erase_color n (L c x s # p)) p h"
proof (cases "is_red s")
  case True
  then obtain sl sx sr where s: "s = Node sl Red sx sr" by (cases s rule: is_red.cases) auto
  have c: "c = Black" and p: "rb_ok s (Suc h)" "path_ok p (Suc (Suc h))"
    using assms(3) True by (cases c; auto)+
  obtain ll lx lr rl rx rr where sib: "sl = Node ll Black lx lr" "sr = Node rl Black rx rr" "rb_ok sl (Suc h)" "rb_ok sr (Suc h)"
    using rb_ok_Red_child p(1) s by metis
  obtain t where t: "fix_left n Red x sl = Some (t, False)" "rb_ok t (Suc h)"
    using fix_ok(1) [OF assms(1,2) sib(3), of Red x] sib(1) by (auto split: if_splits)
  then show ?thesis
    using plug_ok [of t "Suc h" "L Black sx sr # p"] s sib p c by (auto simp: fixed_def)
next
  case False
  have p: "rb_ok s (Suc h)" "if c = Black then path_ok p (Suc (Suc h)) else top_black p \<and> path_ok p (Suc h)"
    using assms(3) by (cases c; auto)+
  obtain t d where t: "fix_left n c x s = Some (t, d)"
    "if d then c = Black \<and> rb_ok t (Suc h) \<and> \<not> is_red t
     else rb_ok t (if c = Black then Suc (Suc h) else Suc h) \<and> (is_red t \<longrightarrow> c = Red)"
    using fix_ok(1) [OF assms(1,2) p(1) False] by blast
  have "rb_erase_color n (L c x s # p) = (if d then rb_erase_color t p else Some (plug t p))"
    using False t(1) by (cases s rule: is_red.cases) (auto simp del: fix_left.simps split: rbt.split)
  then show ?thesis using fixed_black_sibling [OF t(2) p(2)] by simp
qed

lemma fixed_R:
  assumes "rb_ok n h" "\<not> is_red n" "path_ok (R s c x # p) (Suc h)"
  shows "fixed (rb_erase_color n (R s c x # p)) p h"
proof (cases "is_red s")
  case True
  then obtain sl sx sr where s: "s = Node sl Red sx sr" by (cases s rule: is_red.cases) auto
  have c: "c = Black" and p: "rb_ok s (Suc h)" "path_ok p (Suc (Suc h))"
    using assms(3) True by (cases c; auto)+
  obtain ll lx lr rl rx rr where sib: "sl = Node ll Black lx lr" "sr = Node rl Black rx rr" "rb_ok sl (Suc h)" "rb_ok sr (Suc h)"
    using rb_ok_Red_child p(1) s by metis
  obtain t where t: "fix_right sr Red x n = Some (t, False)" "rb_ok t (Suc h)"
    using fix_ok(2) [OF assms(1,2) sib(4), of Red x] sib(2) by (auto split: if_splits)
  then show ?thesis
    using plug_ok [of t "Suc h" "R sl Black sx # p"] s sib p c by (auto simp: fixed_def)
next
  case False
  have p: "rb_ok s (Suc h)" "if c = Black then path_ok p (Suc (Suc h)) else top_black p \<and> path_ok p (Suc h)"
    using assms(3) by (cases c; auto)+
  obtain t d where t: "fix_right s c x n = Some (t, d)"
    "if d then c = Black \<and> rb_ok t (Suc h) \<and> \<not> is_red t
     else rb_ok t (if c = Black then Suc (Suc h) else Suc h) \<and> (is_red t \<longrightarrow> c = Red)"
    using fix_ok(2) [OF assms(1,2) p(1) False] by blast
  have "rb_erase_color n (R s c x # p) = (if d then rb_erase_color t p else Some (plug t p))"
    using False t(1) by (cases s rule: is_red.cases) (auto simp del: fix_right.simps split: rbt.split)
  then show ?thesis using fixed_black_sibling [OF t(2) p(2)] by simp
qed

lemma rb_erase_color_ok:
  "rb_ok n h \<Longrightarrow> \<not> is_red n \<Longrightarrow> path_ok p (Suc h) \<Longrightarrow>
     \<exists>t h'. rb_erase_color n p = Some t \<and> rb_ok t h' \<and> \<not> is_red t"
proof (induction p arbitrary: n h)
  case Nil
  then show ?case by auto
next
  case (Cons a p)
  then have "fixed (rb_erase_color n (a # p)) p h"
    by (cases a) (blast intro: fixed_L fixed_R)+
  then show ?case using Cons.IH by (auto simp: fixed_def)
qed

text \<open>What the balance says of a node with a missing child.\<close>

lemma rb_ok_0_black: "rb_ok t 0 \<Longrightarrow> \<not> is_red t \<Longrightarrow> t = Leaf"
  by (cases t rule: is_red.cases) auto

lemma rb_ok_0: "rb_ok t 0 \<longleftrightarrow> t = Leaf \<or> (\<exists>x. t = Node Leaf Red x Leaf)"
  by (cases t rule: is_red.cases) (auto dest: rb_ok_0_black)

lemma remove_leaf_ok:
  assumes "path_ok p (if c = Black then 1 else 0)"
  shows "\<exists>t h. (if c = Black then rb_erase_color Leaf p else Some (plug Leaf p)) = Some t \<and> rb_ok t h \<and> \<not> is_red t"
  using assms rb_erase_color_ok [of Leaf 0 p] plug_ok [of Leaf 0 p] by (cases c) auto

lemma rb_ok_one_child:
  assumes "rb_ok (Node l c x r) h" "l = Leaf \<or> r = Leaf"
  shows "h = (if c = Black then 1 else 0)" "c = Red \<Longrightarrow> l = Leaf \<and> r = Leaf"
    "l = Leaf \<Longrightarrow> r = Leaf \<or> (\<exists>y. r = Node Leaf Red y Leaf)"
    "r = Leaf \<Longrightarrow> l = Leaf \<or> (\<exists>y. l = Node Leaf Red y Leaf)"
  using assms by (cases c; auto simp: rb_ok_0)+

lemma path_ok_key:
  "path_ok (q @ R l c x # p) h = path_ok (q @ R l c y # p) h"
  "top_black (q @ R l c x # p) = top_black (q @ R l c y # p)"
proof -
  show tb: "top_black (q @ R l c x # p) = top_black (q @ R l c y # p)" for q
    by (cases q rule: top_black.cases) auto
  have "path_ok (R l c x # p) h = path_ok (R l c y # p) h" for h by (cases c) auto
  then show "path_ok (q @ R l c x # p) h = path_ok (q @ R l c y # p) h"
    by (induction q h rule: path_ok.induct) (auto simp: tb)
qed

lemma rb_min_app: "rb_min c x r l (q @ p) = (case rb_min c x r l q of (sc, sx, child2, q') \<Rightarrow> (sc, sx, child2, q' @ p))"
  by (induction c x r l q rule: rb_min.induct) (auto split: prod.splits)

lemma rb_min_path_ok:
  "rb_min c x r l p = (sc, sx, child2, q) \<Longrightarrow> rb_ok (Node l c x r) h \<Longrightarrow> path_ok p h \<Longrightarrow>
     (c = Red \<Longrightarrow> top_black p) \<Longrightarrow>
     \<exists>h'. rb_ok (Node Leaf sc sx child2) h' \<and> path_ok q h' \<and> (sc = Red \<longrightarrow> top_black q)"
proof (induction c x r l p arbitrary: h rule: rb_min.induct)
  case (1 c x r p)
  then show ?case by auto
next
  case (2 c x r ll lc lx lr p)
  show ?case
    using "2.prems" "2.IH" [of "if c = Black then h - 1 else h"] by (cases c; cases lc) auto
qed

lemma rb_erase_two_ok:
  assumes ok: "rb_ok (Node l c x (Node rl rc rx rr)) h" "path_ok p h" "c = Red \<Longrightarrow> top_black p"
    and mn: "rb_min rc rx rr rl [] = (sc, sx, child2, q)"
  shows "\<exists>h'. rb_ok (Node Leaf sc sx child2) h' \<and> path_ok (q @ R l c sx # p) h'"
proof -
  have "rb_min rc rx rr rl (R l c x # p) = (sc, sx, child2, q @ R l c x # p)"
    using rb_min_app [of rc rx rr rl "[]" "R l c x # p"] mn by simp
  then obtain h' where "rb_ok (Node Leaf sc sx child2) h'" "path_ok (q @ R l c x # p) h'"
    using rb_min_path_ok [of rc rx rr rl "R l c x # p" sc sx child2 _ "if c = Black then h - 1 else h"] ok
    by (cases c; cases rc) auto
  then show ?thesis using path_ok_key(1) [of q l c x p _ sx] by auto
qed

lemma rb_erase_ok:
  assumes "rb_ok (Node l c x r) h" "path_ok p h" "c = Red \<Longrightarrow> top_black p"
  shows "\<exists>t h'. rb_erase l c r p = Some t \<and> rb_ok t h' \<and> \<not> is_red t"
proof (cases "l = Leaf \<or> r = Leaf")
  case True
  note one = rb_ok_one_child [OF assms(1) True]
  have child: "\<exists>h'. rb_ok (plug (Node Leaf Black y Leaf) p) h' \<and> \<not> is_red (plug (Node Leaf Black y Leaf) p)"
    if "c = Black" for y
    using plug_ok [of "Node Leaf Black y Leaf" 1 p] assms(2) one(1) that by auto
  have leaf: "\<exists>t h. (if c = Black then rb_erase_color Leaf p else Some (plug Leaf p)) = Some t \<and> rb_ok t h \<and> \<not> is_red t"
    using remove_leaf_ok assms(2) one(1) by blast
  consider "l = Leaf" "r = Leaf" | y where "c = Black" "l = Leaf" "r = Node Leaf Red y Leaf"
    | y where "c = Black" "r = Leaf" "l = Node Leaf Red y Leaf"
    using True one(2-4) by (cases c) auto
  then show ?thesis
    using child leaf by cases (simp_all add: rb_erase_def)
next
  case False
  then obtain ll lc lx lr rl rc rx rr where lr: "l = Node ll lc lx lr" "r = Node rl rc rx rr"
    by (cases l; cases r) auto
  obtain sc sx child2 q where mn: "rb_min rc rx rr rl [] = (sc, sx, child2, q)" by (metis prod_cases4)
  obtain h' where h': "rb_ok (Node Leaf sc sx child2) h'" "path_ok (q @ R l c sx # p) h'"
    using rb_erase_two_ok [OF _ assms(2) _ mn] assms lr by blast
  note one = rb_ok_one_child [OF h'(1)]
  let ?path = "q @ R l c sx # p"
  have e: "rb_erase l c r p = (case child2 of Node _ _ _ _ \<Rightarrow> Some (plug (set_black child2) ?path)
      | Leaf \<Rightarrow> if sc = Black then rb_erase_color Leaf ?path else Some (plug Leaf ?path))"
    using lr mn by (cases child2) (simp_all add: rb_erase_def Let_def)
  show ?thesis
  proof (cases child2)
    case Leaf
    then show ?thesis using remove_leaf_ok [of ?path sc] h'(2) one(1) e by simp
  next
    case (Node a b y d)
    then have "sc = Black" "set_black child2 = Node Leaf Black y Leaf" using one(2,3) by (cases sc; auto)+
    then show ?thesis using plug_ok [of "Node Leaf Black y Leaf" 1 ?path] h'(2) one(1) e Node by auto
  qed
qed

section \<open>The database after a removal\<close>

lemma ep_find_None: "sorted_wrt (<) (lids t) \<Longrightarrow> ep_find t lid p = None \<longleftrightarrow> lid \<notin> set (lids t)"
proof (induction t arbitrary: p)
  case (Node l c x r)
  then show ?case by (auto simp: sorted_wrt_append dest: less_asym)
qed simp

lemma ep_find_split:
  "ep_find t lid p = Some (l, c, ep, r, q) \<Longrightarrow>
     ep_lid ep = lid \<and> before q @ inorder l @ ep # inorder r @ after q = before p @ inorder t @ after p"
  by (induction t lid p rule: ep_find.induct) (auto split: if_splits)

lemma ep_find_path_ok:
  "ep_find t lid p = Some (l, c, ep, r, q) \<Longrightarrow> rb_ok t h \<Longrightarrow> path_ok p h \<Longrightarrow> (is_red t \<Longrightarrow> top_black p) \<Longrightarrow>
     \<exists>h'. rb_ok (Node l c ep r) h' \<and> path_ok q h' \<and> (c = Red \<longrightarrow> top_black q)"
proof (induction t arbitrary: p h)
  case (Node tl tc x tr)
  show ?case
    using Node.prems Node.IH(1) [of "L tc x tr # p" "if tc = Black then h - 1 else h"]
      Node.IH(2) [of "R tl tc x # p" "if tc = Black then h - 1 else h"]
    by (cases tc) (auto split: if_splits)
qed simp

lemma ep_erase_spec:
  assumes "ep_db_inv t"
  shows "\<exists>t'. ep_erase t lid = Some (t', ep_map t lid) \<and> ep_db_inv t' \<and> ep_map t' = (ep_map t)(lid := None)"
proof -
  obtain h where srt: "sorted_wrt (<) (lids t)" and h: "rb_ok t h" "\<not> is_red t"
    using assms by (auto simp: ep_db_inv_def)
  show ?thesis
  proof (cases "ep_find t lid []")
    case None
    then have "ep_map t lid = None" using ep_find_None [OF srt] by (simp add: ep_map_None)
    then show ?thesis using None assms by (auto simp: ep_erase_def)
  next
    case (Some f)
    then obtain l c ep r q where f: "ep_find t lid [] = Some (l, c, ep, r, q)" by (cases f) auto
    define u v where uv: "u = before q @ inorder l" "v = inorder r @ after q"
    have io: "inorder t = u @ ep # v" and lid: "ep_lid ep = lid"
      using ep_find_split [OF f] uv by auto
    obtain h' where "rb_ok (Node l c ep r) h'" "path_ok q h'" "c = Red \<longrightarrow> top_black q"
      using ep_find_path_ok [OF f h(1)] h(2) by auto
    then obtain t' h'' where t': "rb_erase l c r q = Some t'" "rb_ok t' h''" "\<not> is_red t'"
      using rb_erase_ok [of l c ep r h' q] by auto
    have io': "inorder t' = u @ v" using inorder_rb_erase [OF t'(1)] uv by simp
    have "sorted_wrt (<) (lids t')" using srt by (auto simp: lids_def io io' sorted_wrt_append)
    then have inv': "ep_db_inv t'" using t' by (auto simp: ep_db_inv_def)
    have nin: "lid \<notin> ep_lid ` set u" "lid \<notin> ep_lid ` set v"
      using srt lid by (auto simp: lids_def io sorted_wrt_append)
    have no: "map_of (map (\<lambda>ep. (ep_lid ep, ep)) w) lid = None" if "lid \<notin> ep_lid ` set w" for w
      using that by (force simp: map_of_eq_None_iff)
    have "ep_map t lid = Some ep" "ep_map t' = (ep_map t)(lid := None)"
      using no [OF nin(1)] no [OF nin(2)]
      by (auto simp: ep_map_def io io' lid fun_eq_iff map_add_def split: option.splits)
    then show ?thesis using f t'(1) inv' by (simp add: ep_erase_def)
  qed
qed

text \<open>Removal as a total function on well-formed trees, for the interface of the stores.\<close>

definition ep_del :: "u16 \<Rightarrow> ep_tree \<Rightarrow> ep_tree" where
  "ep_del lid t = fst (the (ep_erase t lid))"

interpretation epdel: removable_store ep_db_inv "\<lambda>_. True" ep_search ep_put ep_comb ep_del
proof
  fix t :: ep_tree and k j :: u16
  assume inv: "ep_db_inv t"
  obtain t' where t': "ep_erase t k = Some (t', ep_map t k)" "ep_db_inv t'" "ep_map t' = (ep_map t)(k := None)"
    using ep_erase_spec [OF inv] by blast
  then show "ep_db_inv (ep_del k t)" by (simp add: ep_del_def)
  have "ep_search t' j = ep_map t' j" "ep_search t j = ep_map t j"
    using t'(2) inv by (auto simp: ep_db_inv_def ep_search_map)
  then show "ep_search (ep_del k t) j = (if j = k then None else ep_search t j)"
    using t' by (simp add: ep_del_def)
qed

section \<open>The walks visit every node once\<close>

fun postorder :: "'a rbt \<Rightarrow> 'a list" where
  "postorder Leaf = []"
| "postorder (Node l c x r) = postorder l @ postorder r @ [x]"

fun post_after :: "'a step list \<Rightarrow> 'a list" where
  "post_after [] = []"
| "post_after (L c x r # p) = postorder r @ x # post_after p"
| "post_after (R l c x # p) = x # post_after p"

text \<open>
  What is left to visit: \<open>ahead rest cur\<close> says that \<open>rest\<close> are the elements from the node on.  A step that
  drops the first of them makes the loop visit all of them in order, and end.
\<close>

fun ahead :: "('a rbt \<Rightarrow> 'a step list \<Rightarrow> 'a list) \<Rightarrow> 'a cursor option \<Rightarrow> 'a list \<Rightarrow> bool" where
  "ahead f None xs \<longleftrightarrow> xs = []"
| "ahead f (Some (t, p)) xs \<longleftrightarrow> (\<exists>l c x r. t = Node l c x r \<and> xs = x # f t p)"

lemma rb_walk_ahead:
  assumes step: "\<And>l c x r p. ahead f (nxt (Node l c x r, p)) (f (Node l c x r) p)"
  shows "ahead f cur xs \<Longrightarrow> rb_walk nxt cur = Some xs"
proof (induction xs arbitrary: cur)
  case Nil
  then show ?case by (cases cur) (auto simp: rb_walk.simps)
next
  case (Cons a xs)
  then obtain l c r p where cur: "cur = Some (Node l c a r, p)" "xs = f (Node l c a r) p"
    by (cases cur) auto
  then have "rb_walk nxt (nxt (Node l c a r, p)) = Some xs" using Cons.IH step by blast
  then show ?case using cur(1) by (subst rb_walk.simps) simp
qed

fun later :: "'a rbt \<Rightarrow> 'a step list \<Rightarrow> 'a list" where
  "later t p = (case t of Leaf \<Rightarrow> [] | Node l c x r \<Rightarrow> inorder r) @ after p"

fun earlier :: "'a rbt \<Rightarrow> 'a step list \<Rightarrow> 'a list" where
  "earlier t p = rev (before p @ (case t of Leaf \<Rightarrow> [] | Node l c x r \<Rightarrow> inorder l))"

lemma rb_leftmost_ahead: "t \<noteq> Leaf \<Longrightarrow> ahead later (Some (rb_leftmost t p)) (inorder t @ after p)"
  by (induction t p rule: rb_leftmost.induct) auto

lemma rb_rightmost_ahead: "t \<noteq> Leaf \<Longrightarrow> ahead earlier (Some (rb_rightmost t p)) (rev (before p @ inorder t))"
  by (induction t p rule: rb_rightmost.induct) auto

lemma up_right_ahead: "ahead later (up_right t p) (after p)"
  by (induction t p rule: up_right.induct) auto

lemma up_left_ahead: "ahead earlier (up_left t p) (rev (before p))"
  by (induction t p rule: up_left.induct) auto

lemma rb_left_deepest_ahead:
  "t \<noteq> Leaf \<Longrightarrow> ahead (\<lambda>_. post_after) (Some (rb_left_deepest_node t p)) (postorder t @ post_after p)"
  by (induction t p rule: rb_left_deepest_node.induct) auto

text \<open>The loops over \<^verbatim>\<open>rb_next\<close>, \<^verbatim>\<open>rb_prev\<close> and \<^verbatim>\<open>rb_next_postorder\<close> end after each node has been visited once.\<close>

lemma rb_walk_next: "rb_walk rb_next (rb_first t) = Some (inorder t)"
proof (rule rb_walk_ahead [where f = later])
  show "ahead later (rb_next (Node l c x r, p)) (later (Node l c x r) p)" for l c x r and p :: "'a step list"
    using rb_leftmost_ahead [of r "R l c x # p"] up_right_ahead [of "Node l c x r" p] by (cases r) auto
  show "ahead later (rb_first t) (inorder t)"
    using rb_leftmost_ahead [of t "[]"] by (auto simp: rb_first_def)
qed

lemma rb_walk_prev: "rb_walk rb_prev (rb_last t) = Some (rev (inorder t))"
proof (rule rb_walk_ahead [where f = earlier])
  show "ahead earlier (rb_prev (Node l c x r, p)) (earlier (Node l c x r) p)" for l c x r and p :: "'a step list"
    using rb_rightmost_ahead [of l "L c x r # p"] up_left_ahead [of "Node l c x r" p] by (cases l) auto
  show "ahead earlier (rb_last t) (rev (inorder t))"
    using rb_rightmost_ahead [of t "[]"] by (auto simp: rb_last_def)
qed

lemma rb_walk_postorder: "rb_walk rb_next_postorder (rb_first_postorder t) = Some (postorder t)"
proof (rule rb_walk_ahead [where f = "\<lambda>_. post_after"])
  show "ahead (\<lambda>_. post_after) (rb_next_postorder (Node l c x r, p)) (post_after p)" for l c x r and p :: "'a step list"
    using rb_left_deepest_ahead [of "Node rl rc rx rr" "R (Node l c x r) sc sx # q" for rl rc rx rr sc sx q]
    by (cases "(Node l c x r, p)" rule: rb_next_postorder.cases) (auto simp del: rb_left_deepest_node.simps)
  show "ahead (\<lambda>_. post_after) (rb_first_postorder t) (postorder t)"
    using rb_left_deepest_ahead [of t "[]"] by (auto simp: rb_first_postorder_def)
qed

lemma mset_postorder: "mset (postorder t) = mset (inorder t)"
  by (induction t) auto

lemma ep_db_free_all: "\<exists>eps. ep_db_free t = Some eps \<and> mset eps = mset (inorder t)"
  by (simp add: ep_db_free_def rb_walk_postorder mset_postorder)

lemma ep_db_print_lids: "map_option (map fst) (ep_db_print t) = Some (lids t)"
  by (simp add: ep_db_print_def rb_walk_next lids_def comp_def)

section \<open>Properties\<close>

text \<open>C39: erasing a LID keeps the database a balanced search tree (the rebalancing loop never
  follows a missing sibling), releases exactly the endpoint that was found under the LID, or none,
  and leaves every other LID alone.\<close>

theorem ep_erase_correct:
  assumes "ep_db_inv t"
  shows "\<exists>t'. ep_erase t lid = Some (t', ep_search t lid) \<and> ep_db_inv t' \<and>
     (\<forall>j. ep_search t' j = (if j = lid then None else ep_search t j))"
proof -
  obtain t' where t': "ep_erase t lid = Some (t', ep_map t lid)" "ep_db_inv t'" "ep_map t' = (ep_map t)(lid := None)"
    using ep_erase_spec [OF assms] by blast
  moreover have "ep_search t' = ep_map t'" "ep_search t = ep_map t"
    using t'(2) assms by (auto simp: fun_eq_iff ep_db_inv_def ep_search_map)
  ultimately show ?thesis by auto
qed

lemma ep_erase_correct_witness:
  "\<exists>t'. ep_erase (Node (Node Leaf Black (new_ep demo_ep True 2 []) Leaf) Black (new_ep demo_ep True 4 [])
       (Node Leaf Black (new_ep demo_ep True 9 []) Leaf)) 2 = Some (t', Some (new_ep demo_ep True 2 [])) \<and>
     ep_db_inv t' \<and> ep_search t' 2 = None \<and> ep_search t' 9 = Some (new_ep demo_ep True 9 [])"
proof -
  let ?t = "Node (Node Leaf Black (new_ep demo_ep True 2 []) Leaf) Black (new_ep demo_ep True 4 [])
       (Node Leaf Black (new_ep demo_ep True 9 []) Leaf)"
  have lid: "ep_lid (new_ep demo_ep True k []) = k" for k by (simp add: new_ep_def)
  have "ep_db_inv ?t" by (simp add: ep_db_inv_def lid)
  moreover have "ep_search ?t 2 = Some (new_ep demo_ep True 2 [])" "ep_search ?t 9 = Some (new_ep demo_ep True 9 [])"
    by (simp_all add: lid)
  ultimately show ?thesis using ep_erase_correct [of ?t 2] by auto
qed

end
