(* ===== verification/Dare_Queue.thy ===== *)
theory Dare_Queue
  imports Dare_Prelude "HOL-Library.Monad_Syntax"
begin

text \<open>
  The tail queues and lists of \<^verbatim>\<open>utils/queue/queue.h\<close> on an explicit store.  An entry is an address; the
  fields of the macros are functions of the store.  \<^verbatim>\<open>tqe_prev\<close> and \<^verbatim>\<open>tqh_last\<close> hold the address of a field that points to an entry: such a
  location is the first field of a head or the next field of an entry.  The lemmas say that every operation
  has the effect of the corresponding operation on lists, that it leaves every other queue of the store alone, and that a
  queue is first in, first out.
\<close>

section \<open>The store\<close>

datatype ('h, 'a) loc = First 'h | Next 'a

record ('h, 'a) qstore =
  q_first :: "'h \<Rightarrow> 'a option"
  q_last :: "'h \<Rightarrow> ('h, 'a) loc"
  q_next :: "'a \<Rightarrow> 'a option"
  q_prev :: "'a \<Rightarrow> ('h, 'a) loc"

fun deref :: "('h, 'a) qstore \<Rightarrow> ('h, 'a) loc \<Rightarrow> 'a option" where
  "deref s (First h) = q_first s h"
| "deref s (Next e) = q_next s e"

fun assign :: "('h, 'a) loc \<Rightarrow> 'a option \<Rightarrow> ('h, 'a) qstore \<Rightarrow> ('h, 'a) qstore" where
  "assign (First h) v s = s\<lparr>q_first := (q_first s)(h := v)\<rparr>"
| "assign (Next e) v s = s\<lparr>q_next := (q_next s)(e := v)\<rparr>"

abbreviation set_prev :: "'a \<Rightarrow> ('h, 'a) loc \<Rightarrow> ('h, 'a) qstore \<Rightarrow> ('h, 'a) qstore" where
  "set_prev e l s \<equiv> s\<lparr>q_prev := (q_prev s)(e := l)\<rparr>"

abbreviation set_last :: "'h \<Rightarrow> ('h, 'a) loc \<Rightarrow> ('h, 'a) qstore \<Rightarrow> ('h, 'a) qstore" where
  "set_last h l s \<equiv> s\<lparr>q_last := (q_last s)(h := l)\<rparr>"

text \<open>
  The second field of the structure whose first field is at a location.  \<^verbatim>\<open>TAILQ_LAST\<close> and \<^verbatim>\<open>TAILQ_PREV\<close> cast the
  address of a next field to a head and so read the previous field of the entry.
\<close>

fun second_field :: "('h, 'a) qstore \<Rightarrow> ('h, 'a) loc \<Rightarrow> ('h, 'a) loc" where
  "second_field s (First h) = q_last s h"
| "second_field s (Next e) = q_prev s e"

section \<open>Tail queues\<close>

definition TAILQ_INIT :: "'h \<Rightarrow> ('h, 'a) qstore \<Rightarrow> ('h, 'a) qstore" where
  "TAILQ_INIT h s = set_last h (First h) (assign (First h) None s)"

definition TAILQ_INSERT_HEAD :: "'h \<Rightarrow> 'a \<Rightarrow> ('h, 'a) qstore \<Rightarrow> ('h, 'a) qstore" where
  "TAILQ_INSERT_HEAD h e s =
     (let s1 = assign (Next e) (q_first s h) s;
          s2 = (case q_first s1 h of Some f \<Rightarrow> set_prev f (Next e) s1 | None \<Rightarrow> set_last h (Next e) s1);
          s3 = assign (First h) (Some e) s2
      in set_prev e (First h) s3)"

definition TAILQ_INSERT_TAIL :: "'h \<Rightarrow> 'a \<Rightarrow> ('h, 'a) qstore \<Rightarrow> ('h, 'a) qstore" where
  "TAILQ_INSERT_TAIL h e s =
     (let s1 = assign (Next e) None s;
          s2 = set_prev e (q_last s1 h) s1;
          s3 = assign (q_last s2 h) (Some e) s2
      in set_last h (Next e) s3)"

definition TAILQ_INSERT_AFTER :: "'h \<Rightarrow> 'a \<Rightarrow> 'a \<Rightarrow> ('h, 'a) qstore \<Rightarrow> ('h, 'a) qstore" where
  "TAILQ_INSERT_AFTER h l e s =
     (let s1 = assign (Next e) (q_next s l) s;
          s2 = (case q_next s1 e of Some f \<Rightarrow> set_prev f (Next e) s1 | None \<Rightarrow> set_last h (Next e) s1);
          s3 = assign (Next l) (Some e) s2
      in set_prev e (Next l) s3)"

definition TAILQ_INSERT_BEFORE :: "'a \<Rightarrow> 'a \<Rightarrow> ('h, 'a) qstore \<Rightarrow> ('h, 'a) qstore" where
  "TAILQ_INSERT_BEFORE l e s =
     (let s1 = set_prev e (q_prev s l) s;
          s2 = assign (Next e) (Some l) s1;
          s3 = assign (q_prev s2 l) (Some e) s2
      in set_prev l (Next e) s3)"

definition TAILQ_REMOVE :: "'h \<Rightarrow> 'a \<Rightarrow> ('h, 'a) qstore \<Rightarrow> ('h, 'a) qstore" where
  "TAILQ_REMOVE h e s =
     (let s1 = (case q_next s e of Some f \<Rightarrow> set_prev f (q_prev s e) s | None \<Rightarrow> set_last h (q_prev s e) s)
      in assign (q_prev s1 e) (q_next s1 e) s1)"

definition TAILQ_EMPTY :: "'h \<Rightarrow> ('h, 'a) qstore \<Rightarrow> bool" where
  "TAILQ_EMPTY h s \<longleftrightarrow> q_first s h = None"

definition TAILQ_FIRST :: "'h \<Rightarrow> ('h, 'a) qstore \<Rightarrow> 'a option" where
  "TAILQ_FIRST h s = q_first s h"

definition TAILQ_LAST :: "'h \<Rightarrow> ('h, 'a) qstore \<Rightarrow> 'a option" where
  "TAILQ_LAST h s = deref s (second_field s (q_last s h))"

definition TAILQ_PREV :: "'a \<Rightarrow> ('h, 'a) qstore \<Rightarrow> 'a option" where
  "TAILQ_PREV e s = deref s (second_field s (q_prev s e))"

definition TAILQ_CONCAT :: "'h \<Rightarrow> 'h \<Rightarrow> ('h, 'a) qstore \<Rightarrow> ('h, 'a) qstore" where
  "TAILQ_CONCAT h1 h2 s =
     (case q_first s h2 of
        None \<Rightarrow> s
      | Some f \<Rightarrow>
          let s1 = assign (q_last s h1) (Some f) s;
              s2 = set_prev f (q_last s1 h1) s1;
              s3 = set_last h1 (q_last s2 h2) s2
          in TAILQ_INIT h2 s3)"

text \<open>The loops over a queue: the entries in the order of the visits, or \<open>None\<close> when the loop does not end.\<close>

partial_function (option) foreach :: "('a \<Rightarrow> 'a option) \<Rightarrow> 'a option \<Rightarrow> 'a list option" where
  "foreach nxt var =
     (case var of None \<Rightarrow> Some [] | Some e \<Rightarrow> do { es \<leftarrow> foreach nxt (nxt e); Some (e # es) })"

definition TAILQ_FOREACH :: "'h \<Rightarrow> ('h, 'a) qstore \<Rightarrow> 'a list option" where
  "TAILQ_FOREACH h s = foreach (q_next s) (q_first s h)"

definition TAILQ_FOREACH_REVERSE :: "'h \<Rightarrow> ('h, 'a) qstore \<Rightarrow> 'a list option" where
  "TAILQ_FOREACH_REVERSE h s = foreach (\<lambda>e. TAILQ_PREV e s) (TAILQ_LAST h s)"

section \<open>Lists\<close>

text \<open>The macros for lists: the same fields, without the address of the last next field.\<close>

definition LIST_INIT :: "'h \<Rightarrow> ('h, 'a) qstore \<Rightarrow> ('h, 'a) qstore" where
  "LIST_INIT h s = assign (First h) None s"

definition LIST_INSERT_HEAD :: "'h \<Rightarrow> 'a \<Rightarrow> ('h, 'a) qstore \<Rightarrow> ('h, 'a) qstore" where
  "LIST_INSERT_HEAD h e s =
     (let s1 = assign (Next e) (q_first s h) s;
          s2 = (case q_next s1 e of Some _ \<Rightarrow>
                  (case q_first s1 h of Some f \<Rightarrow> set_prev f (Next e) s1 | None \<Rightarrow> s1)
                | None \<Rightarrow> s1);
          s3 = assign (First h) (Some e) s2
      in set_prev e (First h) s3)"

definition LIST_INSERT_AFTER :: "'a \<Rightarrow> 'a \<Rightarrow> ('h, 'a) qstore \<Rightarrow> ('h, 'a) qstore" where
  "LIST_INSERT_AFTER l e s =
     (let s1 = assign (Next e) (q_next s l) s;
          s2 = (case q_next s1 e of Some f \<Rightarrow> set_prev f (Next e) s1 | None \<Rightarrow> s1);
          s3 = assign (Next l) (Some e) s2
      in set_prev e (Next l) s3)"

definition LIST_INSERT_BEFORE :: "'a \<Rightarrow> 'a \<Rightarrow> ('h, 'a) qstore \<Rightarrow> ('h, 'a) qstore" where
  "LIST_INSERT_BEFORE l e s = TAILQ_INSERT_BEFORE l e s"

definition LIST_REMOVE :: "'a \<Rightarrow> ('h, 'a) qstore \<Rightarrow> ('h, 'a) qstore" where
  "LIST_REMOVE e s =
     (let s1 = (case q_next s e of Some f \<Rightarrow> set_prev f (q_prev s e) s | None \<Rightarrow> s)
      in assign (q_prev s1 e) (q_next s1 e) s1)"

definition LIST_FOREACH :: "'h \<Rightarrow> ('h, 'a) qstore \<Rightarrow> 'a list option" where
  "LIST_FOREACH h s = foreach (q_next s) (q_first s h)"

section \<open>Segments of a queue\<close>

fun seg :: "('h, 'a) qstore \<Rightarrow> ('h, 'a) loc \<Rightarrow> 'a list \<Rightarrow> ('h, 'a) loc \<Rightarrow> bool" where
  "seg s l [] m \<longleftrightarrow> l = m"
| "seg s l (x # xs) m \<longleftrightarrow> deref s l = Some x \<and> q_prev s x = l \<and> seg s (Next x) xs m"

text \<open>The entries of the list at head \<open>h\<close>, and of the tail queue at \<open>h\<close>.\<close>

definition list_at :: "('h, 'a) qstore \<Rightarrow> 'h \<Rightarrow> 'a list \<Rightarrow> bool" where
  "list_at s h xs \<longleftrightarrow> distinct xs \<and> (\<exists>m. seg s (First h) xs m \<and> deref s m = None)"

definition tailq_at :: "('h, 'a) qstore \<Rightarrow> 'h \<Rightarrow> 'a list \<Rightarrow> bool" where
  "tailq_at s h xs \<longleftrightarrow> distinct xs \<and> seg s (First h) xs (q_last s h) \<and> deref s (q_last s h) = None"

lemma deref_assign [simp]: "deref (assign l v s) k = (if k = l then v else deref s k)"
  by (cases l; cases k) auto

lemma fields_assign [simp]: "q_prev (assign l v s) = q_prev s" "q_last (assign l v s) = q_last s"
  by (cases l; simp)+

lemma deref_set [simp]:
  "deref (s\<lparr>q_prev := f\<rparr>) l = deref s l" "deref (s\<lparr>q_last := g\<rparr>) l = deref s l"
  by (cases l; simp)+

text \<open>The fields of a store after assignments are read through \<open>deref\<close>.\<close>

lemma q_first_deref: "q_first s h = deref s (First h)" by simp
lemma q_next_deref: "q_next s e = deref s (Next e)" by simp

lemma seg_append [simp]: "seg s l (xs @ ys) m \<longleftrightarrow> (\<exists>k. seg s l xs k \<and> seg s k ys m)"
  by (induction xs arbitrary: l) auto

lemma seg_end: "seg s l xs m \<Longrightarrow> m = (if xs = [] then l else Next (last xs))"
  by (induction xs arbitrary: l) auto

text \<open>A segment depends only on the locations it starts from and on the previous fields of its entries.\<close>

lemma seg_cong:
  assumes "seg s l xs m" "\<And>x. x \<in> set xs \<Longrightarrow> q_prev s' x = q_prev s x"
    "\<And>k. k \<in> insert l (Next ` set xs) \<Longrightarrow> k \<noteq> m \<Longrightarrow> deref s' k = deref s k"
    "distinct xs" "xs \<noteq> [] \<Longrightarrow> l \<notin> Next ` set xs"
  shows "seg s' l xs m"
  using assms
proof (induction xs arbitrary: l)
  case (Cons x xs)
  have "m \<in> Next ` set (x # xs)" using seg_end [OF Cons.prems(1)] by (auto split: if_splits)
  then have "deref s' l = deref s l" using Cons.prems(3,5) by auto
  moreover have "seg s' (Next x) xs m"
    using Cons.prems by (intro Cons.IH) auto
  ultimately show ?case using Cons.prems(1,2) by simp
qed simp

text \<open>The place before an entry of a queue and after it.\<close>

lemma tailq_split:
  assumes "tailq_at s h (xs @ e # ys)"
  obtains p where "q_prev s e = p" "seg s (First h) xs p" "deref s p = Some e" "seg s (Next e) ys (q_last s h)"
    "deref s (q_last s h) = None" "p = (if xs = [] then First h else Next (last xs))"
    "q_last s h = Next (last (e # ys))" "distinct (xs @ e # ys)" "p \<noteq> Next e" "p \<notin> Next ` set ys"
proof -
  obtain p where p: "seg s (First h) xs p" "deref s p = Some e" "q_prev s e = p" "seg s (Next e) ys (q_last s h)"
    using assms by (auto simp: tailq_at_def)
  have "p = (if xs = [] then First h else Next (last xs))" by (rule seg_end [OF p(1)])
  moreover have "q_last s h = Next (last (e # ys))" using seg_end [OF p(4)] by auto
  moreover have "distinct (xs @ e # ys)" using assms by (simp add: tailq_at_def)
  moreover have "xs \<noteq> [] \<Longrightarrow> last xs \<noteq> e \<and> last xs \<notin> set ys"
    using \<open>distinct (xs @ e # ys)\<close> last_in_set [of xs] by (auto simp del: last_in_set)
  ultimately show ?thesis using that p assms by (auto simp: tailq_at_def split: if_splits)
qed

lemma seg_first:
  "tailq_at s h xs \<Longrightarrow> q_first s h = (case xs of [] \<Rightarrow> None | x # _ \<Rightarrow> Some x)"
  by (cases xs) (auto simp: tailq_at_def, metis deref.simps(1))

lemma tailq_frame:
  assumes "tailq_at s k ys" "q_last s' k = q_last s k" "\<And>y. y \<in> set ys \<Longrightarrow> q_prev s' y = q_prev s y"
    "\<And>l. l \<in> insert (First k) (Next ` set ys) \<Longrightarrow> deref s' l = deref s l"
  shows "tailq_at s' k ys"
proof -
  have sg: "seg s (First k) ys (q_last s k)" and nn: "deref s (q_last s k) = None" and d: "distinct ys"
    using assms(1) by (auto simp: tailq_at_def)
  have "q_last s k \<in> insert (First k) (Next ` set ys)" using seg_end [OF sg] by auto
  then have "deref s' (q_last s k) = None" using assms(4) nn by simp
  moreover have "seg s' (First k) ys (q_last s k)"
    by (rule seg_cong [OF sg]) (use assms d in auto)
  ultimately show ?thesis using d assms(2) by (simp add: tailq_at_def)
qed

section \<open>The operations on tail queues\<close>

lemma tailq_INIT: "tailq_at (TAILQ_INIT h s) h []"
  by (simp add: tailq_at_def TAILQ_INIT_def)

lemma tailq_INSERT_TAIL:
  assumes "tailq_at s h xs" "e \<notin> set xs"
  shows "tailq_at (TAILQ_INSERT_TAIL h e s) h (xs @ [e])"
proof -
  have sg: "seg s (First h) xs (q_last s h)" and d: "distinct xs" using assms(1) by (auto simp: tailq_at_def)
  have m: "q_last s h = (if xs = [] then First h else Next (last xs))" by (rule seg_end [OF sg])
  then have ne: "q_last s h \<noteq> Next e" using assms(2) by auto
  have "seg (TAILQ_INSERT_TAIL h e s) (First h) xs (q_last s h)"
    by (rule seg_cong [OF sg]) (use assms(2) d in \<open>auto simp: TAILQ_INSERT_TAIL_def Let_def\<close>)
  then show ?thesis
    using ne d assms(2) by (auto simp: tailq_at_def TAILQ_INSERT_TAIL_def Let_def q_next_deref simp del: assign.simps deref.simps)
qed

lemma tailq_REMOVE:
  assumes "tailq_at s h (xs @ e # ys)"
  shows "tailq_at (TAILQ_REMOVE h e s) h (xs @ ys)"
proof -
  obtain p where p: "q_prev s e = p" "seg s (First h) xs p" "deref s p = Some e" "seg s (Next e) ys (q_last s h)"
    "deref s (q_last s h) = None" "p = (if xs = [] then First h else Next (last xs))"
    "q_last s h = Next (last (e # ys))" "distinct (xs @ e # ys)" "p \<noteq> Next e" "p \<notin> Next ` set ys"
    using tailq_split [OF assms] by blast
  show ?thesis
  proof (cases ys)
    case Nil
    then have nx: "deref s (Next e) = None" using p(5,7) by simp
    have "seg (TAILQ_REMOVE h e s) (First h) xs p"
      by (rule seg_cong [OF p(2)]) (use p nx in \<open>auto simp: TAILQ_REMOVE_def Let_def\<close>)
    then show ?thesis
      using Nil p nx by (auto simp: tailq_at_def TAILQ_REMOVE_def Let_def q_next_deref simp del: assign.simps deref.simps)
  next
    case (Cons f zs)
    then have nx: "deref s (Next e) = Some f" using p(4) by simp
    let ?s = "TAILQ_REMOVE h e s"
    have s: "deref ?s l = (if l = p then Some f else deref s l)" "q_prev ?s = (q_prev s)(f := p)" "q_last ?s = q_last s" for l
      using nx p Cons by (auto simp: TAILQ_REMOVE_def Let_def q_next_deref simp del: assign.simps deref.simps)
    have "seg ?s (First h) xs p"
      by (rule seg_cong [OF p(2)]) (use p Cons in \<open>auto simp: s simp del: deref.simps\<close>)
    moreover have "seg ?s (Next f) zs (q_last s h)"
      by (rule seg_cong [where s = s]) (use p Cons in \<open>auto simp: s simp del: deref.simps\<close>)
    ultimately show ?thesis using p Cons by (auto simp: tailq_at_def s simp del: deref.simps)
  qed
qed

lemma tailq_INSERT_HEAD:
  assumes "tailq_at s h xs" "e \<notin> set xs"
  shows "tailq_at (TAILQ_INSERT_HEAD h e s) h (e # xs)"
proof (cases xs)
  case Nil
  then have "q_first s h = None" using seg_first [OF assms(1)] by simp
  then show ?thesis using Nil by (simp add: tailq_at_def TAILQ_INSERT_HEAD_def Let_def)
next
  case (Cons f zs)
  have sg: "deref s (First h) = Some f" "q_prev s f = First h" "seg s (Next f) zs (q_last s h)"
    "deref s (q_last s h) = None" and d: "distinct xs" using assms(1) Cons by (auto simp: tailq_at_def)
  have m: "q_last s h \<in> Next ` set xs" using seg_end [OF sg(3)] Cons by auto
  let ?s = "TAILQ_INSERT_HEAD h e s"
  have s: "deref ?s l = (if l = First h then Some e else if l = Next e then Some f else deref s l)"
      "q_prev ?s = (q_prev s)(f := Next e, e := First h)" "q_last ?s = q_last s" for l
    using sg(1) by (auto simp: TAILQ_INSERT_HEAD_def Let_def q_first_deref simp del: assign.simps deref.simps)
  have "seg ?s (Next f) zs (q_last s h)"
    by (rule seg_cong [OF sg(3)]) (use d assms(2) Cons in \<open>auto simp: s simp del: deref.simps\<close>)
  then show ?thesis using assms(2) d Cons sg m by (auto simp: tailq_at_def s simp del: deref.simps)
qed

lemma tailq_INSERT_BEFORE:
  assumes "tailq_at s h (xs @ l # ys)" "e \<notin> set (xs @ l # ys)"
  shows "tailq_at (TAILQ_INSERT_BEFORE l e s) h (xs @ e # l # ys)"
proof -
  obtain p where p: "q_prev s l = p" "seg s (First h) xs p" "deref s p = Some l" "seg s (Next l) ys (q_last s h)"
    "deref s (q_last s h) = None" "p = (if xs = [] then First h else Next (last xs))"
    "q_last s h = Next (last (l # ys))" "distinct (xs @ l # ys)" "p \<noteq> Next l" "p \<notin> Next ` set ys"
    using tailq_split [OF assms(1)] by blast
  have pe: "p \<noteq> Next e" and m: "q_last s h \<noteq> Next e" "q_last s h \<noteq> p" using p assms(2) by (auto split: if_splits)
  let ?s = "TAILQ_INSERT_BEFORE l e s"
  have s: "deref ?s k = (if k = p then Some e else if k = Next e then Some l else deref s k)"
      "q_prev ?s = (q_prev s)(e := p, l := Next e)" "q_last ?s = q_last s" for k
    using p(1) assms(2) pe by (auto simp: TAILQ_INSERT_BEFORE_def Let_def simp del: assign.simps deref.simps)
  have "seg ?s (First h) xs p"
    by (rule seg_cong [OF p(2)]) (use p assms(2) in \<open>auto simp: s simp del: deref.simps\<close>)
  moreover have "seg ?s (Next l) ys (q_last s h)"
    by (rule seg_cong [OF p(4)]) (use p assms(2) in \<open>auto simp: s simp del: deref.simps\<close>)
  ultimately show ?thesis
    using p assms(2) pe m by (auto simp: tailq_at_def s simp del: deref.simps)
qed

lemma tailq_INSERT_AFTER:
  assumes "tailq_at s h (xs @ l # ys)" "e \<notin> set (xs @ l # ys)"
  shows "tailq_at (TAILQ_INSERT_AFTER h l e s) h (xs @ l # e # ys)"
proof -
  obtain p where p: "q_prev s l = p" "seg s (First h) xs p" "deref s p = Some l" "seg s (Next l) ys (q_last s h)"
    "deref s (q_last s h) = None" "p = (if xs = [] then First h else Next (last xs))"
    "q_last s h = Next (last (l # ys))" "distinct (xs @ l # ys)" "p \<noteq> Next l" "p \<notin> Next ` set ys"
    using tailq_split [OF assms(1)] by blast
  have pe: "p \<noteq> Next e" "e \<noteq> l" using p assms(2) by (auto split: if_splits)
  let ?s = "TAILQ_INSERT_AFTER h l e s"
  have s: "deref ?s k = (if k = Next l then Some e else if k = Next e then deref s (Next l) else deref s k)"
      "q_prev ?s = (case deref s (Next l) of Some f \<Rightarrow> (q_prev s)(f := Next e, e := Next l) | None \<Rightarrow> (q_prev s)(e := Next l))"
      "q_last ?s = (case deref s (Next l) of Some _ \<Rightarrow> q_last s | None \<Rightarrow> (q_last s)(h := Next e))" for k
    by (auto simp: TAILQ_INSERT_AFTER_def Let_def q_next_deref split: option.splits simp del: assign.simps deref.simps)
  have nx: "deref s (Next l) = (case ys of [] \<Rightarrow> None | f # _ \<Rightarrow> Some f)" using p(4,5,7) by (cases ys) auto
  have "seg ?s (First h) xs p"
    by (rule seg_cong [OF p(2)]) (use p assms(2) nx in \<open>auto simp: s split: list.splits simp del: deref.simps\<close>)
  moreover have "seg ?s (Next e) ys (if ys = [] then Next e else q_last s h)"
  proof (cases ys)
    case (Cons f zs)
    have "seg ?s (Next f) zs (q_last s h)"
      by (rule seg_cong [where s = s]) (use p assms(2) nx Cons in \<open>auto simp: s simp del: deref.simps\<close>)
    then show ?thesis using Cons nx assms(2) p pe by (auto simp: s simp del: deref.simps)
  qed simp
  ultimately show ?thesis
    using p assms(2) pe nx by (auto simp: tailq_at_def s split: list.splits if_splits simp del: deref.simps)
qed

lemma tailq_CONCAT:
  assumes "tailq_at s h xs" "tailq_at s k ys" "h \<noteq> k" "set xs \<inter> set ys = {}"
  shows "tailq_at (TAILQ_CONCAT h k s) h (xs @ ys)" "tailq_at (TAILQ_CONCAT h k s) k []"
proof -
  have sg: "seg s (First h) xs (q_last s h)" "seg s (First k) ys (q_last s k)" "deref s (q_last s k) = None"
    and d: "distinct xs" "distinct ys" using assms(1,2) by (auto simp: tailq_at_def)
  have m: "q_last s h = (if xs = [] then First h else Next (last xs))" by (rule seg_end [OF sg(1)])
  have "tailq_at (TAILQ_CONCAT h k s) h (xs @ ys) \<and> tailq_at (TAILQ_CONCAT h k s) k []"
  proof (cases ys)
    case Nil
    then have "q_first s k = None" using seg_first [OF assms(2)] by simp
    then show ?thesis using assms(1,2) Nil by (simp add: TAILQ_CONCAT_def)
  next
    case (Cons f zs)
    have f: "q_first s k = Some f" using seg_first [OF assms(2)] Cons by simp
    have l: "q_last s k = Next (last ys)" using seg_end [OF sg(2)] Cons by auto
    let ?s = "TAILQ_CONCAT h k s"
    have s: "deref ?s j = (if j = First k then None else if j = q_last s h then Some f else deref s j)"
      "q_prev ?s = (q_prev s)(f := q_last s h)" "q_last ?s = (q_last s)(h := q_last s k, k := First k)" for j
      using assms(3) f by (auto simp: TAILQ_CONCAT_def TAILQ_INIT_def Let_def simp del: assign.simps deref.simps)
    have ne: "q_last s h \<noteq> First k" "q_last s h \<notin> Next ` set ys" "q_last s k \<noteq> q_last s h"
      using m l assms(3,4) Cons last_in_set [of xs] last_in_set [of ys] by (auto split: if_splits simp del: last_in_set)
    have ne': "\<And>x. x \<in> set zs \<Longrightarrow> Next x \<noteq> q_last s h" using ne(2) Cons by (metis image_eqI list.set_intros(2))
    have "seg ?s (First h) xs (q_last s h)"
      by (rule seg_cong [OF sg(1)]) (use d assms Cons in \<open>auto simp: s simp del: deref.simps\<close>)
    moreover have "seg ?s (Next f) zs (q_last s k)"
      by (rule seg_cong [where s = s]) (use sg(2) d ne ne' Cons in \<open>auto simp: s simp del: deref.simps\<close>)
    ultimately show ?thesis
      using Cons d assms(3,4) ne l sg(3) by (auto simp: tailq_at_def s simp del: deref.simps)
  qed
  then show "tailq_at (TAILQ_CONCAT h k s) h (xs @ ys)" "tailq_at (TAILQ_CONCAT h k s) k []" by simp_all
qed

text \<open>The accesses and the loops.\<close>

lemma tailq_EMPTY: "tailq_at s h xs \<Longrightarrow> TAILQ_EMPTY h s \<longleftrightarrow> xs = []"
  by (simp add: TAILQ_EMPTY_def seg_first split: list.splits)

lemma tailq_FIRST: "tailq_at s h (x # xs) \<Longrightarrow> TAILQ_FIRST h s = Some x"
  by (simp add: TAILQ_FIRST_def seg_first)

lemma tailq_PREV:
  assumes "tailq_at s h (xs @ e # ys)"
  shows "TAILQ_PREV e s = (if xs = [] then None else Some (last xs))"
proof (cases xs rule: rev_cases)
  case Nil
  then show ?thesis using assms by (auto simp: tailq_at_def TAILQ_PREV_def)
next
  case (snoc us u)
  then show ?thesis using assms by (auto simp: tailq_at_def TAILQ_PREV_def)
qed

lemma tailq_LAST:
  assumes "tailq_at s h xs"
  shows "TAILQ_LAST h s = (if xs = [] then None else Some (last xs))"
proof (cases xs rule: rev_cases)
  case Nil
  then have "q_last s h = First h" "deref s (First h) = None" using assms by (auto simp: tailq_at_def)
  then show ?thesis using Nil by (simp add: TAILQ_LAST_def)
next
  case (snoc us u)
  then have "q_last s h = Next u" "deref s (q_prev s u) = Some u" using assms by (auto simp: tailq_at_def)
  then show ?thesis using snoc by (simp add: TAILQ_LAST_def)
qed

lemma foreach_seg:
  "seg s l xs m \<Longrightarrow> deref s m = None \<Longrightarrow> foreach (q_next s) (deref s l) = Some xs"
proof (induction xs arbitrary: l)
  case Nil
  then show ?case by (simp add: foreach.simps)
next
  case (Cons x xs)
  then have "foreach (q_next s) (q_next s x) = Some xs" by (metis deref.simps(2) seg.simps(2))
  then show ?case using Cons.prems by (subst foreach.simps) simp
qed

lemma tailq_FOREACH: "tailq_at s h xs \<Longrightarrow> TAILQ_FOREACH h s = Some xs"
  using foreach_seg [of s "First h" xs "q_last s h"] by (simp add: tailq_at_def TAILQ_FOREACH_def)

lemma tailq_FOREACH_REVERSE:
  assumes "tailq_at s h xs"
  shows "TAILQ_FOREACH_REVERSE h s = Some (rev xs)"
proof -
  have "foreach (\<lambda>e. TAILQ_PREV e s) (if us = [] then None else Some (last us)) = Some (rev us)"
    if "xs = us @ vs" for us vs
    using that
  proof (induction us arbitrary: vs rule: rev_induct)
    case Nil
    then show ?case by (simp add: foreach.simps)
  next
    case (snoc u us)
    then have "tailq_at s h (us @ u # vs)" using assms by simp
    then have "TAILQ_PREV u s = (if us = [] then None else Some (last us))" by (rule tailq_PREV)
    then show ?case using snoc.IH [of "u # vs"] snoc.prems by (subst foreach.simps) auto
  qed
  from this [of xs "[]"] show ?thesis using tailq_LAST [OF assms] by (simp add: TAILQ_FOREACH_REVERSE_def)
qed

section \<open>The operations on lists\<close>

text \<open>
  A list is a tail queue whose last field is not kept: the operations agree up to that field.
\<close>

lemma list_tailq: "list_at s h xs \<longleftrightarrow> (\<exists>m. tailq_at (set_last h m s) h xs)"
proof -
  have "seg (set_last h m s) l xs k = seg s l xs k" for m l k
    by (induction xs arbitrary: l) auto
  then show ?thesis by (auto simp: list_at_def tailq_at_def)
qed

lemma list_INSERT_HEAD_tailq:
  "set_last h (q_last (TAILQ_INSERT_HEAD h e (set_last h m s)) h) (LIST_INSERT_HEAD h e s)
     = TAILQ_INSERT_HEAD h e (set_last h m s)"
  by (rule qstore.equality) (auto simp: LIST_INSERT_HEAD_def TAILQ_INSERT_HEAD_def Let_def split: option.splits)

lemma list_INSERT_AFTER_tailq:
  "set_last h (q_last (TAILQ_INSERT_AFTER h l e (set_last h m s)) h) (LIST_INSERT_AFTER l e s)
     = TAILQ_INSERT_AFTER h l e (set_last h m s)"
  by (rule qstore.equality) (auto simp: LIST_INSERT_AFTER_def TAILQ_INSERT_AFTER_def Let_def split: option.splits)

lemma list_INSERT_BEFORE_tailq:
  "set_last h m (LIST_INSERT_BEFORE l e s) = TAILQ_INSERT_BEFORE l e (set_last h m s)"
  by (cases "q_prev s l"; cases "l = e"; rule qstore.equality)
    (auto simp: LIST_INSERT_BEFORE_def TAILQ_INSERT_BEFORE_def Let_def)

lemma list_REMOVE_tailq:
  "set_last h (q_last (TAILQ_REMOVE h e (set_last h m s)) h) (LIST_REMOVE e s)
     = TAILQ_REMOVE h e (set_last h m s)"
  by (cases "q_prev s e"; rule qstore.equality)
    (auto simp: LIST_REMOVE_def TAILQ_REMOVE_def Let_def split: option.splits)

lemma list_INIT: "list_at (LIST_INIT h s) h []"
  by (simp add: list_at_def LIST_INIT_def)

lemma list_INSERT_HEAD: "list_at s h xs \<Longrightarrow> e \<notin> set xs \<Longrightarrow> list_at (LIST_INSERT_HEAD h e s) h (e # xs)"
  unfolding list_tailq by (metis list_INSERT_HEAD_tailq tailq_INSERT_HEAD)

lemma list_INSERT_AFTER:
  "list_at s h (xs @ l # ys) \<Longrightarrow> e \<notin> set (xs @ l # ys) \<Longrightarrow> list_at (LIST_INSERT_AFTER l e s) h (xs @ l # e # ys)"
  unfolding list_tailq by (metis list_INSERT_AFTER_tailq tailq_INSERT_AFTER)

lemma list_INSERT_BEFORE:
  "list_at s h (xs @ l # ys) \<Longrightarrow> e \<notin> set (xs @ l # ys) \<Longrightarrow> list_at (LIST_INSERT_BEFORE l e s) h (xs @ e # l # ys)"
  unfolding list_tailq by (metis list_INSERT_BEFORE_tailq tailq_INSERT_BEFORE)

lemma list_REMOVE: "list_at s h (xs @ e # ys) \<Longrightarrow> list_at (LIST_REMOVE e s) h (xs @ ys)"
  unfolding list_tailq by (metis list_REMOVE_tailq tailq_REMOVE)

lemma list_FOREACH: "list_at s h xs \<Longrightarrow> LIST_FOREACH h s = Some xs"
  using foreach_seg [of s "First h" xs] by (auto simp: list_at_def LIST_FOREACH_def)

end
