(* ===== verification/Dare_Queue_Props.thy ===== *)
theory Dare_Queue_Props
  imports Dare_Queue Dare_Ud Dare_Demo
begin

text \<open>
  The queue between the proxy and the server thread.  The model of both threads keeps it as a list; here
  the critical sections run on the tail queue of \<^verbatim>\<open>queue.h\<close> and are shown to refine that model.  The locale
  \<open>fifo\<close> is what the threads rely on.
\<close>

section \<open>What the threads rely on\<close>

locale fifo =
  fixes inv :: "'q \<Rightarrow> bool" and elems :: "'q \<Rightarrow> 'a list"
    and is_empty :: "'q \<Rightarrow> bool" and front :: "'q \<Rightarrow> 'a option"
    and enq :: "'a \<Rightarrow> 'q \<Rightarrow> 'q" and deq :: "'a \<Rightarrow> 'q \<Rightarrow> 'q"
  assumes empty_elems: "inv q \<Longrightarrow> is_empty q \<longleftrightarrow> elems q = []"
    and front_elems: "inv q \<Longrightarrow> elems q = x # xs \<Longrightarrow> front q = Some x"
    and enq_elems: "inv q \<Longrightarrow> x \<notin> set (elems q) \<Longrightarrow> inv (enq x q) \<and> elems (enq x q) = elems q @ [x]"
    and deq_elems: "inv q \<Longrightarrow> elems q = x # xs \<Longrightarrow> inv (deq x q) \<and> elems (deq x q) = xs"
begin

text \<open>One round of a loop that takes entries until the queue is empty.\<close>

lemma round:
  "inv q \<Longrightarrow> elems q = x # xs \<Longrightarrow>
     \<not> is_empty q \<and> front q = Some x \<and> inv (deq x q) \<and> elems (deq x q) = xs"
  by (simp add: empty_elems front_elems deq_elems)

text \<open>An entry that is put into a queue leaves it after all the others.\<close>

lemma enq_front:
  "inv q \<Longrightarrow> x \<notin> set (elems q) \<Longrightarrow>
     front (enq x q) = Some (case elems q of [] \<Rightarrow> x | y # _ \<Rightarrow> y)"
  using enq_elems [of q x] front_elems [of "enq x q"] by (auto split: list.splits)

end

definition tailq_inv :: "'h \<Rightarrow> ('h, 'a) qstore \<Rightarrow> bool" where
  "tailq_inv h q \<longleftrightarrow> (\<exists>xs. tailq_at q h xs)"

definition tailq_elems :: "'h \<Rightarrow> ('h, 'a) qstore \<Rightarrow> 'a list" where
  "tailq_elems h q = the (TAILQ_FOREACH h q)"

lemma tailq_elems: "tailq_at q h xs \<Longrightarrow> tailq_elems h q = xs"
  by (simp add: tailq_elems_def tailq_FOREACH)

lemma tailq_inv: "tailq_inv h q \<longleftrightarrow> tailq_at q h (tailq_elems h q)"
  by (metis tailq_elems tailq_inv_def)

interpretation tailq: fifo "tailq_inv h" "tailq_elems h" "TAILQ_EMPTY h" "TAILQ_FIRST h"
  "TAILQ_INSERT_TAIL h" "TAILQ_REMOVE h" for h
proof
  fix q :: "('a, 'b) qstore" and x xs
  assume inv: "tailq_inv h q"
  then have at: "tailq_at q h (tailq_elems h q)" by (simp add: tailq_inv)
  show "TAILQ_EMPTY h q \<longleftrightarrow> tailq_elems h q = []" by (rule tailq_EMPTY [OF at])
  show "TAILQ_FIRST h q = Some x" if "tailq_elems h q = x # xs"
    using at that by (simp add: tailq_FIRST)
  show "tailq_inv h (TAILQ_INSERT_TAIL h x q) \<and> tailq_elems h (TAILQ_INSERT_TAIL h x q) = tailq_elems h q @ [x]"
    if "x \<notin> set (tailq_elems h q)"
    using tailq_INSERT_TAIL [OF at that] tailq_elems tailq_inv_def by metis
  show "tailq_inv h (TAILQ_REMOVE h x q) \<and> tailq_elems h (TAILQ_REMOVE h x q) = xs"
    if "tailq_elems h q = x # xs"
    using tailq_REMOVE [of q h "[]" x xs] at that tailq_elems tailq_inv_def by (metis append_Nil)
qed

section \<open>The critical sections\<close>

text \<open>The loop of \<^verbatim>\<open>get_tailq_message\<close>; \<open>body\<close> is the contents of the entries.\<close>

partial_function (option) drain_tailq ::
    "'h \<Rightarrow> ('a \<Rightarrow> tailq_entry) \<Rightarrow> ('h, 'a) qstore \<Rightarrow> 'e srv \<Rightarrow> (('h, 'a) qstore \<times> 'e srv) option" where
  "drain_tailq h body q s =
     (if TAILQ_EMPTY h q then Some (q, s)
      else case TAILQ_FIRST h q of
        None \<Rightarrow> None
      | Some n3 \<Rightarrow> do {
          (idx, s1) \<leftarrow> append_entry (tq_req_id (body n3)) (tq_connection_id (body n3)) (tq_type (body n3)) (tq_cmd (body n3)) s;
          drain_tailq h body (TAILQ_REMOVE h n3 q) (s1\<lparr>last_write_csm_idx := idx\<rparr>)
        })"

text \<open>The end of \<^verbatim>\<open>leader_handle_submit_req\<close>: the entry \<open>n2\<close> is filled and put at the tail.\<close>

definition submit_tailq ::
    "'h \<Rightarrow> 'a \<Rightarrow> tailq_entry \<Rightarrow> ('a \<Rightarrow> tailq_entry) \<Rightarrow> ('h, 'a) qstore \<Rightarrow> ('a \<Rightarrow> tailq_entry) \<times> ('h, 'a) qstore" where
  "submit_tailq h n2 entry body q = (body(n2 := entry), TAILQ_INSERT_TAIL h n2 q)"

lemma append_entry_tailhead:
  "append_entry r c t d (s\<lparr>tailhead := xs\<rparr>) = map_option (\<lambda>(i, s'). (i, s'\<lparr>tailhead := xs\<rparr>)) (append_entry r c t d s)"
  by (cases "log_append_entry (slog s) (prev_log_entry_head s) (SID_GET_TERM (c_sid (ctrl s))) r c t d")
    (auto simp: append_entry_def)

lemma drain_tailq_refines:
  fixes s :: "'e srv"
  shows "tailq_inv h q \<Longrightarrow> drain_queue (map body (tailq_elems h q)) (s\<lparr>tailhead := map body (tailq_elems h q)\<rparr>) =
     map_option (\<lambda>(q', t). t\<lparr>tailhead := []\<rparr>) (drain_tailq h body q s)"
proof (induction "tailq_elems h q" arbitrary: q s)
  case Nil
  then have "TAILQ_EMPTY h q" using tailq.empty_elems by metis
  then show ?case by (subst drain_tailq.simps) (simp flip: Nil.hyps)
next
  case (Cons x xs)
  note x = Cons.hyps(2) [symmetric]
  have q: "\<not> TAILQ_EMPTY h q" "TAILQ_FIRST h q = Some x" "tailq_inv h (TAILQ_REMOVE h x q)"
    "tailq_elems h (TAILQ_REMOVE h x q) = xs"
    using tailq.round [OF Cons.prems x] by simp_all
  have IH: "drain_queue (map body xs) (t\<lparr>tailhead := map body xs\<rparr>) =
     map_option (\<lambda>(q', t). t\<lparr>tailhead := []\<rparr>) (drain_tailq h body (TAILQ_REMOVE h x q) t)" for t :: "'e srv"
    using Cons.hyps(1) [of "TAILQ_REMOVE h x q" t] q(3,4) by simp
  let ?append = "append_entry (tq_req_id (body x)) (tq_connection_id (body x)) (tq_type (body x)) (tq_cmd (body x)) s"
  show ?case
  proof (cases ?append)
    case None
    then show ?thesis by (subst drain_tailq.simps) (simp add: x q append_entry_tailhead)
  next
    case (Some r)
    then obtain i u where u: "?append = Some (i, u)" by (cases r) auto
    have "drain_queue (map body (x # xs)) (s\<lparr>tailhead := map body (x # xs)\<rparr>)
        = drain_queue (map body xs) (u\<lparr>last_write_csm_idx := i, tailhead := map body xs\<rparr>)"
      by (simp add: append_entry_tailhead u)
    also have "\<dots> = map_option (\<lambda>(q', t). t\<lparr>tailhead := []\<rparr>) (drain_tailq h body q s)"
      by (subst drain_tailq.simps) (simp add: q u IH)
    finally show ?thesis by (simp only: x)
  qed
qed

lemma drain_tailq_empties:
  "tailq_inv h q \<Longrightarrow> drain_tailq h body q s = Some (q', t) \<Longrightarrow> tailq_at q' h []"
proof (induction "tailq_elems h q" arbitrary: q s)
  case Nil
  then show ?case using tailq.empty_elems [of h q]
    by (subst (asm) drain_tailq.simps) (simp add: tailq_inv flip: Nil.hyps)
next
  case (Cons x xs)
  note x = Cons.hyps(2) [symmetric]
  have q: "\<not> TAILQ_EMPTY h q" "TAILQ_FIRST h q = Some x" "tailq_inv h (TAILQ_REMOVE h x q)"
    "xs = tailq_elems h (TAILQ_REMOVE h x q)"
    using tailq.round [OF Cons.prems(1) x] by simp_all
  show ?case
    using Cons.prems(2) Cons.hyps(1) [OF q(4,3)] q(1,2)
    by (subst (asm) drain_tailq.simps) (auto simp: bind_eq_Some_conv)
qed

section \<open>Properties\<close>

text \<open>C12: the queue macros on pointers do what the model of the two threads says.  A request that the
  proxy puts at the tail comes after all requests that are waiting; the server thread takes the requests from the front until
  the queue is empty, and the log, the return of the call included, is that of the loop over the list of requests.\<close>

theorem shared_queue_refines:
  assumes at: "tailq_at q h ns" and abs: "tailhead s = map body ns" and fresh: "n2 \<notin> set ns"
  shows "(case submit_tailq h n2 entry body q of (body', q') \<Rightarrow>
       tailq_at q' h (ns @ [n2]) \<and> map body' (ns @ [n2]) = tailhead s @ [entry]) \<and>
     (case drain_tailq h body q s of
        None \<Rightarrow> get_tailq_message s = None
      | Some (q', t) \<Rightarrow> tailq_at q' h [] \<and> get_tailq_message s = Some (t\<lparr>tailhead := []\<rparr>))"
proof
  have inv: "tailq_inv h q" "tailq_elems h q = ns"
    using at tailq_elems by (auto simp: tailq_inv_def)
  show "case submit_tailq h n2 entry body q of (body', q') \<Rightarrow>
       tailq_at q' h (ns @ [n2]) \<and> map body' (ns @ [n2]) = tailhead s @ [entry]"
    using tailq_INSERT_TAIL [OF at fresh] abs fresh by (auto simp: submit_tailq_def)
  have "s\<lparr>tailhead := tailhead s\<rparr> = s" by simp
  then have "get_tailq_message s = map_option (\<lambda>(q', t). t\<lparr>tailhead := []\<rparr>) (drain_tailq h body q s)"
    using drain_tailq_refines [OF inv(1), of body s] inv(2) abs by (metis get_tailq_message_def)
  then show "case drain_tailq h body q s of
        None \<Rightarrow> get_tailq_message s = None
      | Some (q', t) \<Rightarrow> tailq_at q' h [] \<and> get_tailq_message s = Some (t\<lparr>tailhead := []\<rparr>)"
    using drain_tailq_empties [OF inv(1)] by (auto split: option.split)
qed

definition demo_entry :: tailq_entry where
  "demo_entry = \<lparr>tq_type = 5, tq_connection_id = 1, tq_req_id = 2, tq_cmd = [7]\<rparr>"

definition demo_q :: "(unit, nat) qstore" where
  "demo_q = TAILQ_INSERT_TAIL () 1 (TAILQ_INIT ()
     \<lparr>q_first = (\<lambda>_. None), q_last = (\<lambda>_. First ()), q_next = (\<lambda>_. None), q_prev = (\<lambda>_. First ())\<rparr>)"

lemma shared_queue_refines_witness:
  "let s = (demo_srv (the (log_new True)) ())\<lparr>tailhead := [demo_entry]\<rparr>; body = (\<lambda>_. demo_entry) in
   (case submit_tailq () 2 (demo_entry\<lparr>tq_cmd := [8]\<rparr>) body demo_q of (body', q') \<Rightarrow>
       tailq_at q' () [1, 2] \<and> map body' [1, 2] = [demo_entry, demo_entry\<lparr>tq_cmd := [8]\<rparr>]) \<and>
   (case drain_tailq () body demo_q s of
        None \<Rightarrow> get_tailq_message s = None
      | Some (q', t) \<Rightarrow> tailq_at q' () [] \<and> get_tailq_message s = Some (t\<lparr>tailhead := []\<rparr>))"
proof -
  have "tailq_at demo_q () [1]"
    using tailq_INSERT_TAIL [OF tailq_INIT, of "1::nat" "()"] by (simp add: demo_q_def)
  then show ?thesis
    using shared_queue_refines [of demo_q "()" "[1]" "(demo_srv (the (log_new True)) ())\<lparr>tailhead := [demo_entry]\<rparr>" "\<lambda>_. demo_entry" 2
        "demo_entry\<lparr>tq_cmd := [8]\<rparr>"] by (simp add: Let_def)
qed

end
