(* ===== verification/Dare_Ibv.thy ===== *)
theory Dare_Ibv
  imports Dare_Server "HOL-Library.State_Monad" "HOL-Library.Multiset"
begin

text \<open>
  Setting up the InfiniBand device and releasing it (\<^verbatim>\<open>dare_ibv.c\<close>, and the parts of \<^verbatim>\<open>dare_ibv_ud.c\<close> and \<^verbatim>\<open>dare_ibv_rc.c\<close>
  that create and destroy objects of the verbs library).  The library, the allocator and the environment
  are the parameter \<open>'v verbs\<close>; every call may fail.  The state has what the program
  holds: every object it got from the library and has not given back.  The flag \<open>ub\<close> is set by undefined behaviour: giving back
  what is not held, following a null pointer, or reading a pointer that was never written.
\<close>

section \<open>The library\<close>

type_synonym handle = nat

datatype kind = K_list | K_context | K_pd | K_cq | K_qp | K_mr | K_ah | K_mem

type_synonym res = "kind \<times> handle"

datatype qp_type = IBV_QPT_RC | IBV_QPT_UD

record qp_init =
  qi_type :: qp_type
  qi_send_cq :: handle
  qi_recv_cq :: handle
  qi_max_inline :: u32
  qi_max_send_wr :: int
  qi_max_recv_wr :: int

record ah_attr =
  ah_dgid :: "u8 list"
  ah_dlid :: u16
  ah_port :: u8

text \<open>The memory that is registered: a buffer of the heap, the control data, the log, or the snapshot.\<close>

datatype buffer = B_mem handle | B_ctrl | B_log | B_prereg

text \<open>What \<^verbatim>\<open>malloc\<close> is called for: the device, an array of pointers, a buffer, an array of completions, an endpoint.\<close>

datatype block = A_device | A_pointers nat | A_buffer nat | A_completions int | A_ep

datatype new_call =
    Open_device nat
  | Alloc_pd handle
  | Create_cq handle int
  | Create_qp handle qp_init
  | Reg_mr handle buffer nat bool
  | Create_ah handle ah_attr
  | Malloc block

fun kind_of :: "new_call \<Rightarrow> kind" where
  "kind_of (Open_device i) = K_context"
| "kind_of (Alloc_pd c) = K_pd"
| "kind_of (Create_cq c n) = K_cq"
| "kind_of (Create_qp p a) = K_qp"
| "kind_of (Reg_mr p b n r) = K_mr"
| "kind_of (Create_ah p a) = K_ah"
| "kind_of (Malloc n) = K_mem"

record dev_attr =
  max_qp_wr :: u32
  max_cqe :: int
  max_pkeys :: u16
  phys_port_cnt :: u8

record port_attr =
  pt_active :: bool
  pt_active_mtu :: u32
  pt_lid :: u16

text \<open>
  Calls that return an error code (0 is success) or, for \<open>Poll_cq\<close>, the number of completions;
  \<open>Free\<close> stands for the destructor of each kind of object.
\<close>

datatype rc_call =
    Free kind handle
  | Modify_qp handle ib_qps
  | Attach_mcast handle "u8 list" u16
  | Detach_mcast handle "u8 list" u16
  | Post_recv handle "(nat \<times> handle \<times> handle) list"
  | Poll_cq handle

record 'v verbs =
  vb_devices :: "'v \<Rightarrow> (nat \<times> (handle \<times> nat list) option) \<times> 'v"
  vb_new :: "new_call \<Rightarrow> 'v \<Rightarrow> handle option \<times> 'v"
  vb_rc :: "rc_call \<Rightarrow> 'v \<Rightarrow> int \<times> 'v"
  vb_query_device :: "handle \<Rightarrow> 'v \<Rightarrow> (int \<times> dev_attr) \<times> 'v"
  vb_query_port :: "handle \<Rightarrow> u8 \<Rightarrow> 'v \<Rightarrow> (int \<times> port_attr) \<times> 'v"
  vb_query_pkey :: "handle \<Rightarrow> u8 \<Rightarrow> u16 \<Rightarrow> 'v \<Rightarrow> (int \<times> u16) \<times> 'v"
  vb_query_gid :: "handle \<Rightarrow> u8 \<Rightarrow> int \<Rightarrow> 'v \<Rightarrow> (int \<times> u8 list) \<times> 'v"
  vb_query_qp :: "handle \<Rightarrow> 'v \<Rightarrow> ib_qps \<times> 'v"
  vb_inet_pton :: "string \<Rightarrow> u8 list option"
  vb_mgid :: "string option"
  vb_polls :: nat

section \<open>The device and the state\<close>

text \<open>A cell of an array that \<^verbatim>\<open>malloc\<close> returned: it has no value until it is written.\<close>

datatype slot = Garbage | Slot "handle option"

record ib_device =
  d_mem :: handle
  d_context :: handle
  d_attr :: dev_attr
  d_pkey_index :: u16
  d_gid_index :: int
  d_gid :: "u8 list"
  d_port_num :: u8
  d_mtu :: u32
  d_lid :: u16
  d_ud_pd :: "handle option"
  d_ud_qp :: "handle option"
  d_ud_rcq :: "handle option"
  d_ud_scq :: "handle option"
  d_ud_rcqe :: nat
  d_ud_recv_bufs :: "(handle \<times> slot list) option"
  d_ud_recv_mrs :: "(handle \<times> slot list) option"
  d_ud_send_buf :: "handle option"
  d_ud_send_mr :: "handle option"
  d_ud_max_inline_data :: u32
  d_request_id :: u64
  d_mcast_ah :: "handle option"
  d_mgid :: "u8 list"
  d_mlid :: u16
  d_rc_pd :: "handle option"
  d_rc_cq_log :: "handle option"
  d_rc_cq_ctrl :: "handle option"
  d_rc_cqe :: int
  d_rc_wc_array :: "handle option"
  d_log_mr :: "handle option"
  d_ctrl_mr :: "handle option"
  d_rc_max_inline_data :: u32
  d_rc_max_send_wr :: u32
  d_prereg_snapshot_mr :: "handle option"
  d_snapshot_mr :: "handle option"
  d_ulp_type :: int
  d_udata :: bool

record dev_ep =
  de_mem :: "handle option"
  de_ah :: "handle option"
  de_ctrl_qp :: "handle option"
  de_log_qp :: "handle option"

record 'v lib =
  env :: 'v
  held :: "res list"
  ub :: bool
  ibdev :: "ib_device option"
  wc_array :: "handle option"
  eps :: "dev_ep list"

type_synonym ('v, 'a) ib = "('v lib, 'a) state"

abbreviation ret :: "'a \<Rightarrow> ('v, 'a) ib" where "ret \<equiv> State_Monad.return"

definition call_env :: "('v \<Rightarrow> 'a \<times> 'v) \<Rightarrow> ('v, 'a) ib" where
  "call_env f = State (\<lambda>s. case f (env s) of (a, e) \<Rightarrow> (a, s\<lparr>env := e\<rparr>))"

definition modify :: "('v lib \<Rightarrow> 'v lib) \<Rightarrow> ('v, unit) ib" where
  "modify f = State (\<lambda>s. ((), f s))"

definition acquire :: "'v verbs \<Rightarrow> new_call \<Rightarrow> ('v, handle option) ib" where
  "acquire vb c = do {
     r \<leftarrow> call_env (vb_new vb c);
     modify (\<lambda>s. case r of None \<Rightarrow> s | Some h \<Rightarrow> s\<lparr>held := (kind_of c, h) # held s\<rparr>);
     ret r
   }"

definition undefined_behaviour :: "('v, unit) ib" where
  "undefined_behaviour = modify (\<lambda>s. s\<lparr>ub := True\<rparr>)"

text \<open>An object counts as given back once its destructor is called: the program never looks at the code for anything but a message.\<close>

definition release :: "'v verbs \<Rightarrow> kind \<Rightarrow> handle \<Rightarrow> ('v, int) ib" where
  "release vb k h = do {
     rc \<leftarrow> call_env (vb_rc vb (Free k h));
     modify (\<lambda>s. if (k, h) \<in> set (held s) then s\<lparr>held := remove1 (k, h) (held s)\<rparr> else s\<lparr>ub := True\<rparr>);
     ret rc
   }"

text \<open>\<^verbatim>\<open>if (NULL != p) destroy(p);\<close>\<close>

definition release_opt :: "'v verbs \<Rightarrow> kind \<Rightarrow> handle option \<Rightarrow> ('v, unit) ib" where
  "release_opt vb k p = (case p of None \<Rightarrow> ret () | Some h \<Rightarrow> do { _ \<leftarrow> release vb k h; ret () })"

text \<open>Reading through the global pointer \<^verbatim>\<open>IBDEV\<close>, and assigning one of the fields.\<close>

definition with_dev :: "'a \<Rightarrow> (ib_device \<Rightarrow> ('v, 'a) ib) \<Rightarrow> ('v, 'a) ib" where
  "with_dev a f = do {
     s \<leftarrow> State_Monad.get;
     case ibdev s of None \<Rightarrow> do { undefined_behaviour; ret a } | Some d \<Rightarrow> f d
   }"

definition set_dev :: "(ib_device \<Rightarrow> ib_device) \<Rightarrow> ('v, unit) ib" where
  "set_dev f = modify (\<lambda>s. s\<lparr>ibdev := map_option f (ibdev s)\<rparr>)"

text \<open>A pointer that is passed to the library, which follows it.\<close>

definition with_ptr :: "'a \<Rightarrow> handle option \<Rightarrow> (handle \<Rightarrow> ('v, 'a) ib) \<Rightarrow> ('v, 'a) ib" where
  "with_ptr a p f = (case p of None \<Rightarrow> do { undefined_behaviour; ret a } | Some h \<Rightarrow> f h)"

text \<open>\<^verbatim>\<open>IBDEV->x = ibv_create(...); if (NULL == IBDEV->x) error_return(1, ...);\<close>\<close>

definition new_field :: "'v verbs \<Rightarrow> new_call \<Rightarrow> (handle option \<Rightarrow> ib_device \<Rightarrow> ib_device) \<Rightarrow> (handle \<Rightarrow> ('v, int) ib) \<Rightarrow> ('v, int) ib" where
  "new_field vb c upd k = do {
     r \<leftarrow> acquire vb c;
     set_dev (upd r);
     case r of None \<Rightarrow> ret 1 | Some h \<Rightarrow> k h
   }"

text \<open>\<^verbatim>\<open>rc = f(); if (0 != rc) error_return(1, ...);\<close>\<close>

definition check_rc :: "('v, int) ib \<Rightarrow> ('v, int) ib \<Rightarrow> ('v, int) ib" where
  "check_rc m k = do { rc \<leftarrow> m; if rc \<noteq> 0 then ret 1 else k }"

section \<open>Finding a device\<close>

text \<open>\<^verbatim>\<open>test_qp_support_rc\<close>; the domain is given back before the completion queue.\<close>

definition test_out :: "'v verbs \<Rightarrow> handle \<Rightarrow> handle option \<Rightarrow> int \<Rightarrow> ('v, int) ib" where
  "test_out vb pd cq rc = do {
     _ \<leftarrow> release vb K_pd pd;
     release_opt vb K_cq cq;
     ret rc
   }"

definition test_qp_support_rc :: "'v verbs \<Rightarrow> handle \<Rightarrow> ('v, int) ib" where
  "test_qp_support_rc vb ctx = do {
     pd \<leftarrow> acquire vb (Alloc_pd ctx);
     case pd of None \<Rightarrow> ret 1 | Some pd \<Rightarrow> do {
       cq \<leftarrow> acquire vb (Create_cq ctx 2);
       case cq of None \<Rightarrow> test_out vb pd None 1 | Some cq \<Rightarrow> do {
         qp \<leftarrow> acquire vb (Create_qp pd \<lparr>qi_type = IBV_QPT_RC, qi_send_cq = cq, qi_recv_cq = cq,
            qi_max_inline = 0, qi_max_send_wr = 1, qi_max_recv_wr = 1\<rparr>);
         case qp of None \<Rightarrow> test_out vb pd (Some cq) 1 | Some qp \<Rightarrow> do {
           _ \<leftarrow> release vb K_qp qp;
           test_out vb pd (Some cq) 0
         }
       }
     }
   }"

lemma half_less: "n \<noteq> 0 \<Longrightarrow> unat (drop_bit 1 n) < unat n" for n :: u32
  by (simp only: unat_drop_bit_eq) (simp add: drop_bit_eq_div unat_gt_0)

text \<open>The loop of \<^verbatim>\<open>find_max_inline\<close>: the first size for which a queue pair can be created, or 0.\<close>

function inline_loop :: "'v verbs \<Rightarrow> handle \<Rightarrow> handle \<Rightarrow> u32 \<Rightarrow> ('v, int \<times> u32) ib" where
  "inline_loop vb pd cq n =
     (if n = 0 then ret (1, 0)
      else do {
        qp \<leftarrow> acquire vb (Create_qp pd \<lparr>qi_type = IBV_QPT_RC, qi_send_cq = cq, qi_recv_cq = cq,
            qi_max_inline = n, qi_max_send_wr = 0, qi_max_recv_wr = 1\<rparr>);
        case qp of
          Some qp \<Rightarrow> do { _ \<leftarrow> release vb K_qp qp; ret (0, n) }
        | None \<Rightarrow> inline_loop vb pd cq (drop_bit 1 n)
      })"
  by pat_completeness auto
termination
  by (relation "measure (\<lambda>(vb, pd, cq, n). unat n)") (simp_all only: wf_measure in_measure prod.case half_less not_False_eq_True)

definition find_max_inline :: "'v verbs \<Rightarrow> handle \<Rightarrow> handle \<Rightarrow> ('v, int \<times> u32) ib" where
  "find_max_inline vb ctx pd = do {
     cq \<leftarrow> acquire vb (Create_cq ctx 1);
     case cq of None \<Rightarrow> ret (1, 0) | Some cq \<Rightarrow> do {
       r \<leftarrow> inline_loop vb pd cq (push_bit 20 1);
       _ \<leftarrow> release vb K_cq cq;
       ret r
     }
   }"

definition ntohs :: "u16 \<Rightarrow> u16" where
  "ntohs w = push_bit 8 w OR drop_bit 8 w"

text \<open>The index of the partition key 0xFFFF: \<open>None\<close> is \<^verbatim>\<open>goto error\<close>, \<open>Some None\<close> that there is none.\<close>

primrec find_pkey :: "'v verbs \<Rightarrow> handle \<Rightarrow> u8 \<Rightarrow> u16 \<Rightarrow> nat \<Rightarrow> ('v, u16 option option) ib" where
  "find_pkey vb ctx i j 0 = ret (Some None)"
| "find_pkey vb ctx i j (Suc n) = do {
     (rc, pkey) \<leftarrow> call_env (vb_query_pkey vb ctx i j);
     if rc \<noteq> 0 then ret None
     else if ntohs pkey = 0xFFFF then ret (Some (Some j))
     else find_pkey vb ctx i (j + 1) n
   }"

text \<open>The loop over the ports: the first active port is used.\<close>

primrec find_port :: "'v verbs \<Rightarrow> ib_device \<Rightarrow> u8 \<Rightarrow> nat \<Rightarrow> ('v, ib_device option) ib" where
  "find_port vb d i 0 = ret (Some d)"
| "find_port vb d i (Suc n) = do {
     (rc, port) \<leftarrow> call_env (vb_query_port vb (d_context d) i);
     if rc \<noteq> 0 then ret None
     else if \<not> pt_active port then find_port vb d (i + 1) n
     else do {
       pk \<leftarrow> find_pkey vb (d_context d) i 0 (unat (max_pkeys (d_attr d)));
       case pk of None \<Rightarrow> ret None | Some pk \<Rightarrow> do {
         let d1 = d\<lparr>d_pkey_index := (case pk of None \<Rightarrow> d_pkey_index d | Some j \<Rightarrow> j),
                    d_mtu := pt_active_mtu port, d_port_num := i, d_lid := pt_lid port, d_gid_index := 0\<rparr>;
         (rc, gid) \<leftarrow> call_env (vb_query_gid vb (d_context d1) (d_port_num d1) (d_gid_index d1));
         if rc \<noteq> 0 then ret None else ret (Some (d1\<lparr>d_gid := gid\<rparr>))
       }
     }
   }"

definition zero_device :: "handle \<Rightarrow> handle \<Rightarrow> dev_attr \<Rightarrow> ib_device" where
  "zero_device m ctx a =
     \<lparr>d_mem = m, d_context = ctx, d_attr = a, d_pkey_index = 0, d_gid_index = 0, d_gid = replicate 16 0,
      d_port_num = 0, d_mtu = 0, d_lid = 0, d_ud_pd = None, d_ud_qp = None, d_ud_rcq = None, d_ud_scq = None,
      d_ud_rcqe = 0, d_ud_recv_bufs = None, d_ud_recv_mrs = None, d_ud_send_buf = None, d_ud_send_mr = None,
      d_ud_max_inline_data = 0, d_request_id = 1, d_mcast_ah = None, d_mgid = replicate 16 0, d_mlid = 0,
      d_rc_pd = None, d_rc_cq_log = None, d_rc_cq_ctrl = None, d_rc_cqe = 0, d_rc_wc_array = None,
      d_log_mr = None, d_ctrl_mr = None, d_rc_max_inline_data = 0, d_rc_max_send_wr = 0,
      d_prereg_snapshot_mr = None, d_snapshot_mr = None, d_ulp_type = 0, d_udata = False\<rparr>"

definition device_error :: "'v verbs \<Rightarrow> handle option \<Rightarrow> handle option \<Rightarrow> ('v, ib_device option) ib" where
  "device_error vb device ctx = do {
     release_opt vb K_mem device;
     release_opt vb K_context ctx;
     ret None
   }"

definition init_one_device :: "'v verbs \<Rightarrow> nat \<Rightarrow> ('v, ib_device option) ib" where
  "init_one_device vb ib_dev = do {
     ctx \<leftarrow> acquire vb (Open_device ib_dev);
     case ctx of None \<Rightarrow> device_error vb None None | Some ctx \<Rightarrow> do {
       t \<leftarrow> test_qp_support_rc vb ctx;
       if t \<noteq> 0 then device_error vb None (Some ctx)
       else do {
         m \<leftarrow> acquire vb (Malloc A_device);
         case m of None \<Rightarrow> device_error vb None (Some ctx) | Some m \<Rightarrow> do {
           (rc, a) \<leftarrow> call_env (vb_query_device vb ctx);
           if rc \<noteq> 0 then device_error vb (Some m) (Some ctx)
           else do {
             r \<leftarrow> find_port vb (zero_device m ctx a) 1 (unat (phys_port_cnt a));
             case r of None \<Rightarrow> device_error vb (Some m) (Some ctx)
             | Some d \<Rightarrow> if d_port_num d = 0 then device_error vb (Some m) (Some ctx) else ret (Some d)
           }
         }
       }
     }
   }"

section \<open>Unreliable datagrams\<close>

definition ud_prerequisite :: "'v verbs \<Rightarrow> nat \<Rightarrow> ('v, int) ib" where
  "ud_prerequisite vb receive_count = with_dev 1 (\<lambda>d.
     new_field vb (Alloc_pd (d_context d)) (\<lambda>r d. d\<lparr>d_ud_pd := r\<rparr>) (\<lambda>pd. do {
       set_dev (\<lambda>d. d\<lparr>d_ud_rcqe := receive_count\<rparr>);
       new_field vb (Create_cq (d_context d) (int receive_count)) (\<lambda>r d. d\<lparr>d_ud_rcq := r\<rparr>) (\<lambda>_.
         new_field vb (Create_cq (d_context d) (int receive_count)) (\<lambda>r d. d\<lparr>d_ud_scq := r\<rparr>) (\<lambda>_. do {
           (rc, n) \<leftarrow> find_max_inline vb (d_context d) pd;
           set_dev (\<lambda>d. d\<lparr>d_ud_max_inline_data := n\<rparr>);
           ret (if rc \<noteq> 0 then 1 else 0)
         }))
     }))"

text \<open>An assignment to a cell of one of the arrays of buffers.\<close>

definition put_slot :: "nat \<Rightarrow> handle option \<Rightarrow> (handle \<times> slot list) option \<Rightarrow> (handle \<times> slot list) option" where
  "put_slot i p = map_option (\<lambda>(h, xs). (h, xs[i := Slot p]))"

primrec reg_recv_bufs :: "'v verbs \<Rightarrow> handle \<Rightarrow> nat \<Rightarrow> nat \<Rightarrow> nat \<Rightarrow> ('v, int) ib" where
  "reg_recv_bufs vb pd len i 0 = ret 0"
| "reg_recv_bufs vb pd len i (Suc n) =
     new_field vb (Malloc (A_buffer len)) (\<lambda>r d. d\<lparr>d_ud_recv_bufs := put_slot i r (d_ud_recv_bufs d)\<rparr>) (\<lambda>b.
       new_field vb (Reg_mr pd (B_mem b) len False) (\<lambda>r d. d\<lparr>d_ud_recv_mrs := put_slot i r (d_ud_recv_mrs d)\<rparr>) (\<lambda>_.
         reg_recv_bufs vb pd len (Suc i) n))"

definition garbage_array :: "nat \<Rightarrow> handle option \<Rightarrow> (handle \<times> slot list) option" where
  "garbage_array n = map_option (\<lambda>h. (h, replicate n Garbage))"

definition ud_memory_reg :: "'v verbs \<Rightarrow> ('v, int) ib" where
  "ud_memory_reg vb = with_dev 1 (\<lambda>d. with_ptr 1 (d_ud_pd d) (\<lambda>pd. do {
     bufs \<leftarrow> acquire vb (Malloc (A_pointers (d_ud_rcqe d)));
     set_dev (\<lambda>d. d\<lparr>d_ud_recv_bufs := garbage_array (d_ud_rcqe d) bufs\<rparr>);
     mrs \<leftarrow> acquire vb (Malloc (A_pointers (d_ud_rcqe d)));
     set_dev (\<lambda>d. d\<lparr>d_ud_recv_mrs := garbage_array (d_ud_rcqe d) mrs\<rparr>);
     if bufs = None \<or> mrs = None then ret 1
     else check_rc (reg_recv_bufs vb pd (mtu_value (d_mtu d)) 0 (d_ud_rcqe d))
       (new_field vb (Malloc (A_buffer (mtu_value (d_mtu d)))) (\<lambda>r d. d\<lparr>d_ud_send_buf := r\<rparr>) (\<lambda>b.
         new_field vb (Reg_mr pd (B_mem b) (mtu_value (d_mtu d)) False) (\<lambda>r d. d\<lparr>d_ud_send_mr := r\<rparr>) (\<lambda>_. ret 0)))
   }))"

text \<open>The loops over the cells: reading a cell that was never written is undefined.\<close>

primrec release_slots :: "'v verbs \<Rightarrow> kind \<Rightarrow> slot list \<Rightarrow> ('v, unit) ib" where
  "release_slots vb k [] = ret ()"
| "release_slots vb k (c # cs) = do {
     (case c of Garbage \<Rightarrow> undefined_behaviour | Slot p \<Rightarrow> release_opt vb k p);
     release_slots vb k cs
   }"

definition release_array :: "'v verbs \<Rightarrow> kind \<Rightarrow> (handle \<times> slot list) option \<Rightarrow> ('v, unit) ib" where
  "release_array vb k a = (case a of None \<Rightarrow> ret () | Some (h, cs) \<Rightarrow> do {
     release_slots vb k cs;
     _ \<leftarrow> release vb K_mem h;
     ret ()
   })"

definition ud_memory_dereg :: "'v verbs \<Rightarrow> ('v, unit) ib" where
  "ud_memory_dereg vb = with_dev () (\<lambda>d. do {
     release_array vb K_mr (d_ud_recv_mrs d);
     set_dev (\<lambda>d. d\<lparr>d_ud_recv_mrs := None\<rparr>);
     release_array vb K_mem (d_ud_recv_bufs d);
     set_dev (\<lambda>d. d\<lparr>d_ud_recv_bufs := None\<rparr>);
     release_opt vb K_mr (d_ud_send_mr d);
     release_opt vb K_mem (d_ud_send_buf d);
     set_dev (\<lambda>d. d\<lparr>d_ud_send_buf := None\<rparr>)
   })"

definition MCG_GID :: "u8 list" where
  "MCG_GID = [255, 1, 0, 0, 0, 2, 201, 133, 0, 0, 0, 0, 0, 0, 0, 0]"

text \<open>\<open>None\<close> is the error of a string that is not an IPv6 address.\<close>

definition ipv6_string_to_raw :: "'v verbs \<Rightarrow> string \<Rightarrow> u8 list option" where
  "ipv6_string_to_raw vb ipv6_addr = map_option (take 16) (vb_inet_pton vb ipv6_addr)"

text \<open>The multicast address: \<open>None\<close> when the variable \<^verbatim>\<open>mgid\<close> is set and is not an IPv6 address.\<close>

definition mcast_raw :: "'v verbs \<Rightarrow> u8 list option" where
  "mcast_raw vb = (case vb_mgid vb of
     None \<Rightarrow> Some MCG_GID
   | Some m \<Rightarrow> if m = '''' then Some MCG_GID else ipv6_string_to_raw vb m)"

text \<open>The queue pair is stored in the device only after the last step.\<close>

definition ud_qp_create :: "'v verbs \<Rightarrow> ('v, int) ib" where
  "ud_qp_create vb = with_dev 1 (\<lambda>d. with_ptr 1 (d_ud_pd d) (\<lambda>pd. with_ptr 1 (d_ud_scq d) (\<lambda>scq. with_ptr 1 (d_ud_rcq d) (\<lambda>rcq. do {
     qp \<leftarrow> acquire vb (Create_qp pd \<lparr>qi_type = IBV_QPT_UD, qi_send_cq = scq, qi_recv_cq = rcq,
        qi_max_inline = d_ud_max_inline_data d, qi_max_send_wr = int (d_ud_rcqe d), qi_max_recv_wr = int (d_ud_rcqe d)\<rparr>);
     case qp of None \<Rightarrow> ret 1 | Some qp \<Rightarrow>
       (case mcast_raw vb of None \<Rightarrow> ret 1 | Some raw \<Rightarrow> do {
          set_dev (\<lambda>d. d\<lparr>d_mgid := raw, d_mlid := 0xc001\<rparr>);
          check_rc (call_env (vb_rc vb (Attach_mcast qp raw 0xc001)))
            (check_rc (call_env (vb_rc vb (Modify_qp qp IBV_QPS_INIT)))
              (check_rc (call_env (vb_rc vb (Modify_qp qp IBV_QPS_RTR)))
                (check_rc (call_env (vb_rc vb (Modify_qp qp IBV_QPS_RTS)))
                  (do { set_dev (\<lambda>d. d\<lparr>d_ud_qp := Some qp\<rparr>); ret 0 }))))
        })
   }))))"

text \<open>The loop that empties a completion queue; at most \<open>vb_polls\<close> completions are in it.\<close>

primrec poll_all :: "'v verbs \<Rightarrow> handle \<Rightarrow> nat \<Rightarrow> ('v, unit) ib" where
  "poll_all vb cq 0 = ret ()"
| "poll_all vb cq (Suc n) = do {
     ne \<leftarrow> call_env (vb_rc vb (Poll_cq cq));
     if ne > 0 then poll_all vb cq n else ret ()
   }"

definition ud_qp_destroy :: "'v verbs \<Rightarrow> ('v, unit) ib" where
  "ud_qp_destroy vb = with_dev () (\<lambda>d. case d_ud_qp d of None \<Rightarrow> ret () | Some qp \<Rightarrow> do {
     rc \<leftarrow> call_env (vb_rc vb (Modify_qp qp IBV_QPS_ERR));
     (if rc \<noteq> 0 then ret () else with_ptr () (d_ud_rcq d) (\<lambda>rcq. do {
        poll_all vb rcq (vb_polls vb);
        _ \<leftarrow> call_env (vb_rc vb (Modify_qp qp IBV_QPS_RESET));
        ret ()
      }));
     _ \<leftarrow> call_env (vb_rc vb (Detach_mcast qp (d_mgid d) (d_mlid d)));
     _ \<leftarrow> release vb K_qp qp;
     set_dev (\<lambda>d. d\<lparr>d_ud_qp := None\<rparr>)
   })"

definition mcast_ah_create :: "'v verbs \<Rightarrow> ('v, int) ib" where
  "mcast_ah_create vb = with_dev 1 (\<lambda>d. with_ptr 1 (d_ud_pd d) (\<lambda>pd. do {
     ah \<leftarrow> acquire vb (Create_ah pd \<lparr>ah_dgid = d_mgid d, ah_dlid = d_mlid d, ah_port = d_port_num d\<rparr>);
     case ah of None \<Rightarrow> ret 1 | Some h \<Rightarrow> do { set_dev (\<lambda>d. d\<lparr>d_mcast_ah := Some h\<rparr>); ret 0 }
   }))"

text \<open>The address handle of a peer, which a handshake stores in the endpoint.\<close>

definition ud_ah_create :: "'v verbs \<Rightarrow> u16 \<Rightarrow> u8 list \<Rightarrow> ('v, handle option) ib" where
  "ud_ah_create vb dlid dgid = with_dev None (\<lambda>d. with_ptr None (d_ud_pd d) (\<lambda>pd.
     acquire vb (Create_ah pd \<lparr>ah_dgid = dgid, ah_dlid = dlid, ah_port = d_port_num d\<rparr>)))"

definition ud_ah_destroy :: "'v verbs \<Rightarrow> handle option \<Rightarrow> ('v, unit) ib" where
  "ud_ah_destroy vb ah = release_opt vb K_ah ah"

definition ud_init :: "'v verbs \<Rightarrow> nat \<Rightarrow> ('v, int) ib" where
  "ud_init vb receive_count =
     check_rc (ud_prerequisite vb receive_count)
       (check_rc (ud_memory_reg vb)
         (check_rc (ud_qp_create vb)
           (check_rc (mcast_ah_create vb) (do {
              w \<leftarrow> acquire vb (Malloc (A_completions (int receive_count)));
              modify (\<lambda>s. s\<lparr>wc_array := w\<rparr>);
              ret 0
            }))))"

definition ud_shutdown :: "'v verbs \<Rightarrow> ('v, unit) ib" where
  "ud_shutdown vb = do {
     s \<leftarrow> State_Monad.get;
     release_opt vb K_mem (wc_array s);
     with_dev () (\<lambda>d. release_opt vb K_ah (d_mcast_ah d));
     ud_qp_destroy vb;
     ud_memory_dereg vb;
     with_dev () (\<lambda>d. do {
       release_opt vb K_cq (d_ud_scq d);
       release_opt vb K_cq (d_ud_rcq d);
       release_opt vb K_pd (d_ud_pd d)
     })
   }"

text \<open>\<^verbatim>\<open>ud_post_receives\<close>: the requests are linked in the order of the buffers; the keys of the memory regions are read.\<close>

fun recv_wrs :: "nat \<Rightarrow> slot list \<Rightarrow> slot list \<Rightarrow> (nat \<times> handle \<times> handle) list option" where
  "recv_wrs i (Slot (Some b) # bs) (Slot (Some m) # ms) = map_option ((#) (i, b, m)) (recv_wrs (Suc i) bs ms)"
| "recv_wrs i [] [] = Some []"
| "recv_wrs i _ _ = None"

definition MAX_CLIENT_COUNT :: nat where "MAX_CLIENT_COUNT = 64"

text \<open>The arrays on the stack have room for \<^verbatim>\<open>MAX_CLIENT_COUNT\<close> requests.\<close>

definition ud_post_receives :: "'v verbs \<Rightarrow> ('v, int) ib" where
  "ud_post_receives vb = with_dev 1 (\<lambda>d.
     (case (d_ud_recv_bufs d, d_ud_recv_mrs d) of
        (Some (_, bs), Some (_, ms)) \<Rightarrow>
          (if d_ud_rcqe d > MAX_CLIENT_COUNT then do { undefined_behaviour; ret 1 }
           else case recv_wrs 0 bs ms of
             None \<Rightarrow> do { undefined_behaviour; ret 1 }
           | Some wrs \<Rightarrow> with_ptr 1 (d_ud_qp d) (\<lambda>qp.
               check_rc (call_env (vb_rc vb (Post_recv qp wrs))) (ret 0)))
      | _ \<Rightarrow> do { undefined_behaviour; ret 1 }))"

definition ud_start :: "'v verbs \<Rightarrow> ('v, int) ib" where
  "ud_start vb = check_rc (ud_post_receives vb) (ret 0)"

definition ud_post_one_receive :: "'v verbs \<Rightarrow> nat \<Rightarrow> ('v, int) ib" where
  "ud_post_one_receive vb i = with_dev 1 (\<lambda>d.
     (case (d_ud_recv_bufs d, d_ud_recv_mrs d) of
        (Some (_, bs), Some (_, ms)) \<Rightarrow>
          (if i < length bs \<and> i < length ms then
             (case (bs ! i, ms ! i) of
                (Slot (Some b), Slot (Some m)) \<Rightarrow> with_ptr 1 (d_ud_qp d) (\<lambda>qp.
                  check_rc (call_env (vb_rc vb (Post_recv qp [(i, b, m)]))) (ret 0))
              | _ \<Rightarrow> do { undefined_behaviour; ret 1 })
           else do { undefined_behaviour; ret 1 })
      | _ \<Rightarrow> do { undefined_behaviour; ret 1 }))"

section \<open>Reliable connections\<close>

text \<open>
  \<^verbatim>\<open>rc_prerequisite\<close>; the size of the send queues \<open>wr\<close> is what \<open>rc_prerequisite\<close> of \<^verbatim>\<open>Dare_Server\<close> computes.
\<close>

definition rc_cqe_of :: "u32 \<Rightarrow> int \<Rightarrow> int" where
  "rc_cqe_of wr limit = (let n = sint (13 * wr) in if n > limit then limit else n)"

definition rc_resources :: "'v verbs \<Rightarrow> u32 \<Rightarrow> ('v, int) ib" where
  "rc_resources vb wr = with_dev 1 (\<lambda>d. do {
     let cqe = rc_cqe_of wr (max_cqe (d_attr d));
     set_dev (\<lambda>d. d\<lparr>d_rc_max_send_wr := wr, d_rc_cqe := cqe\<rparr>);
     new_field vb (Alloc_pd (d_context d)) (\<lambda>r d. d\<lparr>d_rc_pd := r\<rparr>) (\<lambda>pd.
       new_field vb (Create_cq (d_context d) cqe) (\<lambda>r d. d\<lparr>d_rc_cq_log := r\<rparr>) (\<lambda>_.
         new_field vb (Create_cq (d_context d) cqe) (\<lambda>r d. d\<lparr>d_rc_cq_ctrl := r\<rparr>) (\<lambda>_. do {
           (rc, n) \<leftarrow> find_max_inline vb (d_context d) pd;
           set_dev (\<lambda>d. d\<lparr>d_rc_max_inline_data := n\<rparr>);
           if rc \<noteq> 0 then ret 1
           else new_field vb (Malloc (A_completions cqe)) (\<lambda>r d. d\<lparr>d_rc_wc_array := r\<rparr>) (\<lambda>_. ret 0)
         })))
   })"

text \<open>The sizes of the regions are those of the structures that are registered.\<close>

definition rc_memory_reg :: "'v verbs \<Rightarrow> nat \<times> nat \<times> nat \<Rightarrow> ('v, int) ib" where
  "rc_memory_reg vb sizes = with_dev 1 (\<lambda>d. with_ptr 1 (d_rc_pd d) (\<lambda>pd. case sizes of (csize, lsize, psize) \<Rightarrow>
     new_field vb (Reg_mr pd B_ctrl csize True) (\<lambda>r d. d\<lparr>d_ctrl_mr := r\<rparr>) (\<lambda>_.
       new_field vb (Reg_mr pd B_log lsize True) (\<lambda>r d. d\<lparr>d_log_mr := r\<rparr>) (\<lambda>_.
         new_field vb (Reg_mr pd B_prereg psize True) (\<lambda>r d. d\<lparr>d_prereg_snapshot_mr := r\<rparr>) (\<lambda>_. ret 0)))))"

definition rc_memory_dereg :: "'v verbs \<Rightarrow> ('v, unit) ib" where
  "rc_memory_dereg vb = with_dev () (\<lambda>d. do {
     release_opt vb K_mr (d_log_mr d);
     set_dev (\<lambda>d. d\<lparr>d_log_mr := None\<rparr>);
     release_opt vb K_mr (d_ctrl_mr d);
     set_dev (\<lambda>d. d\<lparr>d_ctrl_mr := None\<rparr>);
     release_opt vb K_mr (d_prereg_snapshot_mr d);
     set_dev (\<lambda>d. d\<lparr>d_prereg_snapshot_mr := None\<rparr>);
     release_opt vb K_mr (d_snapshot_mr d);
     set_dev (\<lambda>d. d\<lparr>d_snapshot_mr := None\<rparr>)
   })"

definition put_ep :: "nat \<Rightarrow> (dev_ep \<Rightarrow> dev_ep) \<Rightarrow> ('v, unit) ib" where
  "put_ep i f = modify (\<lambda>s. s\<lparr>eps := (eps s)[i := f (eps s ! i)]\<rparr>)"

text \<open>One of the two queue pairs of endpoint \<open>i\<close>.\<close>

definition new_qp :: "'v verbs \<Rightarrow> nat \<Rightarrow> handle option \<Rightarrow> (handle option \<Rightarrow> dev_ep \<Rightarrow> dev_ep) \<Rightarrow> ('v, int) ib" where
  "new_qp vb i cq upd = with_dev 1 (\<lambda>d. with_ptr 1 (d_rc_pd d) (\<lambda>pd. with_ptr 1 cq (\<lambda>cq. do {
     r \<leftarrow> acquire vb (Create_qp pd \<lparr>qi_type = IBV_QPT_RC, qi_send_cq = cq, qi_recv_cq = cq,
        qi_max_inline = d_rc_max_inline_data d, qi_max_send_wr = uint (d_rc_max_send_wr d), qi_max_recv_wr = 1\<rparr>);
     put_ep i (upd r);
     ret (if r = None then 1 else 0)
   })))"

definition rc_qp_create :: "'v verbs \<Rightarrow> nat \<Rightarrow> ('v, int) ib" where
  "rc_qp_create vb i = with_dev 1 (\<lambda>d. do {
     s \<leftarrow> State_Monad.get;
     if de_mem (eps s ! i) = None then ret 0
     else check_rc (new_qp vb i (d_rc_cq_ctrl d) (\<lambda>r e. e\<lparr>de_ctrl_qp := r\<rparr>))
       (check_rc (new_qp vb i (d_rc_cq_log d) (\<lambda>r e. e\<lparr>de_log_qp := r\<rparr>)) (ret 0))
   })"

primrec rc_qps_create :: "'v verbs \<Rightarrow> nat \<Rightarrow> nat \<Rightarrow> ('v, int) ib" where
  "rc_qps_create vb i 0 = ret 0"
| "rc_qps_create vb i (Suc n) = check_rc (rc_qp_create vb i) (rc_qps_create vb (Suc i) n)"

definition rc_init :: "'v verbs \<Rightarrow> u32 \<Rightarrow> nat \<times> nat \<times> nat \<Rightarrow> ('v, int) ib" where
  "rc_init vb wr sizes =
     check_rc (rc_resources vb wr)
       (check_rc (rc_memory_reg vb sizes) (do {
          s \<leftarrow> State_Monad.get;
          rc_qps_create vb 0 (length (eps s))
        }))"

text \<open>
  One queue pair is destroyed.  When it cannot be moved to the error state the loop goes on with the next one.
\<close>

definition destroy_qp :: "'v verbs \<Rightarrow> nat \<Rightarrow> handle option \<Rightarrow> handle option \<Rightarrow> (dev_ep \<Rightarrow> dev_ep) \<Rightarrow> ('v, unit) ib" where
  "destroy_qp vb i qp cq upd = (case qp of None \<Rightarrow> ret () | Some qp \<Rightarrow> do {
     st \<leftarrow> call_env (vb_query_qp vb qp);
     rc \<leftarrow> (if st = IBV_QPS_RESET then ret 0
           else do {
             rc \<leftarrow> call_env (vb_rc vb (Modify_qp qp IBV_QPS_ERR));
             (if rc \<noteq> 0 then ret () else with_ptr () cq (\<lambda>cq. poll_all vb cq (vb_polls vb)));
             ret rc
           });
     if rc \<noteq> 0 then ret ()
     else do { _ \<leftarrow> release vb K_qp qp; put_ep i upd }
   })"

definition rc_qp_destroy :: "'v verbs \<Rightarrow> nat \<Rightarrow> ('v, unit) ib" where
  "rc_qp_destroy vb i = do {
     s \<leftarrow> State_Monad.get;
     if de_mem (eps s ! i) = None then ret ()
     else with_dev () (\<lambda>d. do {
       destroy_qp vb i (de_ctrl_qp (eps s ! i)) (d_rc_cq_ctrl d) (\<lambda>e. e\<lparr>de_ctrl_qp := None\<rparr>);
       destroy_qp vb i (de_log_qp (eps s ! i)) (d_rc_cq_log d) (\<lambda>e. e\<lparr>de_log_qp := None\<rparr>)
     })
   }"

primrec rc_qps_destroy :: "'v verbs \<Rightarrow> nat \<Rightarrow> nat \<Rightarrow> ('v, unit) ib" where
  "rc_qps_destroy vb i 0 = ret ()"
| "rc_qps_destroy vb i (Suc n) = do { rc_qp_destroy vb i; rc_qps_destroy vb (Suc i) n }"

text \<open>The protection domain is given back before the memory regions that belong to it.\<close>

definition rc_free :: "'v verbs \<Rightarrow> ('v, unit) ib" where
  "rc_free vb = with_dev () (\<lambda>d. do {
     s \<leftarrow> State_Monad.get;
     (if d_udata d then rc_qps_destroy vb 0 (length (eps s)) else ret ());
     release_opt vb K_mem (d_rc_wc_array d);
     set_dev (\<lambda>d. d\<lparr>d_rc_wc_array := None\<rparr>);
     release_opt vb K_cq (d_rc_cq_log d);
     release_opt vb K_cq (d_rc_cq_ctrl d);
     release_opt vb K_pd (d_rc_pd d);
     rc_memory_dereg vb
   })"

section \<open>The interface\<close>

primrec try_devices :: "'v verbs \<Rightarrow> nat list \<Rightarrow> ('v, unit) ib" where
  "try_devices vb [] = ret ()"
| "try_devices vb (x # xs) = do {
     d \<leftarrow> init_one_device vb x;
     modify (\<lambda>s. s\<lparr>ibdev := d\<rparr>);
     if d \<noteq> None then ret () else try_devices vb xs
   }"

text \<open>The return code of \<^verbatim>\<open>ud_init\<close> is not used.\<close>

definition dare_init_ib_device :: "'v verbs \<Rightarrow> nat \<Rightarrow> ('v, int) ib" where
  "dare_init_ib_device vb receive_count = do {
     (num_devs, devs) \<leftarrow> call_env (vb_devices vb);
     modify (\<lambda>s. case devs of None \<Rightarrow> s | Some (h, _) \<Rightarrow> s\<lparr>held := (K_list, h) # held s\<rparr>);
     if num_devs = 0 then ret 1
     else case devs of None \<Rightarrow> ret 1 | Some (h, ids) \<Rightarrow> do {
       try_devices vb (take num_devs ids);
       _ \<leftarrow> release vb K_list h;
       s \<leftarrow> State_Monad.get;
       if ibdev s = None then ret 1
       else do { _ \<leftarrow> ud_init vb receive_count; ret 0 }
     }
   }"

primrec alloc_eps :: "'v verbs \<Rightarrow> nat \<Rightarrow> nat \<Rightarrow> ('v, int) ib" where
  "alloc_eps vb i 0 = ret 0"
| "alloc_eps vb i (Suc n) = do {
     r \<leftarrow> acquire vb (Malloc A_ep);
     put_ep i (\<lambda>_. \<lparr>de_mem = r, de_ah = None, de_ctrl_qp = None, de_log_qp = None\<rparr>);
     if r = None then ret 1 else alloc_eps vb (Suc i) n
   }"

definition IBV_SERVER :: int where "IBV_SERVER = 1"

definition init_ib_srv_data :: "'v verbs \<Rightarrow> ('v, int) ib" where
  "init_ib_srv_data vb = with_dev 1 (\<lambda>d. do {
     set_dev (\<lambda>d. d\<lparr>d_udata := True, d_ulp_type := IBV_SERVER\<rparr>);
     s \<leftarrow> State_Monad.get;
     alloc_eps vb 0 (length (eps s))
   })"

text \<open>The queue pairs are destroyed before, in \<^verbatim>\<open>rc_free\<close>.\<close>

definition dare_ib_destroy_ep :: "'v verbs \<Rightarrow> nat \<Rightarrow> ('v, unit) ib" where
  "dare_ib_destroy_ep vb i = do {
     s \<leftarrow> State_Monad.get;
     if de_mem (eps s ! i) = None then ret ()
     else do {
       ud_ah_destroy vb (de_ah (eps s ! i));
       release_opt vb K_mem (de_mem (eps s ! i));
       put_ep i (\<lambda>e. \<lparr>de_mem = None, de_ah = None, de_ctrl_qp = None, de_log_qp = None\<rparr>)
     }
   }"

primrec destroy_eps :: "'v verbs \<Rightarrow> nat \<Rightarrow> nat \<Rightarrow> ('v, unit) ib" where
  "destroy_eps vb i 0 = ret ()"
| "destroy_eps vb i (Suc n) = do { dare_ib_destroy_ep vb i; destroy_eps vb (Suc i) n }"

definition free_ib_device :: "'v verbs \<Rightarrow> ('v, unit) ib" where
  "free_ib_device vb = do {
     s \<leftarrow> State_Monad.get;
     case ibdev s of None \<Rightarrow> ret () | Some d \<Rightarrow> do {
       ud_shutdown vb;
       _ \<leftarrow> release vb K_context (d_context d);
       _ \<leftarrow> release vb K_mem (d_mem d);
       modify (\<lambda>s. s\<lparr>ibdev := None\<rparr>)
     }
   }"

definition dare_ib_srv_shutdown :: "'v verbs \<Rightarrow> ('v, unit) ib" where
  "dare_ib_srv_shutdown vb = do {
     rc_free vb;
     with_dev () (\<lambda>d. do {
       s \<leftarrow> State_Monad.get;
       if d_udata d then destroy_eps vb 0 (length (eps s)) else ret ()
     });
     free_ib_device vb
   }"

text \<open>The calls of \<^verbatim>\<open>init_network_cb\<close>; on an error the server is shut down.\<close>

definition start_network :: "'v verbs \<Rightarrow> u32 \<Rightarrow> nat \<times> nat \<times> nat \<Rightarrow> ('v, int) ib" where
  "start_network vb wr sizes = do {
     rc \<leftarrow> check_rc (dare_init_ib_device vb MAX_CLIENT_COUNT)
       (check_rc (init_ib_srv_data vb) (check_rc (rc_init vb wr sizes) (ud_start vb)));
     (if rc \<noteq> 0 then dare_ib_srv_shutdown vb else ret ());
     ret rc
   }"

end
