(* ===== verification/Dare_Ibv_Props.thy ===== *)
theory Dare_Ibv_Props
  imports Dare_Ibv
begin

text \<open>
  What the set-up of the device holds and gives back.  Looking for a device leaves nothing behind unless one is found;
  the set-up keeps the objects that are held equal to those that the structures of the program point to;
  and the shutdown gives back exactly these.
\<close>

section \<open>Running the calls\<close>

lemma run_call_env [simp]: "run_state (call_env f) s = (case f (env s) of (a, e) \<Rightarrow> (a, s\<lparr>env := e\<rparr>))"
  by (simp add: call_env_def)

lemma run_modify [simp]: "run_state (modify f) s = ((), f s)"
  by (simp add: modify_def)

lemma run_acquire [simp]:
  "run_state (acquire vb c) s =
     (case vb_new vb c (env s) of (r, e) \<Rightarrow>
        (r, case r of None \<Rightarrow> s\<lparr>env := e\<rparr> | Some h \<Rightarrow> s\<lparr>env := e, held := (kind_of c, h) # held s\<rparr>))"
  by (simp add: acquire_def split: prod.split option.split)

lemma run_release [simp]:
  "run_state (release vb k h) s =
     (case vb_rc vb (Free k h) (env s) of (rc, e) \<Rightarrow>
        (rc, if (k, h) \<in> set (held s) then s\<lparr>env := e, held := remove1 (k, h) (held s)\<rparr>
             else s\<lparr>env := e, ub := True\<rparr>))"
  by (simp add: release_def split: prod.split)

text \<open>A computation that changes nothing but the state of the library.\<close>

definition quiet :: "('v, 'a) ib \<Rightarrow> bool" where
  "quiet m \<longleftrightarrow> (\<forall>s. \<exists>e. snd (run_state m s) = s\<lparr>env := e\<rparr>)"

lemma quietE: "quiet m \<Longrightarrow> run_state m s = (a, s') \<Longrightarrow> \<exists>e. s' = s\<lparr>env := e\<rparr>"
  unfolding quiet_def by (metis snd_conv)

lemma quiet_ret [simp]: "quiet (ret a)"
  by (simp add: quiet_def) (metis lib.surjective lib.update_convs(1))

lemma quiet_call [simp]: "quiet (call_env f)"
  by (auto simp: quiet_def split: prod.split)

lemma quiet_bind: "quiet m \<Longrightarrow> (\<And>a. quiet (f a)) \<Longrightarrow> quiet (m \<bind> f)"
  unfolding quiet_def by (auto split: prod.split) (metis lib.update_convs(1) lib.surjective quiet_def snd_conv)

lemma quiet_test_qp_support_rc: "quiet (test_qp_support_rc vb ctx)"
  by (auto simp: quiet_def test_qp_support_rc_def test_out_def release_opt_def split: prod.split option.split)

lemma quiet_inline_loop: "quiet (inline_loop vb pd cq n)"
proof (induction vb pd cq n rule: inline_loop.induct)
  case (1 vb pd cq n)
  show ?case
  proof (cases "n = 0")
    case True
    then show ?thesis by (subst inline_loop.simps) simp
  next
    case False
    have IH: "\<exists>e. snd (run_state (inline_loop vb pd cq (drop_bit 1 n)) s) = s\<lparr>env := e\<rparr>" for s
      using "1.IH" False by (auto simp: quiet_def)
    have "\<exists>e. snd (run_state (inline_loop vb pd cq (drop_bit 1 n)) (s\<lparr>env := e'\<rparr>)) = s\<lparr>env := e\<rparr>" for s e'
      using IH [of "s\<lparr>env := e'\<rparr>"] by simp
    then show ?thesis
      using False unfolding quiet_def
      by (subst inline_loop.simps) (auto simp del: inline_loop.simps split: prod.split option.split)
  qed
qed

lemma quiet_find_max_inline: "quiet (find_max_inline vb ctx pd)"
  unfolding quiet_def
proof
  fix s
  show "\<exists>e. snd (run_state (find_max_inline vb ctx pd) s) = s\<lparr>env := e\<rparr>"
    by (auto simp: find_max_inline_def simp del: inline_loop.simps split: prod.split option.split
        dest!: quietE [OF quiet_inline_loop])
qed

lemma quiet_find_pkey: "quiet (find_pkey vb ctx i j n)"
  by (induction n arbitrary: j) (auto intro!: quiet_bind split: prod.split)

lemma quiet_find_port: "quiet (find_port vb d i n)"
  by (induction n arbitrary: i) (auto simp: Let_def intro!: quiet_bind quiet_find_pkey split: prod.split option.split)

section \<open>Looking for a device\<close>

text \<open>A device of which nothing has been set up yet.\<close>

definition fresh_device :: "ib_device \<Rightarrow> bool" where
  "fresh_device d \<longleftrightarrow>
     d_ud_pd d = None \<and> d_ud_qp d = None \<and> d_ud_rcq d = None \<and> d_ud_scq d = None \<and> d_ud_recv_bufs d = None \<and>
     d_ud_recv_mrs d = None \<and> d_ud_send_buf d = None \<and> d_ud_send_mr d = None \<and> d_mcast_ah d = None \<and>
     d_rc_pd d = None \<and> d_rc_cq_log d = None \<and> d_rc_cq_ctrl d = None \<and> d_rc_wc_array d = None \<and>
     d_log_mr d = None \<and> d_ctrl_mr d = None \<and> d_prereg_snapshot_mr d = None \<and> d_snapshot_mr d = None \<and> \<not> d_udata d"

lemma find_port_fresh:
  "run_state (find_port vb d i n) s = (Some d', s') \<Longrightarrow> fresh_device d \<Longrightarrow>
     fresh_device d' \<and> d_mem d' = d_mem d \<and> d_context d' = d_context d"
  by (induction n arbitrary: i s) (auto simp: fresh_device_def Let_def split: prod.splits option.splits if_splits)

lemma zero_device_fresh [simp]: "fresh_device (zero_device m ctx a)"
  "d_mem (zero_device m ctx a) = m" "d_context (zero_device m ctx a) = ctx"
  by (simp_all add: fresh_device_def zero_device_def)

lemma find_port_run:
  "run_state (find_port vb d i n) s = (r, s') \<Longrightarrow> fresh_device d \<Longrightarrow> (\<exists>e. s' = s\<lparr>env := e\<rparr>) \<and>
     (\<forall>d'. r = Some d' \<longrightarrow> fresh_device d' \<and> d_mem d' = d_mem d \<and> d_context d' = d_context d)"
  using quietE [OF quiet_find_port] find_port_fresh by blast

lemma init_one_device_run:
  assumes "run_state (init_one_device vb x) s = (r, s')"
  shows "case r of
      None \<Rightarrow> \<exists>e. s' = s\<lparr>env := e\<rparr>
    | Some d \<Rightarrow> fresh_device d \<and> (\<exists>e. s' = s\<lparr>held := (K_mem, d_mem d) # (K_context, d_context d) # held s, env := e\<rparr>)"
  using assms
  by (auto simp: init_one_device_def device_error_def release_opt_def split: prod.splits option.splits if_splits
      dest!: quietE [OF quiet_test_qp_support_rc] find_port_run)

section \<open>What the structures point to\<close>

definition opt :: "kind \<Rightarrow> handle option \<Rightarrow> res multiset" where
  "opt k p = (case p of None \<Rightarrow> {#} | Some h \<Rightarrow> {#(k, h)#})"

fun slot_refs :: "kind \<Rightarrow> slot \<Rightarrow> res multiset" where
  "slot_refs k Garbage = {#}"
| "slot_refs k (Slot p) = opt k p"

definition slots_refs :: "kind \<Rightarrow> slot list \<Rightarrow> res multiset" where
  "slots_refs k cs = sum_list (map (slot_refs k) cs)"

definition arr_refs :: "kind \<Rightarrow> (handle \<times> slot list) option \<Rightarrow> res multiset" where
  "arr_refs k a = (case a of None \<Rightarrow> {#} | Some (h, cs) \<Rightarrow> {#(K_mem, h)#} + slots_refs k cs)"

definition ud_refs :: "ib_device \<Rightarrow> res multiset" where
  "ud_refs d = opt K_ah (d_mcast_ah d) + opt K_qp (d_ud_qp d) + arr_refs K_mr (d_ud_recv_mrs d) + arr_refs K_mem (d_ud_recv_bufs d) +
     opt K_mr (d_ud_send_mr d) + opt K_mem (d_ud_send_buf d) + opt K_cq (d_ud_scq d) + opt K_cq (d_ud_rcq d) + opt K_pd (d_ud_pd d)"

definition rc_refs :: "ib_device \<Rightarrow> res multiset" where
  "rc_refs d = opt K_mem (d_rc_wc_array d) + opt K_cq (d_rc_cq_log d) + opt K_cq (d_rc_cq_ctrl d) + opt K_pd (d_rc_pd d) +
     opt K_mr (d_log_mr d) + opt K_mr (d_ctrl_mr d) + opt K_mr (d_prereg_snapshot_mr d) + opt K_mr (d_snapshot_mr d)"

definition dev_refs :: "ib_device \<Rightarrow> res multiset" where
  "dev_refs d = ud_refs d + rc_refs d + {#(K_context, d_context d)#} + {#(K_mem, d_mem d)#}"

definition ep_refs :: "dev_ep \<Rightarrow> res multiset" where
  "ep_refs e = (if de_mem e = None then {#}
     else opt K_mem (de_mem e) + opt K_ah (de_ah e) + opt K_qp (de_ctrl_qp e) + opt K_qp (de_log_qp e))"

definition eps_refs :: "dev_ep list \<Rightarrow> res multiset" where
  "eps_refs es = sum_list (map ep_refs es)"

definition lib_refs :: "'v lib \<Rightarrow> res multiset" where
  "lib_refs s = opt K_mem (wc_array s) + eps_refs (eps s) + (case ibdev s of None \<Rightarrow> {#} | Some d \<Rightarrow> dev_refs d)"

text \<open>
  Between two states the program has got exactly what the structures point to in addition, and given back
  what they point to no more.
\<close>

definition bal :: "'v lib \<Rightarrow> 'v lib \<Rightarrow> bool" where
  "bal s s' \<longleftrightarrow> mset (held s') + lib_refs s = mset (held s) + lib_refs s'"

lemma bal_refl [simp]: "bal s s" by (simp add: bal_def)

lemma bal_trans: "bal s s' \<Longrightarrow> bal s' s'' \<Longrightarrow> bal s s''"
proof -
  assume "bal s s'" "bal s' s''"
  then have "mset (held s'') + lib_refs s + (mset (held s') + lib_refs s') = mset (held s) + lib_refs s'' + (mset (held s') + lib_refs s')"
    unfolding bal_def by (metis add.assoc add.commute)
  then show "bal s s''" unfolding bal_def by simp
qed

lemma opt_simps [simp]: "opt k None = {#}" "opt k (Some h) = {#(k, h)#}"
  by (simp_all add: opt_def)

lemma slots_simps [simp]: "slots_refs k [] = {#}" "slots_refs k (c # cs) = slot_refs k c + slots_refs k cs"
  by (simp_all add: slots_refs_def)

lemma eps_simps [simp]: "eps_refs [] = {#}" "eps_refs (e # es) = ep_refs e + eps_refs es"
  by (simp_all add: eps_refs_def)

section \<open>Running the steps of the set-up\<close>

lemma run_undefined [simp]: "run_state undefined_behaviour s = ((), s\<lparr>ub := True\<rparr>)"
  by (simp add: undefined_behaviour_def)

lemma run_with_dev [simp]:
  "run_state (with_dev a f) s = (case ibdev s of None \<Rightarrow> (a, s\<lparr>ub := True\<rparr>) | Some d \<Rightarrow> run_state (f d) s)"
  by (simp add: with_dev_def split: option.split)

lemma run_set_dev [simp]: "run_state (set_dev f) s = ((), s\<lparr>ibdev := map_option f (ibdev s)\<rparr>)"
  by (simp add: set_dev_def)

lemma run_with_ptr [simp]:
  "run_state (with_ptr a p f) s = (case p of None \<Rightarrow> (a, s\<lparr>ub := True\<rparr>) | Some h \<Rightarrow> run_state (f h) s)"
  by (simp add: with_ptr_def split: option.split)

lemma run_check_rc [simp]:
  "run_state (check_rc m k) s = (case run_state m s of (rc, s') \<Rightarrow> if rc \<noteq> 0 then (1, s') else run_state k s')"
  by (simp add: check_rc_def split: prod.split)

lemma run_new_field [simp]:
  "run_state (new_field vb c upd k) s =
     (case vb_new vb c (env s) of
        (None, e) \<Rightarrow> (1, s\<lparr>env := e, ibdev := map_option (upd None) (ibdev s)\<rparr>)
      | (Some h, e) \<Rightarrow> run_state (k h) (s\<lparr>env := e, held := (kind_of c, h) # held s, ibdev := map_option (upd (Some h)) (ibdev s)\<rparr>))"
  by (simp add: new_field_def split: prod.split option.split)

text \<open>The parts of the state that a step of the UD set-up leaves alone.\<close>

definition same_rc :: "ib_device \<Rightarrow> ib_device \<Rightarrow> bool" where
  "same_rc d d' \<longleftrightarrow> rc_refs d' = rc_refs d \<and> d_context d' = d_context d \<and> d_mem d' = d_mem d \<and> d_udata d' = d_udata d \<and>
     (d_rc_wc_array d', d_rc_cq_log d', d_rc_cq_ctrl d', d_rc_pd d') = (d_rc_wc_array d, d_rc_cq_log d, d_rc_cq_ctrl d, d_rc_pd d) \<and>
     (d_log_mr d', d_ctrl_mr d', d_prereg_snapshot_mr d', d_snapshot_mr d') = (d_log_mr d, d_ctrl_mr d, d_prereg_snapshot_mr d, d_snapshot_mr d)"

definition ud_step :: "'v lib \<Rightarrow> 'v lib \<Rightarrow> bool" where
  "ud_step s s' \<longleftrightarrow> bal s s' \<and> eps s' = eps s \<and> (\<exists>d d'. ibdev s = Some d \<and> ibdev s' = Some d' \<and> same_rc d d')"

lemma ud_step_trans: "ud_step s s' \<Longrightarrow> ud_step s' s'' \<Longrightarrow> ud_step s s''"
  unfolding ud_step_def by (auto intro: bal_trans simp: same_rc_def)

lemmas refs_defs = lib_refs_def dev_refs_def ud_refs_def rc_refs_def

lemma ud_prerequisite_run:
  assumes "run_state (ud_prerequisite vb n) s = (rc, s')" "ibdev s = Some d" "fresh_device d"
  shows "ud_step s s' \<and> wc_array s' = wc_array s \<and>
    (\<exists>d'. ibdev s' = Some d' \<and> d_ud_qp d' = None \<and> d_ud_recv_bufs d' = None \<and> d_ud_recv_mrs d' = None \<and>
       d_ud_send_buf d' = None \<and> d_ud_send_mr d' = None \<and> d_mcast_ah d' = None)"
  using assms
  by (auto simp: ud_prerequisite_def ud_step_def same_rc_def bal_def refs_defs arr_refs_def fresh_device_def
      split: prod.splits option.splits dest!: quietE [OF quiet_find_max_inline])

lemma slots_put: "i < length cs \<Longrightarrow> cs ! i = Garbage \<Longrightarrow> slots_refs k (cs[i := Slot p]) = slots_refs k cs + opt k p"
  by (induction cs arbitrary: i) (auto simp: nth_Cons split: nat.splits)

lemma slots_garbage [simp]: "slots_refs k (replicate n Garbage) = {#}"
  by (induction n) auto

text \<open>The fields of the device that registering the receive buffers does not change.\<close>

definition same_ud :: "ib_device \<Rightarrow> ib_device \<Rightarrow> bool" where
  "same_ud d d' \<longleftrightarrow> d_ud_qp d' = d_ud_qp d \<and> d_ud_send_buf d' = d_ud_send_buf d \<and> d_ud_send_mr d' = d_ud_send_mr d \<and>
     d_mcast_ah d' = d_mcast_ah d"

lemma reg_recv_bufs_run:
  "run_state (reg_recv_bufs vb pd len i n) s = (rc, s') \<Longrightarrow> ibdev s = Some d \<Longrightarrow>
     d_ud_recv_bufs d = Some (hb, bs) \<Longrightarrow> d_ud_recv_mrs d = Some (hm, ms) \<Longrightarrow>
     length bs = i + n \<Longrightarrow> length ms = i + n \<Longrightarrow> (\<And>j. i \<le> j \<Longrightarrow> j < i + n \<Longrightarrow> bs ! j = Garbage \<and> ms ! j = Garbage) \<Longrightarrow>
     ud_step s s' \<and> wc_array s' = wc_array s \<and> (\<exists>d'. ibdev s' = Some d' \<and> same_ud d d')"
proof (induction n arbitrary: i s d bs ms)
  case 0
  then show ?case by (auto simp: ud_step_def same_rc_def same_ud_def)
next
  case (Suc n)
  have g: "bs ! i = Garbage" "ms ! i = Garbage" using Suc.prems(7) by auto
  obtain r e where r: "vb_new vb (Malloc (A_buffer len)) (env s) = (r, e)" by (cases "vb_new vb (Malloc (A_buffer len)) (env s)")
  show ?case
  proof (cases r)
    case None
    then show ?thesis
      using Suc.prems(1-6) r g
      by (auto simp: ud_step_def same_rc_def same_ud_def bal_def refs_defs arr_refs_def put_slot_def slots_put)
  next
    case (Some b)
    obtain r' e' where r': "vb_new vb (Reg_mr pd (B_mem b) len False) e = (r', e')" by (cases "vb_new vb (Reg_mr pd (B_mem b) len False) e")
    let ?d = "d\<lparr>d_ud_recv_bufs := Some (hb, bs[i := Slot (Some b)]), d_ud_recv_mrs := Some (hm, ms[i := Slot r'])\<rparr>"
    let ?s = "s\<lparr>env := e', held := (case r' of None \<Rightarrow> [] | Some m \<Rightarrow> [(K_mr, m)]) @ (K_mem, b) # held s, ibdev := Some ?d\<rparr>"
    have st: "ud_step s ?s"
      using Suc.prems(2-6) g
      by (auto simp: ud_step_def same_rc_def bal_def refs_defs arr_refs_def slots_put split: option.split)
    show ?thesis
    proof (cases r')
      case None
      then have "s' = ?s" using Suc.prems(1-4) r Some r' by (auto simp: put_slot_def)
      then show ?thesis using st by (auto simp: same_ud_def)
    next
      case m: (Some m)
      have run: "run_state (reg_recv_bufs vb pd len (Suc i) n) ?s = (rc, s')"
        using Suc.prems(1-4) r Some r' m by (simp add: put_slot_def)
      have "ud_step ?s s' \<and> wc_array s' = wc_array ?s \<and> (\<exists>d'. ibdev s' = Some d' \<and> same_ud ?d d')"
        using Suc.IH [OF run, of ?d] Suc.prems(5-7) by simp
      then show ?thesis using ud_step_trans [OF st] by (auto simp: same_ud_def)
    qed
  qed
qed

lemma ud_memory_reg_run:
  assumes "run_state (ud_memory_reg vb) s = (rc, s')" "ibdev s = Some d" "d_ud_recv_bufs d = None" "d_ud_recv_mrs d = None"
    "d_ud_send_buf d = None" "d_ud_send_mr d = None"
  shows "ud_step s s' \<and> wc_array s' = wc_array s \<and>
    (\<exists>d'. ibdev s' = Some d' \<and> d_ud_qp d' = d_ud_qp d \<and> d_mcast_ah d' = d_mcast_ah d)"
proof (cases "d_ud_pd d")
  case None
  then show ?thesis using assms(1,2) by (auto simp: ud_memory_reg_def ud_step_def same_rc_def bal_def lib_refs_def)
next
  case (Some pd)
  define n where "n = d_ud_rcqe d"
  obtain r e where r: "vb_new vb (Malloc (A_pointers n)) (env s) = (r, e)" by (cases "vb_new vb (Malloc (A_pointers n)) (env s)")
  obtain r' e' where r': "vb_new vb (Malloc (A_pointers n)) e = (r', e')" by (cases "vb_new vb (Malloc (A_pointers n)) e")
  let ?d = "d\<lparr>d_ud_recv_bufs := garbage_array n r, d_ud_recv_mrs := garbage_array n r'\<rparr>"
  let ?s = "s\<lparr>env := e', held := (case r' of None \<Rightarrow> [] | Some m \<Rightarrow> [(K_mem, m)]) @ (case r of None \<Rightarrow> [] | Some m \<Rightarrow> [(K_mem, m)]) @ held s,
      ibdev := Some ?d\<rparr>"
  have st: "ud_step s ?s"
    using assms by (auto simp: ud_step_def same_rc_def bal_def refs_defs arr_refs_def garbage_array_def split: option.split)
  show ?thesis
  proof (cases "r = None \<or> r' = None")
    case True
    then have "s' = ?s" using assms(1,2) Some r r' by (auto simp: ud_memory_reg_def n_def split: option.splits)
    then show ?thesis using st by simp
  next
    case False
    then obtain hb hm where h: "r = Some hb" "r' = Some hm" by auto
    obtain rc1 s1 where loop: "run_state (reg_recv_bufs vb pd (mtu_value (d_mtu d)) 0 n) ?s = (rc1, s1)"
      by (cases "run_state (reg_recv_bufs vb pd (mtu_value (d_mtu d)) 0 n) ?s")
    have l: "ud_step ?s s1 \<and> wc_array s1 = wc_array ?s \<and> (\<exists>d'. ibdev s1 = Some d' \<and> same_ud ?d d')"
      using reg_recv_bufs_run [OF loop, of ?d] h by (simp add: garbage_array_def)
    then obtain d1 where d1: "ibdev s1 = Some d1" "d_ud_qp d1 = d_ud_qp d" "d_ud_send_buf d1 = None" "d_ud_send_mr d1 = None"
      "d_mcast_ah d1 = d_mcast_ah d" using assms(5,6) by (auto simp: same_ud_def)
    have "run_state (check_rc (ret rc1) (new_field vb (Malloc (A_buffer (mtu_value (d_mtu d)))) (\<lambda>r d. d\<lparr>d_ud_send_buf := r\<rparr>) (\<lambda>b.
         new_field vb (Reg_mr pd (B_mem b) (mtu_value (d_mtu d)) False) (\<lambda>r d. d\<lparr>d_ud_send_mr := r\<rparr>) (\<lambda>_. ret 0)))) s1 = (rc, s')"
      using assms(1,2) Some r r' h loop by (simp add: ud_memory_reg_def n_def)
    then have "ud_step s1 s' \<and> wc_array s' = wc_array s1 \<and>
        (\<exists>d'. ibdev s' = Some d' \<and> d_ud_qp d' = d_ud_qp d1 \<and> d_mcast_ah d' = d_mcast_ah d1)"
      using d1 by (auto simp: ud_step_def same_rc_def bal_def refs_defs split: prod.splits option.splits if_splits)
    then show ?thesis using st l d1 ud_step_trans [of s ?s s1] ud_step_trans [of s s1 s'] by auto
  qed
qed

lemma ud_qp_create_run:
  assumes "run_state (ud_qp_create vb) s = (rc, s')" "ibdev s = Some d" "d_ud_qp d = None"
  shows "eps s' = eps s \<and> wc_array s' = wc_array s \<and>
    (\<exists>d'. ibdev s' = Some d' \<and> same_rc d d' \<and> d_mcast_ah d' = d_mcast_ah d \<and>
       (d_ud_qp d' \<noteq> None \<longrightarrow> ud_step s s' \<and> d_ud_rcq d' \<noteq> None) \<and> (rc = 0 \<longrightarrow> d_ud_qp d' \<noteq> None))"
  using assms
  by (auto simp: ud_qp_create_def ud_step_def same_rc_def bal_def refs_defs split: prod.splits option.splits if_splits)

lemma mcast_ah_create_run:
  assumes "run_state (mcast_ah_create vb) s = (rc, s')" "ibdev s = Some d" "d_mcast_ah d = None"
  shows "ud_step s s' \<and> wc_array s' = wc_array s \<and>
    (\<exists>d'. ibdev s' = Some d' \<and> d_ud_qp d' = d_ud_qp d \<and> d_ud_rcq d' = d_ud_rcq d)"
  using assms
  by (auto simp: mcast_ah_create_def ud_step_def same_rc_def bal_def refs_defs split: prod.splits option.splits if_splits)

end
