(* ===== verification/Dare_Ibv_Life.thy ===== *)
theory Dare_Ibv_Life
  imports Dare_Ibv_Props
begin

text \<open>
  The life of the network resources of a server: the whole set-up of \<^verbatim>\<open>init_network_cb\<close> and the whole shutdown.
\<close>

section \<open>The set-up of the datagrams and of the device\<close>

lemma ud_init_run:
  assumes "run_state (ud_init vb n) s = (rc, s')" "ibdev s = Some d" "fresh_device d" "wc_array s = None"
  shows "eps s' = eps s \<and> (\<exists>d'. ibdev s' = Some d' \<and> same_rc d d' \<and> (d_ud_qp d' \<noteq> None \<longrightarrow> bal s s' \<and> d_ud_rcq d' \<noteq> None))"
proof -
  obtain r1 s1 where 1: "run_state (ud_prerequisite vb n) s = (r1, s1)" by (cases "run_state (ud_prerequisite vb n) s")
  obtain r2 s2 where 2: "run_state (ud_memory_reg vb) s1 = (r2, s2)" by (cases "run_state (ud_memory_reg vb) s1")
  obtain r3 s3 where 3: "run_state (ud_qp_create vb) s2 = (r3, s3)" by (cases "run_state (ud_qp_create vb) s2")
  obtain r4 s4 where 4: "run_state (mcast_ah_create vb) s3 = (r4, s4)" by (cases "run_state (mcast_ah_create vb) s3")
  obtain d1 where d1: "ud_step s s1" "wc_array s1 = None" "ibdev s1 = Some d1" "d_ud_qp d1 = None" "d_ud_recv_bufs d1 = None"
    "d_ud_recv_mrs d1 = None" "d_ud_send_buf d1 = None" "d_ud_send_mr d1 = None" "d_mcast_ah d1 = None"
    using ud_prerequisite_run [OF 1 assms(2,3)] assms(4) by auto
  obtain d2 where d2: "ud_step s1 s2" "wc_array s2 = None" "ibdev s2 = Some d2" "d_ud_qp d2 = None" "d_mcast_ah d2 = None"
    using ud_memory_reg_run [OF 2 d1(3,5-8)] d1 by auto
  note s2 = ud_step_trans [OF d1(1) d2(1)]
  obtain d3 where d3: "eps s3 = eps s2" "wc_array s3 = None" "ibdev s3 = Some d3" "same_rc d2 d3" "d_mcast_ah d3 = None"
    "d_ud_qp d3 \<noteq> None \<Longrightarrow> ud_step s2 s3 \<and> d_ud_rcq d3 \<noteq> None" "r3 = 0 \<Longrightarrow> d_ud_qp d3 \<noteq> None"
    using ud_qp_create_run [OF 3 d2(3,4)] d2 by auto
  obtain d4' where d4: "ud_step s3 s4" "wc_array s4 = None" "ibdev s4 = Some d4'" "d_ud_qp d4' = d_ud_qp d3" "d_ud_rcq d4' = d_ud_rcq d3"
    using mcast_ah_create_run [OF 4 d3(3,5)] d3(2) by auto
  have s4: "ud_step s s4" if "r3 = 0"
    using ud_step_trans [OF ud_step_trans [OF s2] d4(1)] d3(6,7) that by blast
  consider "s' = s1" | "s' = s2" | "r3 \<noteq> 0" "s' = s3" | "r3 = 0" "s' = s4"
    | "r3 = 0" "ibdev s' = ibdev s4" "eps s' = eps s4" "mset (held s') = opt K_mem (wc_array s') + mset (held s4)"
    using assms(1) 1 2 3 4 by (auto simp: ud_init_def split: if_splits prod.splits option.splits)
  then show ?thesis
  proof cases
    case 1
    then show ?thesis using d1(1,3,4) assms(2) by (auto simp: ud_step_def)
  next
    case 2
    then show ?thesis using s2 d2(3,4) assms(2) by (auto simp: ud_step_def)
  next
    case 3
    then show ?thesis using s2 d3 d2(3) assms(2) by (auto simp: ud_step_def same_rc_def dest: bal_trans)
  next
    case 4
    then show ?thesis using s4 d3(6,7) d4(3-5) assms(2) by (auto simp: ud_step_def)
  next
    case 5
    then have "ud_step s4 s'" using d4(2) s4 by (auto simp: ud_step_def same_rc_def bal_def lib_refs_def)
    then have "ud_step s s'" by (rule ud_step_trans [OF s4 [OF 5(1)]])
    then show ?thesis using 5(1,2) d3(6,7) d4(3-5) assms(2) by (auto simp: ud_step_def)
  qed
qed

lemma fresh_dev_refs: "fresh_device d \<Longrightarrow> dev_refs d = {#(K_context, d_context d), (K_mem, d_mem d)#}"
  by (simp add: fresh_device_def dev_refs_def ud_refs_def rc_refs_def arr_refs_def add_mset_commute)

lemma try_devices_run:
  "run_state (try_devices vb xs) s = (u, s') \<Longrightarrow> ibdev s = None \<Longrightarrow>
     eps s' = eps s \<and> wc_array s' = wc_array s \<and>
     (case ibdev s' of
        None \<Rightarrow> held s' = held s
      | Some d \<Rightarrow> fresh_device d \<and> held s' = (K_mem, d_mem d) # (K_context, d_context d) # held s)"
proof (induction xs arbitrary: s)
  case (Cons x xs)
  obtain r s1 where 1: "run_state (init_one_device vb x) s = (r, s1)" by (cases "run_state (init_one_device vb x) s")
  show ?case
  proof (cases r)
    case None
    then obtain e where "s1 = s\<lparr>env := e\<rparr>" using init_one_device_run [OF 1] by auto
    then show ?thesis using Cons.IH [of "s1\<lparr>ibdev := None\<rparr>"] Cons.prems 1 None by (auto split: option.splits)
  next
    case (Some d)
    then show ?thesis using init_one_device_run [OF 1] Cons.prems 1 by auto
  qed
qed auto

lemma dare_init_ib_device_run:
  assumes "run_state (dare_init_ib_device vb n) s = (0, s')" "ibdev s = None" "wc_array s = None"
  shows "eps s' = eps s \<and>
    (\<exists>d d'. fresh_device d \<and> same_rc d d' \<and> ibdev s' = Some d' \<and>
       (d_ud_qp d' \<noteq> None \<longrightarrow> bal s s' \<and> d_ud_rcq d' \<noteq> None))"
proof -
  obtain k h ids e where dv: "vb_devices vb (env s) = ((k, Some (h, ids)), e)"
    using assms(1) by (auto simp: dare_init_ib_device_def split: prod.splits if_splits option.splits)
  let ?s0 = "s\<lparr>env := e, held := (K_list, h) # held s\<rparr>"
  obtain u s1 where 1: "run_state (try_devices vb (take k ids)) ?s0 = (u, s1)" by (cases "run_state (try_devices vb (take k ids)) ?s0")
  obtain rc e1 where fr: "vb_rc vb (Free K_list h) (env s1) = (rc, e1)" by (cases "vb_rc vb (Free K_list h) (env s1)")
  note t = try_devices_run [OF 1]
  obtain d where d: "ibdev s1 = Some d" "fresh_device d" "held s1 = (K_mem, d_mem d) # (K_context, d_context d) # (K_list, h) # held s"
    using t assms(1,2) dv 1 fr by (auto simp: dare_init_ib_device_def split: prod.splits if_splits option.splits)
  let ?s2 = "s1\<lparr>env := e1, held := (K_mem, d_mem d) # (K_context, d_context d) # held s\<rparr>"
  obtain r2 s3 where 2: "run_state (ud_init vb n) ?s2 = (r2, s3)" by (cases "run_state (ud_init vb n) ?s2")
  have "s3 = s'" using assms(1) dv 1 fr d 2 by (auto simp: dare_init_ib_device_def split: if_splits)
  moreover have "bal s ?s2"
    using t d assms(2,3) by (simp add: bal_def lib_refs_def fresh_dev_refs add_mset_commute)
  ultimately show ?thesis
    using ud_init_run [OF 2, of d] t d assms(2,3) by (auto dest: bal_trans)
qed

section \<open>The set-up of the connections\<close>

text \<open>The fields that the rest of the set-up leaves alone.\<close>

definition same_qp :: "'v lib \<Rightarrow> 'v lib \<Rightarrow> bool" where
  "same_qp s s' \<longleftrightarrow> wc_array s' = wc_array s \<and> length (eps s') = length (eps s) \<and>
     map_option (\<lambda>d. (d_ud_qp d, d_ud_rcq d, d_udata d)) (ibdev s') = map_option (\<lambda>d. (d_ud_qp d, d_ud_rcq d, d_udata d)) (ibdev s)"

lemma same_qp_trans: "same_qp s s' \<Longrightarrow> same_qp s' s'' \<Longrightarrow> same_qp s s''"
  by (simp add: same_qp_def)

definition no_qps :: "dev_ep \<Rightarrow> bool" where
  "no_qps e \<longleftrightarrow> de_ctrl_qp e = None \<and> de_log_qp e = None"

lemma eps_put: "i < length es \<Longrightarrow> eps_refs (es[i := e]) + ep_refs (es ! i) = eps_refs es + ep_refs e"
  by (induction es arbitrary: i) (auto simp: nth_Cons ac_simps split: nat.splits)

lemma run_put_ep [simp]: "run_state (put_ep i f) s = ((), s\<lparr>eps := (eps s)[i := f (eps s ! i)]\<rparr>)"
  by (simp add: put_ep_def)

text \<open>A new object that is stored in an endpoint.\<close>

lemma bal_put_ep:
  assumes "i < length (eps s)" "ep_refs e = ep_refs (eps s ! i) + {#x#}"
  shows "bal s (s\<lparr>env := v, held := x # held s, eps := (eps s)[i := e]\<rparr>)"
proof -
  have "eps_refs ((eps s)[i := e]) = eps_refs (eps s) + {#x#}"
    using eps_put [OF assms(1), of e] assms(2) by (simp add: ac_simps)
  then show ?thesis by (simp add: bal_def lib_refs_def)
qed

lemma alloc_eps_run:
  "run_state (alloc_eps vb i n) s = (0, s') \<Longrightarrow> length (eps s) = i + n \<Longrightarrow>
     (\<And>j. i \<le> j \<Longrightarrow> j < i + n \<Longrightarrow> de_mem (eps s ! j) = None) \<Longrightarrow>
     bal s s' \<and> ibdev s' = ibdev s \<and> wc_array s' = wc_array s \<and> length (eps s') = i + n \<and>
     (\<forall>j<i. eps s' ! j = eps s ! j) \<and> (\<forall>j. i \<le> j \<longrightarrow> j < i + n \<longrightarrow> no_qps (eps s' ! j) \<and> de_mem (eps s' ! j) \<noteq> None)"
proof (induction n arbitrary: i s)
  case (Suc n)
  obtain h e where r: "vb_new vb (Malloc A_ep) (env s) = (Some h, e)"
    using Suc.prems(1) by (auto split: prod.splits option.splits)
  let ?e = "\<lparr>de_mem = Some h, de_ah = None, de_ctrl_qp = None, de_log_qp = None\<rparr>"
  let ?s = "s\<lparr>env := e, held := (K_mem, h) # held s, eps := (eps s)[i := ?e]\<rparr>"
  have b: "bal s ?s"
    using Suc.prems(2,3) by (intro bal_put_ep) (auto simp: ep_refs_def)
  have run: "run_state (alloc_eps vb (Suc i) n) ?s = (0, s')" using Suc.prems(1) r by simp
  have ih: "bal ?s s' \<and> ibdev s' = ibdev ?s \<and> wc_array s' = wc_array ?s \<and> length (eps s') = Suc i + n \<and>
     (\<forall>j<Suc i. eps s' ! j = eps ?s ! j) \<and> (\<forall>j. Suc i \<le> j \<longrightarrow> j < Suc i + n \<longrightarrow> no_qps (eps s' ! j) \<and> de_mem (eps s' ! j) \<noteq> None)"
    using Suc.prems(2,3) by (intro Suc.IH [OF run]) auto
  then have "no_qps (eps s' ! i) \<and> de_mem (eps s' ! i) \<noteq> None" using Suc.prems(2) by (simp add: no_qps_def)
  then have "no_qps (eps s' ! j) \<and> de_mem (eps s' ! j) \<noteq> None" if "i \<le> j" "j < i + Suc n" for j
    using ih that by (cases "i = j") auto
  then show ?case using bal_trans [OF b] ih Suc.prems(2) by auto
qed simp

lemma rc_resources_run:
  assumes "run_state (rc_resources vb wr) s = (0, s')" "ibdev s = Some d"
    "d_rc_pd d = None" "d_rc_cq_log d = None" "d_rc_cq_ctrl d = None" "d_rc_wc_array d = None"
  shows "bal s s' \<and> same_qp s s' \<and> eps s' = eps s \<and> (\<exists>d'. ibdev s' = Some d' \<and>
    d_rc_cq_ctrl d' \<noteq> None \<and> d_rc_cq_log d' \<noteq> None \<and> d_log_mr d' = d_log_mr d \<and> d_ctrl_mr d' = d_ctrl_mr d \<and> d_prereg_snapshot_mr d' = d_prereg_snapshot_mr d)"
  using assms
  by (auto simp: rc_resources_def Let_def same_qp_def bal_def refs_defs split: prod.splits option.splits if_splits
      dest!: quietE [OF quiet_find_max_inline])

lemma rc_memory_reg_run:
  assumes "run_state (rc_memory_reg vb sizes) s = (0, s')" "ibdev s = Some d"
    "d_log_mr d = None" "d_ctrl_mr d = None" "d_prereg_snapshot_mr d = None"
  shows "bal s s' \<and> same_qp s s' \<and> eps s' = eps s \<and>
    (\<exists>d'. ibdev s' = Some d' \<and> d_rc_cq_ctrl d' = d_rc_cq_ctrl d \<and> d_rc_cq_log d' = d_rc_cq_log d)"
  using assms
  by (auto simp: rc_memory_reg_def same_qp_def bal_def refs_defs split: prod.splits option.splits)

lemma new_qp_run:
  assumes "run_state (new_qp vb i cq upd) s = (0, s')" "i < length (eps s)"
    "\<And>h. ep_refs (upd (Some h) (eps s ! i)) = ep_refs (eps s ! i) + {#(K_qp, h)#}"
  shows "bal s s' \<and> same_qp s s' \<and> ibdev s' = ibdev s \<and> (\<exists>h. eps s' = (eps s)[i := upd (Some h) (eps s ! i)])"
proof -
  obtain h e where s': "s' = s\<lparr>env := e, held := (K_qp, h) # held s, eps := (eps s)[i := upd (Some h) (eps s ! i)]\<rparr>"
    using assms(1) by (auto simp: new_qp_def split: prod.splits option.splits)
  then show ?thesis
    using bal_put_ep [of i s "upd (Some h) (eps s ! i)" "(K_qp, h)" e] assms(2,3) by (auto simp: same_qp_def)
qed

lemma rc_qp_create_run:
  assumes "run_state (rc_qp_create vb i) s = (0, s')" "i < length (eps s)" "no_qps (eps s ! i)"
  shows "bal s s' \<and> same_qp s s' \<and> ibdev s' = ibdev s \<and> (\<forall>j. j \<noteq> i \<longrightarrow> eps s' ! j = eps s ! j) \<and>
    map de_mem (eps s') = map de_mem (eps s)"
proof (cases "de_mem (eps s ! i) = None")
  case True
  then have "s' = s" using assms(1) by (auto simp: rc_qp_create_def split: option.splits)
  then show ?thesis by (simp add: same_qp_def)
next
  case False
  obtain d where d: "ibdev s = Some d" using assms(1) by (auto simp: rc_qp_create_def split: option.splits)
  obtain s1 where 1: "run_state (new_qp vb i (d_rc_cq_ctrl d) (\<lambda>r e. e\<lparr>de_ctrl_qp := r\<rparr>)) s = (0, s1)"
    and 2: "run_state (new_qp vb i (d_rc_cq_log d) (\<lambda>r e. e\<lparr>de_log_qp := r\<rparr>)) s1 = (0, s')"
    using assms(1) False d by (auto simp: rc_qp_create_def split: prod.splits if_splits)
  obtain h where a: "bal s s1" "same_qp s s1" "ibdev s1 = ibdev s" "eps s1 = (eps s)[i := (eps s ! i)\<lparr>de_ctrl_qp := Some h\<rparr>]"
    using new_qp_run [OF 1 assms(2)] assms(3) False by (auto simp: ep_refs_def no_qps_def)
  obtain h' where b: "bal s1 s'" "same_qp s1 s'" "ibdev s' = ibdev s1" "eps s' = (eps s1)[i := (eps s1 ! i)\<lparr>de_log_qp := Some h'\<rparr>]"
    using new_qp_run [OF 2] a(4) assms(2,3) False by (auto simp: ep_refs_def no_qps_def)
  show ?thesis using bal_trans [OF a(1) b(1)] same_qp_trans [OF a(2) b(2)] a(3,4) b(3,4) assms(2)
    by (auto simp: map_update list_update_same_conv)
qed

lemma rc_qps_create_run:
  "run_state (rc_qps_create vb i n) s = (0, s') \<Longrightarrow> length (eps s) = i + n \<Longrightarrow>
     (\<And>j. i \<le> j \<Longrightarrow> j < i + n \<Longrightarrow> no_qps (eps s ! j)) \<Longrightarrow>
     bal s s' \<and> same_qp s s' \<and> ibdev s' = ibdev s \<and> map de_mem (eps s') = map de_mem (eps s)"
proof (induction n arbitrary: i s)
  case 0
  then show ?case by (simp add: same_qp_def)
next
  case (Suc n)
  obtain s1 where 1: "run_state (rc_qp_create vb i) s = (0, s1)" and 2: "run_state (rc_qps_create vb (Suc i) n) s1 = (0, s')"
    using Suc.prems(1) by (auto split: prod.splits if_splits)
  have a: "bal s s1 \<and> same_qp s s1 \<and> ibdev s1 = ibdev s \<and> (\<forall>j. j \<noteq> i \<longrightarrow> eps s1 ! j = eps s ! j) \<and>
      map de_mem (eps s1) = map de_mem (eps s)"
    using Suc.prems by (intro rc_qp_create_run [OF 1]) auto
  have "bal s1 s' \<and> same_qp s1 s' \<and> ibdev s' = ibdev s1 \<and> map de_mem (eps s') = map de_mem (eps s1)"
    using Suc.prems(2,3) a by (intro Suc.IH [OF 2]) (auto simp: same_qp_def)
  then show ?case using a by (auto intro: bal_trans same_qp_trans)
qed

section \<open>The shutdown\<close>

text \<open>
  \<open>frees P X m Q\<close>: in a state with \<open>P\<close> that holds \<open>X\<close> and more, \<open>m\<close> gives back exactly \<open>X\<close>, nothing of it is undefined, and
  \<open>Q\<close> holds afterwards.
\<close>

definition frees :: "('v lib \<Rightarrow> bool) \<Rightarrow> res multiset \<Rightarrow> ('v, 'a) ib \<Rightarrow> ('v lib \<Rightarrow> bool) \<Rightarrow> bool" where
  "frees P X m Q \<longleftrightarrow> (\<forall>s C. P s \<longrightarrow> mset (held s) = C + X \<longrightarrow>
     (case run_state m s of (a, s') \<Rightarrow> mset (held s') = C \<and> ub s' = ub s \<and> Q s'))"

lemma frees_bind: "frees P X m Q \<Longrightarrow> (\<And>a. frees Q Y (f a) T) \<Longrightarrow> frees P (X + Y) (m \<bind> f) T"
proof -
  assume m: "frees P X m Q" and f: "\<And>a. frees Q Y (f a) T"
  show ?thesis
    unfolding frees_def
  proof (intro allI impI)
    fix s C
    assume s: "P s" "mset (held s) = C + (X + Y)"
    obtain a s1 where 1: "run_state m s = (a, s1)" by (cases "run_state m s")
    have "mset (held s) = (C + Y) + X" using s(2) by (simp add: ac_simps)
    then have "mset (held s1) = C + Y" "ub s1 = ub s" "Q s1"
      using m s(1) 1 by (auto simp: frees_def)
    then show "case run_state (m \<bind> f) s of (a, s') \<Rightarrow> mset (held s') = C \<and> ub s' = ub s \<and> T s'"
      using f [of a] 1 by (auto simp: frees_def)
  qed
qed

lemma frees_bind0: "frees P {#} m Q \<Longrightarrow> (\<And>a. frees Q Y (f a) T) \<Longrightarrow> frees P Y (m \<bind> f) T"
  using frees_bind [of P "{#}" m Q Y f T] by simp

lemma frees_ret: "frees P {#} (ret a) P"
  by (simp add: frees_def)

text \<open>The pointers of the program do not change.\<close>

definition ptrs :: "ib_device \<Rightarrow> dev_ep list \<Rightarrow> handle option \<Rightarrow> 'v lib \<Rightarrow> bool" where
  "ptrs d es w s \<longleftrightarrow> ibdev s = Some d \<and> eps s = es \<and> wc_array s = w"

lemma frees_call: "frees (ptrs d es w) {#} (call_env f) (ptrs d es w)"
  by (simp add: frees_def ptrs_def split: prod.split)

lemma frees_release: "frees (ptrs d es w) {#(k, h)#} (release vb k h) (ptrs d es w)"
proof -
  have "(k, h) \<in> set (held s)" if "mset (held s) = C + {#(k, h)#}" for s :: "'a lib" and C
    using that set_mset_mset [of "held s"] by auto
  then show ?thesis by (auto simp: frees_def ptrs_def split: prod.split)
qed

lemma frees_release_opt: "frees (ptrs d es w) (opt k p) (release_opt vb k p) (ptrs d es w)"
  using frees_bind [OF frees_release frees_ret] by (auto simp: release_opt_def frees_ret split: option.split)

lemma frees_set_dev: "frees (ptrs d es w) {#} (set_dev f) (ptrs (f d) es w)"
  by (simp add: frees_def ptrs_def)

lemma frees_get: "(\<And>s. ptrs d es w s \<Longrightarrow> frees (ptrs d es w) X (f s) Q) \<Longrightarrow> frees (ptrs d es w) X (State_Monad.get \<bind> f) Q"
  by (simp add: frees_def)

lemma frees_with_dev: "frees (ptrs d es w) X (f d) Q \<Longrightarrow> frees (ptrs d es w) X (with_dev a f) Q"
  by (simp add: frees_def ptrs_def)

lemma frees_cong: "frees P X m Q \<Longrightarrow> X = Y \<Longrightarrow> frees P Y m Q"
  by simp

lemma frees_poll: "frees (ptrs d es w) {#} (poll_all vb cq n) (ptrs d es w)"
  proof (induction n)
  case (Suc n)
  then show ?case by (auto simp: frees_ret intro!: frees_bind0 [where Q = "ptrs d es w"] frees_call)
qed (simp add: frees_ret)

lemma frees_slots:
  "Garbage \<notin> set cs \<Longrightarrow> frees (ptrs d es w) (slots_refs k cs) (release_slots vb k cs) (ptrs d es w)"
proof (induction cs)
  case (Cons c cs)
  then show ?case by (cases c) (auto intro: frees_bind frees_release_opt)
qed (simp add: frees_ret)

definition clean_array :: "(handle \<times> slot list) option \<Rightarrow> bool" where
  "clean_array a \<longleftrightarrow> (\<forall>h cs. a = Some (h, cs) \<longrightarrow> Garbage \<notin> set cs)"

lemma frees_array:
  "clean_array a \<Longrightarrow> frees (ptrs d es w) (arr_refs k a) (release_array vb k a) (ptrs d es w)"
  by (auto simp: clean_array_def release_array_def arr_refs_def frees_ret split: option.split
      intro!: frees_cong [OF frees_bind [OF frees_slots frees_bind [OF frees_release frees_ret]]])

lemma frees_ud_memory_dereg:
  assumes "clean_array (d_ud_recv_mrs d)" "clean_array (d_ud_recv_bufs d)"
  shows "frees (ptrs d es w)
     (arr_refs K_mr (d_ud_recv_mrs d) + arr_refs K_mem (d_ud_recv_bufs d) + opt K_mr (d_ud_send_mr d) + opt K_mem (d_ud_send_buf d))
     (ud_memory_dereg vb)
     (ptrs (d\<lparr>d_ud_recv_mrs := None, d_ud_recv_bufs := None, d_ud_send_buf := None\<rparr>) es w)"
proof -
  let ?d1 = "d\<lparr>d_ud_recv_mrs := None\<rparr>" and ?d2 = "d\<lparr>d_ud_recv_mrs := None, d_ud_recv_bufs := None\<rparr>"
  note 1 = frees_bind [OF frees_array [OF assms(1)] frees_bind [OF frees_set_dev]]
  note 2 = frees_bind [OF frees_array [OF assms(2), of ?d1] frees_bind [OF frees_set_dev]]
  note 3 = frees_bind [OF frees_release_opt [of ?d2] frees_bind [OF frees_release_opt frees_set_dev]]
  show ?thesis
    unfolding ud_memory_dereg_def
    by (rule frees_with_dev, rule frees_cong) (rule 1, rule 2, rule 3, simp add: ac_simps)
qed

text \<open>Moving a queue pair to the error state is possible from every state.\<close>

definition err_ok :: "'v verbs \<Rightarrow> bool" where
  "err_ok vb \<longleftrightarrow> (\<forall>qp e. fst (vb_rc vb (Modify_qp qp IBV_QPS_ERR) e) = 0)"

lemma frees_ud_qp_destroy:
  assumes "d_ud_qp d \<noteq> None \<Longrightarrow> d_ud_rcq d \<noteq> None"
  shows "frees (ptrs d es w) (opt K_qp (d_ud_qp d)) (ud_qp_destroy vb) (ptrs (d\<lparr>d_ud_qp := None\<rparr>) es w)"
proof (cases "d_ud_qp d")
  case None
  have eq: "d\<lparr>d_ud_qp := None\<rparr> = d" using None by (cases d) simp
  show ?thesis
    unfolding ud_qp_destroy_def eq by (intro frees_with_dev) (simp add: None frees_ret)
next
  case (Some qp)
  then obtain cq where cq: "d_ud_rcq d = Some cq" using assms by auto
  have poll: "frees (ptrs d es w) {#} (do { poll_all vb cq (vb_polls vb); _ \<leftarrow> call_env (vb_rc vb (Modify_qp qp IBV_QPS_RESET)); ret () }) (ptrs d es w)"
    by (intro frees_bind0 [OF frees_poll] frees_bind0 [OF frees_call] frees_ret)
  have fin: "frees (ptrs d es w) {#(K_qp, qp)#} (do { _ \<leftarrow> release vb K_qp qp; set_dev (\<lambda>d. d\<lparr>d_ud_qp := None\<rparr>) })
      (ptrs (d\<lparr>d_ud_qp := None\<rparr>) es w)"
    using frees_bind [OF frees_release frees_set_dev] by simp
  have "frees (ptrs d es w) {#} (if rc \<noteq> 0 then ret () else with_ptr () (d_ud_rcq d) (\<lambda>rcq. do {
        poll_all vb rcq (vb_polls vb);
        _ \<leftarrow> call_env (vb_rc vb (Modify_qp qp IBV_QPS_RESET));
        ret () })) (ptrs d es w)" for rc :: int
    using poll cq by (simp add: frees_ret with_ptr_def)
  then show ?thesis
    unfolding ud_qp_destroy_def
    using Some fin by (intro frees_with_dev) (auto intro!: frees_bind0 [OF frees_call] frees_bind0 [where Q = "ptrs d es w"])
qed

lemma frees_ud_shutdown:
  assumes "d_ud_qp d \<noteq> None \<Longrightarrow> d_ud_rcq d \<noteq> None" "clean_array (d_ud_recv_mrs d)" "clean_array (d_ud_recv_bufs d)"
  shows "\<exists>d'. frees (ptrs d es w) (opt K_mem w + ud_refs d) (ud_shutdown vb) (ptrs d' es w)"
proof -
  let ?d1 = "d\<lparr>d_ud_qp := None\<rparr>" and ?d2 = "d\<lparr>d_ud_qp := None, d_ud_recv_mrs := None, d_ud_recv_bufs := None, d_ud_send_buf := None\<rparr>"
  have 1: "frees (ptrs d es w) (opt K_mem w) (release_opt vb K_mem w) (ptrs d es w)" by (rule frees_release_opt)
  have 2: "frees (ptrs d es w) (opt K_ah (d_mcast_ah d)) (with_dev () (\<lambda>d. release_opt vb K_ah (d_mcast_ah d))) (ptrs d es w)"
    by (intro frees_with_dev frees_release_opt)
  have 3: "frees (ptrs d es w) (opt K_qp (d_ud_qp d)) (ud_qp_destroy vb) (ptrs ?d1 es w)"
    by (rule frees_ud_qp_destroy [OF assms(1)])
  have 4: "frees (ptrs ?d1 es w)
     (arr_refs K_mr (d_ud_recv_mrs d) + arr_refs K_mem (d_ud_recv_bufs d) + opt K_mr (d_ud_send_mr d) + opt K_mem (d_ud_send_buf d))
     (ud_memory_dereg vb) (ptrs ?d2 es w)"
    using frees_ud_memory_dereg [of ?d1] assms(2,3) by simp
  have 5: "frees (ptrs ?d2 es w) (opt K_cq (d_ud_scq ?d2) + (opt K_cq (d_ud_rcq ?d2) + opt K_pd (d_ud_pd ?d2)))
     (with_dev () (\<lambda>d. do { release_opt vb K_cq (d_ud_scq d); release_opt vb K_cq (d_ud_rcq d); release_opt vb K_pd (d_ud_pd d) }))
     (ptrs ?d2 es w)"
    by (intro frees_with_dev) (rule frees_bind [OF frees_release_opt frees_bind [OF frees_release_opt frees_release_opt]])
  have "frees (ptrs d es w) (opt K_mem w + ud_refs d) (ud_shutdown vb) (ptrs ?d2 es w)"
    unfolding ud_shutdown_def
  proof (rule frees_get)
    fix s :: "'a lib"
    assume "ptrs d es w s"
    then have w: "wc_array s = w" by (simp add: ptrs_def)
    from frees_bind [OF 1 frees_bind [OF 2 frees_bind [OF 3 frees_bind [OF 4 5]]]]
    show "frees (ptrs d es w) (opt K_mem w + ud_refs d)
       (do { release_opt vb K_mem (wc_array s); with_dev () (\<lambda>d. release_opt vb K_ah (d_mcast_ah d)); ud_qp_destroy vb; ud_memory_dereg vb;
         with_dev () (\<lambda>d. do { release_opt vb K_cq (d_ud_scq d); release_opt vb K_cq (d_ud_rcq d); release_opt vb K_pd (d_ud_pd d) }) })
       (ptrs ?d2 es w)"
      unfolding w by (rule frees_cong) (simp add: ud_refs_def ac_simps)
  qed
  then show ?thesis by blast
qed

text \<open>A result that is always the same.\<close>

lemma frees_bind_val:
  assumes "frees P {#} m Q" "\<And>s. fst (run_state m s) = v" "frees Q Y (f v) T"
  shows "frees P Y (m \<bind> f) T"
proof -
  have "m \<bind> f = m \<bind> (\<lambda>_. f v)"
    using assms(2) by (intro state_ext) (auto split: prod.split, metis fst_conv)
  then show ?thesis using frees_bind0 [OF assms(1) assms(3)] by simp
qed

lemma frees_put_ep: "frees (ptrs d es w) {#} (put_ep i f) (ptrs d (es[i := f (es ! i)]) w)"
  by (simp add: frees_def ptrs_def)

lemma frees_destroy_qp:
  assumes "err_ok vb" "cq \<noteq> None"
  shows "frees (ptrs d es w) (opt K_qp qp) (destroy_qp vb i qp cq upd) (ptrs d (if qp = None then es else es[i := upd (es ! i)]) w)"
proof (cases qp)
  case None
  then show ?thesis by (simp add: destroy_qp_def frees_ret)
next
  case (Some h)
  obtain c where c: "cq = Some c" using assms(2) by auto
  let ?err = "do { rc \<leftarrow> call_env (vb_rc vb (Modify_qp h IBV_QPS_ERR));
             (if rc \<noteq> 0 then ret () else with_ptr () cq (\<lambda>cq. poll_all vb cq (vb_polls vb))); ret rc }"
  have rc: "frees (ptrs d es w) {#} (if st = IBV_QPS_RESET then ret 0 else ?err) (ptrs d es w)" for st
    using c by (auto simp: frees_ret with_ptr_def intro!: frees_bind0 [OF frees_call] frees_bind0 [OF _ frees_ret] frees_poll)
  have z: "fst (run_state (if st = IBV_QPS_RESET then ret 0 else ?err) s) = 0" for st s
    using assms(1) c by (auto simp: err_ok_def split: prod.split) (metis fst_conv)+
  have fin: "frees (ptrs d es w) {#(K_qp, h)#} (do { _ \<leftarrow> release vb K_qp h; put_ep i upd }) (ptrs d (es[i := upd (es ! i)]) w)"
    using frees_bind [OF frees_release frees_put_ep] by simp
  show ?thesis
    unfolding destroy_qp_def Some option.case opt_simps
    by (rule frees_bind0 [OF frees_call], rule frees_bind_val [OF rc z]) (use fin in simp)
qed

definition strip :: "dev_ep \<Rightarrow> dev_ep" where
  "strip e = (if de_mem e = None then e else e\<lparr>de_ctrl_qp := None, de_log_qp := None\<rparr>)"

definition qp_refs :: "dev_ep \<Rightarrow> res multiset" where
  "qp_refs e = (if de_mem e = None then {#} else opt K_qp (de_ctrl_qp e) + opt K_qp (de_log_qp e))"

lemma frees_rc_qp_destroy:
  assumes "err_ok vb" "d_rc_cq_ctrl d \<noteq> None" "d_rc_cq_log d \<noteq> None" "i < length es"
  shows "frees (ptrs d es w) (qp_refs (es ! i)) (rc_qp_destroy vb i) (ptrs d (es[i := strip (es ! i)]) w)"
  unfolding rc_qp_destroy_def
proof (rule frees_get)
  fix s :: "'a lib"
  assume "ptrs d es w s"
  then have s: "eps s = es" by (simp add: ptrs_def)
  let ?e = "es ! i"
  let ?es = "if de_ctrl_qp ?e = None then es else es[i := ?e\<lparr>de_ctrl_qp := None\<rparr>]"
  let ?es' = "if de_log_qp ?e = None then ?es else ?es[i := (?es ! i)\<lparr>de_log_qp := None\<rparr>]"
  note q1 = frees_destroy_qp [OF assms(1,2), of d es w "de_ctrl_qp ?e" i "\<lambda>e. e\<lparr>de_ctrl_qp := None\<rparr>"]
  note q2 = frees_destroy_qp [OF assms(1,3), of d ?es w "de_log_qp ?e" i "\<lambda>e. e\<lparr>de_log_qp := None\<rparr>"]
  have es': "?es' = es[i := strip ?e]" if "de_mem ?e \<noteq> None"
  proof (rule nth_equalityI)
    show "?es' ! j = es[i := strip ?e] ! j" for j
      using that assms(4) by (cases "j = i") (auto simp: strip_def intro!: dev_ep.equality)
  qed simp
  show "frees (ptrs d es w) (qp_refs ?e)
     (if de_mem (eps s ! i) = None then ret ()
      else with_dev () (\<lambda>d. do {
        destroy_qp vb i (de_ctrl_qp (eps s ! i)) (d_rc_cq_ctrl d) (\<lambda>e. e\<lparr>de_ctrl_qp := None\<rparr>);
        destroy_qp vb i (de_log_qp (eps s ! i)) (d_rc_cq_log d) (\<lambda>e. e\<lparr>de_log_qp := None\<rparr>) }))
     (ptrs d (es[i := strip ?e]) w)"
  proof (cases "de_mem ?e = None")
    case True
    then show ?thesis by (simp add: s qp_refs_def strip_def frees_ret)
  next
    case False
    have qr: "qp_refs ?e = opt K_qp (de_ctrl_qp ?e) + opt K_qp (de_log_qp ?e)" using False by (auto simp: qp_refs_def)
    have "frees (ptrs d es w) (qp_refs ?e) (with_dev () (\<lambda>d. do {
        destroy_qp vb i (de_ctrl_qp ?e) (d_rc_cq_ctrl d) (\<lambda>e. e\<lparr>de_ctrl_qp := None\<rparr>);
        destroy_qp vb i (de_log_qp ?e) (d_rc_cq_log d) (\<lambda>e. e\<lparr>de_log_qp := None\<rparr>) })) (ptrs d (es[i := strip ?e]) w)"
      unfolding qr es' [OF False, symmetric] by (intro frees_with_dev) (rule frees_bind [OF q1 q2])
    then show ?thesis using False by (auto simp: s)
  qed
qed

lemma update_append: "length us = i \<Longrightarrow> (us @ e # vs)[i := e'] = us @ e' # vs"
  by auto

lemma frees_rc_qps_destroy:
  assumes "err_ok vb" "d_rc_cq_ctrl d \<noteq> None" "d_rc_cq_log d \<noteq> None"
  shows "frees (ptrs d (us @ es) w) (sum_list (map qp_refs es)) (rc_qps_destroy vb (length us) (length es)) (ptrs d (us @ map strip es) w)"
proof (induction es arbitrary: us)
  case Nil
  then show ?case by (simp add: frees_ret)
next
  case (Cons e es)
  have 1: "frees (ptrs d (us @ e # es) w) (qp_refs e) (rc_qp_destroy vb (length us)) (ptrs d (us @ strip e # es) w)"
    using frees_rc_qp_destroy [OF assms, of "length us" "us @ e # es" w] by (simp add: update_append)
  have 2: "frees (ptrs d (us @ strip e # es) w) (sum_list (map qp_refs es)) (rc_qps_destroy vb (Suc (length us)) (length es))
      (ptrs d (us @ map strip (e # es)) w)"
    using Cons.IH [of "us @ [strip e]"] by simp
  show ?case using frees_bind [OF 1 2] by simp
qed

lemma frees_destroy_eps:
  "(\<And>e. e \<in> set es \<Longrightarrow> no_qps e) \<Longrightarrow>
     \<exists>es'. frees (ptrs d (us @ es) w) (eps_refs es) (destroy_eps vb (length us) (length es)) (ptrs d (us @ es') w)"
proof (induction es arbitrary: us)
  case Nil
  show ?case by (rule exI [of _ "[]"]) (simp add: frees_ret)
next
  case (Cons e es)
  define e' where "e' = (if de_mem e = None then e else \<lparr>de_mem = None, de_ah = None, de_ctrl_qp = None, de_log_qp = None\<rparr>)"
  have 1: "frees (ptrs d (us @ e # es) w) (ep_refs e) (dare_ib_destroy_ep vb (length us)) (ptrs d (us @ e' # es) w)"
    unfolding dare_ib_destroy_ep_def ud_ah_destroy_def
  proof (rule frees_get)
    fix s :: "'a lib"
    assume "ptrs d (us @ e # es) w s"
    then have s: "eps s ! length us = e" by (simp add: ptrs_def)
    show "frees (ptrs d (us @ e # es) w) (ep_refs e)
      (if de_mem (eps s ! length us) = None then ret ()
       else do { release_opt vb K_ah (de_ah (eps s ! length us)); release_opt vb K_mem (de_mem (eps s ! length us));
         put_ep (length us) (\<lambda>e. \<lparr>de_mem = None, de_ah = None, de_ctrl_qp = None, de_log_qp = None\<rparr>) })
      (ptrs d (us @ e' # es) w)"
    proof (cases "de_mem e = None")
      case True
      then show ?thesis by (simp add: s e'_def ep_refs_def frees_ret)
    next
      case False
      then have "ep_refs e = opt K_ah (de_ah e) + (opt K_mem (de_mem e) + {#})"
        using Cons.prems [of e] by (auto simp: ep_refs_def no_qps_def)
      moreover note frees_bind [OF frees_release_opt [of d "us @ e # es" w K_ah "de_ah e" vb]
          frees_bind [OF frees_release_opt [of d "us @ e # es" w K_mem "de_mem e" vb]
            frees_put_ep [of d "us @ e # es" w "length us" "\<lambda>_. \<lparr>de_mem = None, de_ah = None, de_ctrl_qp = None, de_log_qp = None\<rparr>"]]]
      ultimately show ?thesis using False by (auto simp: s e'_def update_append)
    qed
  qed
  obtain es' where 2: "frees (ptrs d (us @ e' # es) w) (eps_refs es) (destroy_eps vb (Suc (length us)) (length es)) (ptrs d (us @ e' # es') w)"
    using Cons.IH [of "us @ [e']"] Cons.prems by auto
  show ?case using frees_bind [OF 1 2] by auto
qed

lemma frees_rc_memory_dereg:
  "frees (ptrs d es w) (opt K_mr (d_log_mr d) + (opt K_mr (d_ctrl_mr d) + (opt K_mr (d_prereg_snapshot_mr d) + opt K_mr (d_snapshot_mr d))))
     (rc_memory_dereg vb)
     (ptrs (d\<lparr>d_log_mr := None, d_ctrl_mr := None, d_prereg_snapshot_mr := None, d_snapshot_mr := None\<rparr>) es w)"
proof -
  let ?d1 = "d\<lparr>d_log_mr := None\<rparr>"
  let ?d2 = "?d1\<lparr>d_ctrl_mr := None\<rparr>"
  let ?d3 = "?d2\<lparr>d_prereg_snapshot_mr := None\<rparr>"
  have step: "frees (ptrs d' es w) (opt k p + X) (do { release_opt vb k p; set_dev f; m }) (ptrs d'' es w)"
    if "frees (ptrs (f d') es w) X m (ptrs d'' es w)" for d' d'' k p X f m
    by (rule frees_bind [OF frees_release_opt frees_bind0 [OF frees_set_dev [of d' es w f] that]])
  have last: "frees (ptrs d' es w) (opt k p) (do { release_opt vb k p; set_dev f }) (ptrs (f d') es w)" for d' k p f
    using frees_bind [OF frees_release_opt frees_set_dev, of d' es w k p vb f] by simp
  show ?thesis
    unfolding rc_memory_dereg_def
    by (intro frees_with_dev step) (rule last)
qed

lemma frees_rc_free:
  assumes "err_ok vb" "d_rc_cq_ctrl d \<noteq> None" "d_rc_cq_log d \<noteq> None" "d_udata d"
  shows "frees (ptrs d es w) (sum_list (map qp_refs es) + rc_refs d) (rc_free vb)
     (ptrs (d\<lparr>d_rc_wc_array := None, d_log_mr := None, d_ctrl_mr := None, d_prereg_snapshot_mr := None, d_snapshot_mr := None\<rparr>) (map strip es) w)"
proof -
  let ?d = "d\<lparr>d_rc_wc_array := None\<rparr>"
  have 1: "frees (ptrs d es w) (sum_list (map qp_refs es)) (rc_qps_destroy vb 0 (length es)) (ptrs d (map strip es) w)"
    using frees_rc_qps_destroy [OF assms(1-3), of "[]" es w] by simp
  have 2: "frees (ptrs ?d (map strip es) w) (opt K_mr (d_log_mr d) + (opt K_mr (d_ctrl_mr d) + (opt K_mr (d_prereg_snapshot_mr d) + opt K_mr (d_snapshot_mr d))))
     (rc_memory_dereg vb)
     (ptrs (d\<lparr>d_rc_wc_array := None, d_log_mr := None, d_ctrl_mr := None, d_prereg_snapshot_mr := None, d_snapshot_mr := None\<rparr>) (map strip es) w)"
    using frees_rc_memory_dereg [of ?d "map strip es" w vb] by simp
  note all = frees_bind [OF 1 frees_bind [OF frees_release_opt frees_bind0 [OF frees_set_dev [of d "map strip es" w "\<lambda>d. d\<lparr>d_rc_wc_array := None\<rparr>"]
        frees_bind [OF frees_release_opt frees_bind [OF frees_release_opt frees_bind [OF frees_release_opt 2]]]]]]
  show ?thesis
    unfolding rc_free_def
  proof (intro frees_with_dev frees_get)
    fix s :: "'a lib"
    assume "ptrs d es w s"
    then have s: "eps s = es" by (simp add: ptrs_def)
    show "frees (ptrs d es w) (sum_list (map qp_refs es) + rc_refs d)
      (do { (if d_udata d then rc_qps_destroy vb 0 (length (eps s)) else ret ());
        release_opt vb K_mem (d_rc_wc_array d); set_dev (\<lambda>d. d\<lparr>d_rc_wc_array := None\<rparr>); release_opt vb K_cq (d_rc_cq_log d);
        release_opt vb K_cq (d_rc_cq_ctrl d); release_opt vb K_pd (d_rc_pd d); rc_memory_dereg vb })
      (ptrs (d\<lparr>d_rc_wc_array := None, d_log_mr := None, d_ctrl_mr := None, d_prereg_snapshot_mr := None, d_snapshot_mr := None\<rparr>) (map strip es) w)"
      unfolding s using assms(4) by (simp, intro frees_cong [OF all]) (simp add: rc_refs_def ac_simps)
  qed
qed

lemma qp_refs_strip: "sum_list (map qp_refs es) + eps_refs (map strip es) = eps_refs es"
  by (induction es) (auto simp: qp_refs_def strip_def ep_refs_def ac_simps)

lemma strip_eps: "eps_refs es = sum_list (map qp_refs es) + eps_refs (map strip es)"
  by (rule qp_refs_strip [symmetric])

text \<open>What the shutdown needs of the device.\<close>

definition ready :: "ib_device \<Rightarrow> bool" where
  "ready d \<longleftrightarrow> d_udata d \<and> d_ud_qp d \<noteq> None \<and> d_ud_rcq d \<noteq> None \<and> d_rc_cq_ctrl d \<noteq> None \<and> d_rc_cq_log d \<noteq> None \<and>
     clean_array (d_ud_recv_mrs d) \<and> clean_array (d_ud_recv_bufs d)"

lemma frees_srv_shutdown:
  assumes "err_ok vb" "ready d" "\<And>e. e \<in> set es \<Longrightarrow> de_mem e = None \<Longrightarrow> no_qps e"
  shows "frees (ptrs d es w) (opt K_mem w + eps_refs es + dev_refs d) (dare_ib_srv_shutdown vb) (\<lambda>s. ibdev s = None)"
proof -
  let ?d = "d\<lparr>d_rc_wc_array := None, d_log_mr := None, d_ctrl_mr := None, d_prereg_snapshot_mr := None, d_snapshot_mr := None\<rparr>"
  let ?es = "map strip es"
  have 1: "frees (ptrs d es w) (sum_list (map qp_refs es) + rc_refs d) (rc_free vb) (ptrs ?d ?es w)"
    using assms(2) by (intro frees_rc_free [OF assms(1)]) (simp_all add: ready_def)
  have "no_qps e" if "e \<in> set ?es" for e using that assms(3) by (auto simp: strip_def no_qps_def)
  then obtain es' where e: "frees (ptrs ?d ?es w) (eps_refs ?es) (destroy_eps vb 0 (length ?es)) (ptrs ?d es' w)"
    using frees_destroy_eps [of ?es ?d "[]" w vb] by auto
  have 2: "frees (ptrs ?d ?es w) (eps_refs ?es) (with_dev () (\<lambda>d. do {
       s \<leftarrow> State_Monad.get; if d_udata d then destroy_eps vb 0 (length (eps s)) else ret () })) (ptrs ?d es' w)"
    using e assms(2) by (intro frees_with_dev frees_get) (simp add: ptrs_def ready_def)
  have "ud_refs ?d = ud_refs d" by (simp add: ud_refs_def)
  then obtain d' where u: "frees (ptrs ?d es' w) (opt K_mem w + ud_refs d) (ud_shutdown vb) (ptrs d' es' w)"
    using frees_ud_shutdown [of ?d es' w vb] assms(2) by (auto simp: ready_def)
  have fin: "frees (ptrs d' es' w) {#} (modify (\<lambda>s. s\<lparr>ibdev := None\<rparr>)) (\<lambda>s. ibdev s = None)"
    by (simp add: frees_def)
  have 3: "frees (ptrs ?d es' w) (opt K_mem w + ud_refs d + ({#(K_context, d_context d)#} + ({#(K_mem, d_mem d)#} + {#})))
      (free_ib_device vb) (\<lambda>s. ibdev s = None)"
    unfolding free_ib_device_def
    using frees_bind [OF u frees_bind [OF frees_release [of d' es' w K_context "d_context d" vb]
          frees_bind [OF frees_release [of d' es' w K_mem "d_mem d" vb] fin]]]
    by (intro frees_get) (simp add: ptrs_def)
  show ?thesis
    unfolding dare_ib_srv_shutdown_def
    using frees_bind [OF 1 frees_bind [OF 2 3]] by (rule frees_cong) (subst (2) strip_eps, simp add: dev_refs_def ac_simps)
qed

section \<open>The whole set-up\<close>

lemma recv_wrs_clean: "recv_wrs i bs ms = Some wrs \<Longrightarrow> Garbage \<notin> set bs \<and> Garbage \<notin> set ms"
  by (induction i bs ms arbitrary: wrs rule: recv_wrs.induct) auto

lemma ud_start_run:
  assumes "run_state (ud_start vb) s = (0, s')"
  shows "\<exists>e d. s' = s\<lparr>env := e\<rparr> \<and> ibdev s = Some d \<and> d_ud_qp d \<noteq> None \<and>
    clean_array (d_ud_recv_mrs d) \<and> clean_array (d_ud_recv_bufs d)"
  using assms
  by (auto simp: ud_start_def ud_post_receives_def clean_array_def split: prod.splits option.splits if_splits
      dest!: recv_wrs_clean)

text \<open>The state in which \<^verbatim>\<open>init_network_cb\<close> runs: no device and no endpoints.\<close>

definition pristine :: "'v lib \<Rightarrow> bool" where
  "pristine s \<longleftrightarrow> ibdev s = None \<and> wc_array s = None \<and> (\<forall>e\<in>set (eps s). de_mem e = None)"

lemma pristine_refs: "pristine s \<Longrightarrow> lib_refs s = {#}"
proof -
  have "eps_refs es = {#}" if "\<forall>e\<in>set es. de_mem e = None" for es
    using that by (induction es) (auto simp: ep_refs_def)
  then show "pristine s \<Longrightarrow> lib_refs s = {#}" by (simp add: pristine_def lib_refs_def)
qed

lemma start_network_run:
  assumes "run_state (start_network vb wr sizes) s = (0, s')" "pristine s"
  shows "mset (held s') = mset (held s) + lib_refs s' \<and> (\<exists>d. ibdev s' = Some d \<and> ready d) \<and> (\<forall>e\<in>set (eps s'). de_mem e \<noteq> None)"
proof -
  obtain s1 s2 s3 where 1: "run_state (dare_init_ib_device vb MAX_CLIENT_COUNT) s = (0, s1)"
    and 2: "run_state (init_ib_srv_data vb) s1 = (0, s2)" and 3: "run_state (rc_init vb wr sizes) s2 = (0, s3)"
    and 4: "run_state (ud_start vb) s3 = (0, s')"
    using assms(1) by (auto simp: start_network_def split: prod.splits if_splits)
  obtain d0 d1 where d1: "eps s1 = eps s" "fresh_device d0" "same_rc d0 d1" "ibdev s1 = Some d1"
    "d_ud_qp d1 \<noteq> None \<Longrightarrow> bal s s1 \<and> d_ud_rcq d1 \<noteq> None"
    using dare_init_ib_device_run [OF 1] assms(2) by (auto simp: pristine_def)
  let ?s1 = "s1\<lparr>ibdev := Some (d1\<lparr>d_udata := True, d_ulp_type := IBV_SERVER\<rparr>)\<rparr>"
  have b1: "bal s1 ?s1" using d1(4) by (simp add: bal_def lib_refs_def dev_refs_def ud_refs_def rc_refs_def)
  have "run_state (alloc_eps vb 0 (length (eps ?s1))) ?s1 = (0, s2)"
    using 2 d1(4) by (simp add: init_ib_srv_data_def)
  from alloc_eps_run [OF this] have a: "bal ?s1 s2" "ibdev s2 = ibdev ?s1" "length (eps s2) = length (eps s)"
    "\<And>j. j < length (eps s2) \<Longrightarrow> no_qps (eps s2 ! j) \<and> de_mem (eps s2 ! j) \<noteq> None"
    using assms(2) d1(1) by (auto simp: pristine_def)
  obtain t1 t2 where r1: "run_state (rc_resources vb wr) s2 = (0, t1)" and r2: "run_state (rc_memory_reg vb sizes) t1 = (0, t2)"
    and r3: "run_state (rc_qps_create vb 0 (length (eps t2))) t2 = (0, s3)"
    using 3 by (auto simp: rc_init_def split: prod.splits if_splits)
  have n: "d_rc_pd d1 = None" "d_rc_cq_log d1 = None" "d_rc_cq_ctrl d1 = None" "d_rc_wc_array d1 = None"
    "d_log_mr d1 = None" "d_ctrl_mr d1 = None" "d_prereg_snapshot_mr d1 = None"
    using d1(2,3) by (auto simp: fresh_device_def same_rc_def)
  obtain e1 where e1: "bal s2 t1" "same_qp s2 t1" "eps t1 = eps s2" "ibdev t1 = Some e1" "d_rc_cq_ctrl e1 \<noteq> None" "d_rc_cq_log e1 \<noteq> None"
    "d_log_mr e1 = None" "d_ctrl_mr e1 = None" "d_prereg_snapshot_mr e1 = None"
    using rc_resources_run [OF r1, of "d1\<lparr>d_udata := True, d_ulp_type := IBV_SERVER\<rparr>"] a(2) n by auto
  obtain e2 where e2: "bal t1 t2" "same_qp t1 t2" "eps t2 = eps t1" "ibdev t2 = Some e2" "d_rc_cq_ctrl e2 \<noteq> None" "d_rc_cq_log e2 \<noteq> None"
    using rc_memory_reg_run [OF r2 e1(4,7-9)] e1(5,6) by auto
  have q: "bal t2 s3 \<and> same_qp t2 s3 \<and> ibdev s3 = ibdev t2 \<and> map de_mem (eps s3) = map de_mem (eps t2)"
    using a(4) e1(3) e2(3) by (intro rc_qps_create_run [OF r3]) auto
  obtain v d where st: "s' = s3\<lparr>env := v\<rparr>" "ibdev s3 = Some d" "d_ud_qp d \<noteq> None" "clean_array (d_ud_recv_mrs d)" "clean_array (d_ud_recv_bufs d)"
    using ud_start_run [OF 4] by blast
  have same: "same_qp s2 s3" using same_qp_trans [OF same_qp_trans [OF e1(2) e2(2)]] q by blast
  then have qp: "d_ud_qp d1 = d_ud_qp d" "d_ud_rcq d1 = d_ud_rcq d" "d_udata d"
    using a(2) st(2) by (auto simp: same_qp_def)
  have "bal s s1" using d1(5) qp(1) st(3) by simp
  then have "bal s s3" using b1 a(1) e1(1) e2(1) q by (blast intro: bal_trans)
  then have "mset (held s') = mset (held s) + lib_refs s'"
    using st(1) pristine_refs [OF assms(2)] by (simp add: bal_def lib_refs_def)
  moreover have "ready d" using qp st d1(5) e2(4-6) q by (auto simp: ready_def)
  moreover have "\<forall>m\<in>set (map de_mem (eps s3)). m \<noteq> None"
    using q a(4) e1(3) e2(3) by (auto simp: in_set_conv_nth)
  ultimately show ?thesis using st(1,2) by auto
qed

section \<open>Properties\<close>

text \<open>C13: when the network was set up without an error, the shutdown of the server passes everything that was got from the
  verbs library and the allocator to its destructor, each object once, and follows no null or uninitialised pointer.  (The codes that destructors return
  are not looked at; queue pairs can be moved to the error state, as the library documents.)\<close>

theorem network_resources_returned:
  assumes "pristine s" "err_ok vb" "run_state (start_network vb wr sizes) s = (0, s')"
    and "run_state (dare_ib_srv_shutdown vb) s' = (u, s'')"
  shows "mset (held s'') = mset (held s) \<and> ub s'' = ub s' \<and> ibdev s'' = None"
proof -
  obtain d where d: "mset (held s') = mset (held s) + lib_refs s'" "ibdev s' = Some d" "ready d" "\<forall>e\<in>set (eps s'). de_mem e \<noteq> None"
    using start_network_run [OF assms(3,1)] by auto
  have "ptrs d (eps s') (wc_array s') s'" using d(2) by (simp add: ptrs_def)
  moreover have "lib_refs s' = opt K_mem (wc_array s') + eps_refs (eps s') + dev_refs d" using d(2) by (simp add: lib_refs_def)
  moreover have "frees (ptrs d (eps s') (wc_array s')) (opt K_mem (wc_array s') + eps_refs (eps s') + dev_refs d)
      (dare_ib_srv_shutdown vb) (\<lambda>s. ibdev s = None)"
    using d(4) by (intro frees_srv_shutdown [OF assms(2) d(3)]) auto
  ultimately show ?thesis using d(1) assms(4) by (auto simp: frees_def)
qed

text \<open>A library in which every call succeeds: the handles are numbered, and there is one device with one active port.\<close>

definition demo_verbs :: "nat verbs" where
  "demo_verbs =
     \<lparr>vb_devices = (\<lambda>e. ((1, Some (e, [0])), Suc e)),
      vb_new = (\<lambda>c e. (Some e, Suc e)),
      vb_rc = (\<lambda>c e. (0, e)),
      vb_query_device = (\<lambda>h e. ((0, \<lparr>max_qp_wr = 100, max_cqe = 1000, max_pkeys = 1, phys_port_cnt = 1\<rparr>), e)),
      vb_query_port = (\<lambda>h i e. ((0, \<lparr>pt_active = True, pt_active_mtu = 5, pt_lid = 3\<rparr>), e)),
      vb_query_pkey = (\<lambda>h i j e. ((0, 0xFFFF), e)),
      vb_query_gid = (\<lambda>h i j e. ((0, replicate 16 7), e)),
      vb_query_qp = (\<lambda>h e. (IBV_QPS_RTS, e)),
      vb_inet_pton = (\<lambda>_. None), vb_mgid = None, vb_polls = 1\<rparr>"

definition demo_lib :: "nat lib" where
  "demo_lib = \<lparr>env = 1, held = [], ub = False, ibdev = None, wc_array = None,
     eps = [\<lparr>de_mem = None, de_ah = None, de_ctrl_qp = None, de_log_qp = None\<rparr>]\<rparr>"

lemma demo_verbs_simps [simp]:
  "vb_devices demo_verbs e = ((1, Some (e, [0])), Suc e)" "vb_new demo_verbs c e = (Some e, Suc e)" "vb_rc demo_verbs r e = (0, e)"
  "vb_query_device demo_verbs h e = ((0, \<lparr>max_qp_wr = 100, max_cqe = 1000, max_pkeys = 1, phys_port_cnt = 1\<rparr>), e)"
  "vb_query_port demo_verbs h i e = ((0, \<lparr>pt_active = True, pt_active_mtu = 5, pt_lid = 3\<rparr>), e)"
  "vb_query_pkey demo_verbs h i j e = ((0, 0xFFFF), e)" "vb_query_gid demo_verbs h i k e = ((0, replicate 16 7), e)"
  "vb_query_qp demo_verbs h e = (IBV_QPS_RTS, e)" "vb_mgid demo_verbs = None"
  by (simp_all add: demo_verbs_def)

lemma demo_max_inline [simp]:
  "run_state (find_max_inline demo_verbs ctx pd) s = ((0, push_bit 20 1), s\<lparr>env := env s + 2\<rparr>)"
  by (simp add: find_max_inline_def inline_loop.simps [of _ _ _ "push_bit 20 1"])

definition full :: "slot list \<Rightarrow> bool" where
  "full cs \<longleftrightarrow> (\<forall>c\<in>set cs. \<exists>h. c = Slot (Some h))"

lemma full_simps [simp]: "full []" "full (c # cs) \<longleftrightarrow> (\<exists>h. c = Slot (Some h)) \<and> full cs"
  by (simp_all add: full_def)

lemma recv_wrs_full: "length bs = length ms \<Longrightarrow> full bs \<Longrightarrow> full ms \<Longrightarrow> \<exists>wrs. recv_wrs i bs ms = Some wrs"
  by (induction bs ms arbitrary: i rule: list_induct2) auto

lemma demo_recv_bufs:
  "ibdev s = Some d \<Longrightarrow> d_ud_recv_bufs d = Some (hb, us @ replicate n Garbage) \<Longrightarrow> d_ud_recv_mrs d = Some (hm, vs @ replicate n Garbage) \<Longrightarrow>
     length us = i \<Longrightarrow> length vs = i \<Longrightarrow>
     \<exists>e h bs ms. run_state (reg_recv_bufs demo_verbs pd len i n) s =
       (0, s\<lparr>env := e, held := h, ibdev := Some (d\<lparr>d_ud_recv_bufs := Some (hb, us @ bs), d_ud_recv_mrs := Some (hm, vs @ ms)\<rparr>)\<rparr>) \<and>
       length bs = n \<and> length ms = n \<and> full bs \<and> full ms"
proof (induction n arbitrary: i s d us vs)
  case 0
  then show ?case by (auto intro!: exI [of _ "env s"] exI [of _ "held s"])
next
  case (Suc n)
  let ?d = "d\<lparr>d_ud_recv_bufs := Some (hb, (us @ [Slot (Some (env s))]) @ replicate n Garbage),
     d_ud_recv_mrs := Some (hm, (vs @ [Slot (Some (Suc (env s)))]) @ replicate n Garbage)\<rparr>"
  let ?s = "s\<lparr>env := Suc (Suc (env s)), held := (K_mr, Suc (env s)) # (K_mem, env s) # held s, ibdev := Some ?d\<rparr>"
  have run: "run_state (reg_recv_bufs demo_verbs pd len i (Suc n)) s = run_state (reg_recv_bufs demo_verbs pd len (Suc i) n) ?s"
    using Suc.prems by (simp add: put_slot_def update_append)
  obtain e h bs ms where r: "run_state (reg_recv_bufs demo_verbs pd len (Suc i) n) ?s =
       (0, ?s\<lparr>env := e, held := h, ibdev := Some (?d\<lparr>d_ud_recv_bufs := Some (hb, (us @ [Slot (Some (env s))]) @ bs),
          d_ud_recv_mrs := Some (hm, (vs @ [Slot (Some (Suc (env s)))]) @ ms)\<rparr>)\<rparr>)" "length bs = n" "length ms = n" "full bs" "full ms"
    using Suc.IH [of ?s ?d "us @ [Slot (Some (env s))]" "vs @ [Slot (Some (Suc (env s)))]" "Suc i"] Suc.prems(4,5) by auto
  show ?case
    unfolding run by (rule exI [of _ e], rule exI [of _ h], rule exI [of _ "Slot (Some (env s)) # bs"],
        rule exI [of _ "Slot (Some (Suc (env s))) # ms"]) (use r in simp)
qed

text \<open>The device after the set-up of the datagrams.\<close>

definition ud_up :: "nat \<Rightarrow> ib_device \<Rightarrow> bool" where
  "ud_up n d \<longleftrightarrow> (\<exists>qp hb hm bs ms. d_ud_qp d = Some qp \<and> d_ud_recv_bufs d = Some (hb, bs) \<and>
     d_ud_recv_mrs d = Some (hm, ms) \<and> length bs = length ms \<and> full bs \<and> full ms \<and> d_ud_rcqe d = n)"

lemma demo_memory_reg:
  assumes "ibdev s = Some d" "d_ud_pd d = Some pd"
  shows "\<exists>s' d' hb hm bs ms. run_state (ud_memory_reg demo_verbs) s = (0, s') \<and> eps s' = eps s \<and>
     ibdev s' = Some d' \<and> d_ud_recv_bufs d' = Some (hb, bs) \<and> d_ud_recv_mrs d' = Some (hm, ms) \<and> length bs = length ms \<and> full bs \<and> full ms \<and>
     d_ud_pd d' = d_ud_pd d \<and> d_ud_scq d' = d_ud_scq d \<and> d_ud_rcq d' = d_ud_rcq d \<and> d_ud_rcqe d' = d_ud_rcqe d"
proof -
  let ?n = "d_ud_rcqe d"
  let ?d = "d\<lparr>d_ud_recv_bufs := Some (env s, replicate ?n Garbage), d_ud_recv_mrs := Some (Suc (env s), replicate ?n Garbage)\<rparr>"
  let ?s = "s\<lparr>env := Suc (Suc (env s)), held := (K_mem, Suc (env s)) # (K_mem, env s) # held s, ibdev := Some ?d\<rparr>"
  obtain e h bs ms where "run_state (reg_recv_bufs demo_verbs pd (mtu_value (d_mtu d)) 0 ?n) ?s =
       (0, ?s\<lparr>env := e, held := h, ibdev := Some (?d\<lparr>d_ud_recv_bufs := Some (env s, [] @ bs),
          d_ud_recv_mrs := Some (Suc (env s), [] @ ms)\<rparr>)\<rparr>)" "length bs = ?n" "length ms = ?n" "full bs" "full ms"
    using demo_recv_bufs [of ?s ?d "env s" "[]" ?n "Suc (env s)" "[]" 0 pd "mtu_value (d_mtu d)"] by auto
  then show ?thesis using assms by (simp add: ud_memory_reg_def garbage_array_def)
qed

lemma demo_ud_init:
  assumes "ibdev s = Some d"
  shows "\<exists>s' d'. run_state (ud_init demo_verbs n) s = (0, s') \<and> eps s' = eps s \<and> ibdev s' = Some d' \<and> ud_up n d'"
proof -
  obtain s1 d1 pd scq rcq where 1: "run_state (ud_prerequisite demo_verbs n) s = (0, s1)" "eps s1 = eps s" "ibdev s1 = Some d1"
    "d_ud_pd d1 = Some pd" "d_ud_scq d1 = Some scq" "d_ud_rcq d1 = Some rcq" "d_ud_rcqe d1 = n"
    using assms by (simp add: ud_prerequisite_def)
  obtain s2 d2 hb hm bs ms where 2: "run_state (ud_memory_reg demo_verbs) s1 = (0, s2)" "eps s2 = eps s" "ibdev s2 = Some d2"
    "d_ud_recv_bufs d2 = Some (hb, bs)" "d_ud_recv_mrs d2 = Some (hm, ms)" "length bs = length ms" "full bs" "full ms"
    "d_ud_pd d2 = Some pd" "d_ud_scq d2 = Some scq" "d_ud_rcq d2 = Some rcq" "d_ud_rcqe d2 = n"
    using demo_memory_reg [OF 1(3,4)] 1 by auto
  then show ?thesis
    using 1(1) by (simp add: ud_init_def ud_qp_create_def mcast_raw_def mcast_ah_create_def ud_up_def)
qed

lemma demo_init_one_device: "\<exists>s' d. run_state (init_one_device demo_verbs x) s = (Some d, s') \<and> eps s' = eps s"
  by (simp add: init_one_device_def test_qp_support_rc_def test_out_def release_opt_def zero_device_def ntohs_def)

text \<open>The set-up with one device that can be opened.\<close>

lemma one_device_run:
  assumes "vb_devices vb (env s) = ((1, Some (h, [x])), e)"
    and "run_state (init_one_device vb x) (s\<lparr>env := e, held := (K_list, h) # held s\<rparr>) = (Some d, s1)"
  shows "run_state (dare_init_ib_device vb n) s
    = (0, snd (run_state (ud_init vb n) (snd (run_state (release vb K_list h) (s1\<lparr>ibdev := Some d\<rparr>)))))"
proof -
  obtain rc e1 where fr: "vb_rc vb (Free K_list h) (env s1) = (rc, e1)" by (cases "vb_rc vb (Free K_list h) (env s1)")
  obtain r2 s2 where 2: "run_state (ud_init vb n) (snd (run_state (release vb K_list h) (s1\<lparr>ibdev := Some d\<rparr>))) = (r2, s2)"
    by (cases "run_state (ud_init vb n) (snd (run_state (release vb K_list h) (s1\<lparr>ibdev := Some d\<rparr>)))")
  show ?thesis
    using assms fr 2 by (simp add: dare_init_ib_device_def split: if_splits)
qed

lemma demo_start: "fst (run_state (start_network demo_verbs 8 (100, 200, 300)) demo_lib) = 0"
proof -
  let ?s0 = "demo_lib\<lparr>env := Suc (env demo_lib), held := (K_list, env demo_lib) # held demo_lib\<rparr>"
  obtain s1 d1 where 1: "run_state (init_one_device demo_verbs 0) ?s0 = (Some d1, s1)"
    "eps s1 = eps demo_lib" using demo_init_one_device [of 0 ?s0] by auto
  let ?s = "snd (run_state (release demo_verbs K_list (env demo_lib)) (s1\<lparr>ibdev := Some d1\<rparr>))"
  obtain s2 d2 where 2: "run_state (ud_init demo_verbs 64) ?s = (0, s2)" "eps s2 = eps ?s" "ibdev s2 = Some d2" "ud_up 64 d2"
  proof -
    have "ibdev ?s = Some d1" by simp
    then show ?thesis using demo_ud_init that by blast
  qed
  have dev: "run_state (dare_init_ib_device demo_verbs 64) demo_lib = (0, s2)"
    using one_device_run [OF _ 1(1)] 2(1) by simp
  obtain qp hb hm bs ms where u: "d_ud_qp d2 = Some qp" "d_ud_recv_bufs d2 = Some (hb, bs)" "d_ud_recv_mrs d2 = Some (hm, ms)"
    "length bs = length ms" "full bs" "full ms" "d_ud_rcqe d2 = 64" using 2(4) by (auto simp: ud_up_def)
  obtain wrs where wrs: "recv_wrs 0 bs ms = Some wrs" using recv_wrs_full u by blast
  have e: "eps s2 = [\<lparr>de_mem = None, de_ah = None, de_ctrl_qp = None, de_log_qp = None\<rparr>]"
    using 1(2) 2(2) by (simp add: demo_lib_def)
  show ?thesis
    using dev 2(3) u(1-3,7) wrs e
    by (simp add: start_network_def MAX_CLIENT_COUNT_def init_ib_srv_data_def rc_init_def rc_resources_def Let_def rc_memory_reg_def
        rc_qp_create_def new_qp_def ud_start_def ud_post_receives_def)
qed

lemma network_resources_returned_witness:
  "let s' = snd (run_state (start_network demo_verbs 8 (100, 200, 300)) demo_lib);
       s'' = snd (run_state (dare_ib_srv_shutdown demo_verbs) s')
   in mset (held s'') = {#} \<and> ub s'' = ub s' \<and> ibdev s'' = None"
proof -
  let ?r = "run_state (start_network demo_verbs 8 (100, 200, 300)) demo_lib"
  have p: "pristine demo_lib" and e: "err_ok demo_verbs" by (simp_all add: pristine_def demo_lib_def err_ok_def)
  have r: "?r = (0, snd ?r)" using demo_start by (metis prod.collapse)
  have d: "run_state (dare_ib_srv_shutdown demo_verbs) (snd ?r)
      = ((), snd (run_state (dare_ib_srv_shutdown demo_verbs) (snd ?r)))" by (cases "run_state (dare_ib_srv_shutdown demo_verbs) (snd ?r)") simp
  have "mset (held demo_lib) = {#}" by (simp add: demo_lib_def)
  then show ?thesis using network_resources_returned [OF p e r d] by (simp add: Let_def)
qed

lemma ud_init_no_multicast:
  assumes "\<And>qp g l e. fst (vb_rc vb (Attach_mcast qp g l) e) \<noteq> 0"
    and "run_state (ud_init vb n) s = (r, s')" "ibdev s = Some d" "fresh_device d"
  shows "\<exists>d'. ibdev s' = Some d' \<and> d_ud_qp d' = None"
proof -
  obtain r1 s1 where 1: "run_state (ud_prerequisite vb n) s = (r1, s1)" by (cases "run_state (ud_prerequisite vb n) s")
  obtain r2 s2 where 2: "run_state (ud_memory_reg vb) s1 = (r2, s2)" by (cases "run_state (ud_memory_reg vb) s1")
  obtain r3 s3 where 3: "run_state (ud_qp_create vb) s2 = (r3, s3)" by (cases "run_state (ud_qp_create vb) s2")
  obtain d1 where d1: "ibdev s1 = Some d1" "d_ud_qp d1 = None" "d_ud_recv_bufs d1 = None" "d_ud_recv_mrs d1 = None"
    "d_ud_send_buf d1 = None" "d_ud_send_mr d1 = None" using ud_prerequisite_run [OF 1 assms(3,4)] by auto
  obtain d2 where d2: "ibdev s2 = Some d2" "d_ud_qp d2 = None"
    using ud_memory_reg_run [OF 2 d1(1,3-6)] d1(2) by auto
  have "rc \<noteq> 0" if "vb_rc vb (Attach_mcast qp g l) e = (rc, e')" for qp g l e rc e'
    using assms(1) [of qp g l e] that by simp
  then have "r3 \<noteq> 0 \<and> (\<exists>d3. ibdev s3 = Some d3 \<and> d_ud_qp d3 = None)"
    using 3 d2 by (auto simp: ud_qp_create_def split: prod.splits option.splits if_splits)
  then show ?thesis using assms(2) 1 2 3 d1 d2 by (auto simp: ud_init_def split: if_splits)
qed

text \<open>C40: \<^verbatim>\<open>dare_init_ib_device\<close> does not look at what \<^verbatim>\<open>ud_init\<close> returns.  When the queue pair for datagrams cannot join the multicast group, it
  reports success, though the device has no such queue pair (and the one that was created is lost); starting the datagrams then follows a null pointer.\<close>

theorem failed_multicast_is_ignored:
  assumes "pristine s" "\<And>qp g l e. fst (vb_rc vb (Attach_mcast qp g l) e) \<noteq> 0"
    and "run_state (dare_init_ib_device vb n) s = (rc, s')" "ibdev s' = Some d"
  shows "rc = 0 \<and> d_ud_qp d = None \<and> ub (snd (run_state (ud_start vb) s'))"
proof -
  obtain k h ids e where dv: "vb_devices vb (env s) = ((k, Some (h, ids)), e)" "k \<noteq> 0"
    using assms(1,3,4) by (auto simp: dare_init_ib_device_def pristine_def split: prod.splits if_splits option.splits)
  let ?s0 = "s\<lparr>env := e, held := (K_list, h) # held s\<rparr>"
  obtain u s1 where 1: "run_state (try_devices vb (take k ids)) ?s0 = (u, s1)" by (cases "run_state (try_devices vb (take k ids)) ?s0")
  obtain r1 e1 where fr: "vb_rc vb (Free K_list h) (env s1) = (r1, e1)" by (cases "vb_rc vb (Free K_list h) (env s1)")
  define s2 where "s2 = snd (run_state (release vb K_list h) s1)"
  have rel: "ibdev s2 = ibdev s1" "run_state (release vb K_list h) s1 = (r1, s2)" using fr by (simp_all add: s2_def)
  obtain r3 s3 where 3: "run_state (ud_init vb n) s2 = (r3, s3)" by (cases "run_state (ud_init vb n) s2")
  have rest: "(rc, s') = (if ibdev s2 = None then (1, s2) else (0, s3))"
    using assms(3) dv 1 rel(2) 3 by (cases "ibdev s2") (simp_all add: dare_init_ib_device_def del: run_release)
  then obtain d1 where d1: "ibdev s2 = Some d1" using assms(4) by (cases "ibdev s2") auto
  have fresh: "fresh_device d1"
    using try_devices_run [OF 1] d1 rel(1) assms(1) by (simp add: pristine_def)
  have rc: "rc = 0" and 2: "run_state (ud_init vb n) s2 = (r3, s')" using rest d1 3 by simp_all
  have "d_ud_qp d = None" using ud_init_no_multicast [OF assms(2) 2 d1 fresh] assms(4) by auto
  then show ?thesis
    using rc assms(4) by (auto simp: ud_start_def ud_post_receives_def split: option.split prod.split)
qed

text \<open>The library of the demonstration, in which no queue pair can join a multicast group.\<close>

definition deaf_verbs :: "nat verbs" where
  "deaf_verbs = demo_verbs\<lparr>vb_rc := \<lambda>c e. (case c of Attach_mcast _ _ _ \<Rightarrow> 1 | _ \<Rightarrow> 0, e)\<rparr>"

lemma deaf_verbs_simps [simp]:
  "vb_devices deaf_verbs e = ((1, Some (e, [0])), Suc e)" "vb_new deaf_verbs c e = (Some e, Suc e)"
  "vb_query_device deaf_verbs h e = ((0, \<lparr>max_qp_wr = 100, max_cqe = 1000, max_pkeys = 1, phys_port_cnt = 1\<rparr>), e)"
  "vb_query_port deaf_verbs h i e = ((0, \<lparr>pt_active = True, pt_active_mtu = 5, pt_lid = 3\<rparr>), e)"
  "vb_query_pkey deaf_verbs h i j e = ((0, 0xFFFF), e)" "vb_query_gid deaf_verbs h i k e = ((0, replicate 16 7), e)"
  "vb_rc deaf_verbs r e = (case r of Attach_mcast _ _ _ \<Rightarrow> 1 | _ \<Rightarrow> 0, e)"
  by (simp_all add: deaf_verbs_def)

lemma deaf_max_inline [simp]:
  "run_state (find_max_inline deaf_verbs ctx pd) s = ((0, push_bit 20 1), s\<lparr>env := env s + 2\<rparr>)"
  by (simp add: find_max_inline_def inline_loop.simps [of _ _ _ "push_bit 20 1"])

lemma deaf_init_one_device: "\<exists>s' d. run_state (init_one_device deaf_verbs x) s = (Some d, s') \<and> fresh_device d"
  by (simp add: init_one_device_def test_qp_support_rc_def test_out_def release_opt_def zero_device_def ntohs_def fresh_device_def)

lemma failed_multicast_is_ignored_witness:
  "let s' = snd (run_state (dare_init_ib_device deaf_verbs 64) demo_lib)
   in \<exists>d. ibdev s' = Some d \<and> d_ud_qp d = None \<and> ub (snd (run_state (ud_start deaf_verbs) s'))"
proof -
  let ?s0 = "demo_lib\<lparr>env := Suc (env demo_lib), held := (K_list, env demo_lib) # held demo_lib\<rparr>"
  have deaf: "\<And>qp g l e. fst (vb_rc deaf_verbs (Attach_mcast qp g l) e) \<noteq> 0" by simp
  obtain s1 d1 where 1: "run_state (init_one_device deaf_verbs 0) ?s0 = (Some d1, s1)" "fresh_device d1"
    using deaf_init_one_device by blast
  let ?s = "snd (run_state (release deaf_verbs K_list (env demo_lib)) (s1\<lparr>ibdev := Some d1\<rparr>))"
  let ?s' = "snd (run_state (ud_init deaf_verbs 64) ?s)"
  have run: "run_state (dare_init_ib_device deaf_verbs 64) demo_lib = (0, ?s')"
    by (rule one_device_run [OF _ 1(1)]) simp
  have "ibdev ?s = Some d1" by simp
  then obtain d where d: "ibdev ?s' = Some d"
    using ud_init_no_multicast [OF deaf surjective_pairing _ 1(2)] by blast
  have "pristine demo_lib" by (simp add: pristine_def demo_lib_def)
  then show ?thesis using failed_multicast_is_ignored [OF _ deaf run d] d run by (simp add: Let_def)
qed

end
