(* ===== verification/Dare_Hooks.thy ===== *)
theory Dare_Hooks
  imports Dare_Proxy
begin

text \<open>
  The functions of \<^verbatim>\<open>spec_hooks.cpp\<close>, which are loaded before the C library and stand for its
  \<^verbatim>\<open>accept\<close>, \<^verbatim>\<open>accept4\<close>, \<^verbatim>\<open>read\<close>, \<^verbatim>\<open>close\<close> and \<^verbatim>\<open>__libc_start_main\<close>.  Each calls the function of the library
  and tells the proxy when the call succeeded on a socket.

  The library is the record \<open>'l libc\<close> of functions on an unknown state \<open>'l\<close>.  A caller may have to spin in the proxy until
  its request is applied; \<open>hc_served\<close> is what the thread of the server does to the
  proxy in that time.  \<open>None\<close> is a call that does not return: the caller
  spins for ever, or the proxy follows a NULL pointer.
\<close>

section \<open>The library and the process\<close>

text \<open>
  \<open>lc_read\<close> yields the number of bytes and the buffer.  \<open>lc_fstat\<close> is the mode that is in the structure after
  \<^verbatim>\<open>fstat\<close>; the return code is not looked at, so for a descriptor that is not open this is what was on the stack.
\<close>

record 'l libc =
  lc_accept :: "int \<Rightarrow> 'l \<Rightarrow> int \<times> 'l"
  lc_accept4 :: "int \<Rightarrow> int \<Rightarrow> 'l \<Rightarrow> int \<times> 'l"
  lc_close :: "int \<Rightarrow> 'l \<Rightarrow> int \<times> 'l"
  lc_read :: "int \<Rightarrow> nat \<Rightarrow> 'l \<Rightarrow> (int \<times> u8 list) \<times> 'l"
  lc_fstat :: "int \<Rightarrow> 'l \<Rightarrow> u32"

text \<open>The global \<^verbatim>\<open>proxy\<close>, which is NULL before the start, and the state of the library.\<close>

record ('o, 'l) process =
  px :: "'o proxy_node option"
  lb :: 'l

text \<open>The thread that calls, and the answers of the server.\<close>

record 'o caller =
  hc_tid :: nat
  hc_leader :: bool
  hc_node_id :: u8
  hc_served :: "'o proxy_node \<Rightarrow> 'o proxy_node"

definition S_IFMT :: u32 where "S_IFMT = 0xF000"
definition S_IFSOCK :: u32 where "S_IFSOCK = 0xC000"

definition is_socket :: "'l libc \<Rightarrow> int \<Rightarrow> 'l \<Rightarrow> bool" where
  "is_socket lc fd l \<longleftrightarrow> lc_fstat lc fd l AND S_IFMT = S_IFSOCK"

text \<open>The end of \<^verbatim>\<open>leader_handle_submit_req\<close>: \<^verbatim>\<open>while (cur_rec > proxy->highest_rec);\<close>\<close>

definition spin :: "'o caller \<Rightarrow> u64 option \<times> 'o proxy_node \<Rightarrow> 'o proxy_node option" where
  "spin cl r = (case r of
     (None, p) \<Rightarrow> Some p
   | (Some rec, p) \<Rightarrow> if waits rec (hc_served cl p) then None else Some (hc_served cl p))"

text \<open>\<^verbatim>\<open>if (proxy != NULL) { fstat(fd, &sb); if ((sb.st_mode & S_IFMT) == S_IFSOCK) on(proxy, ...); }\<close>\<close>

definition tell_proxy ::
  "'l libc \<Rightarrow> 'o caller \<Rightarrow> int \<Rightarrow> (nat \<Rightarrow> bool \<Rightarrow> u8 \<Rightarrow> 'o proxy_node \<Rightarrow> (u64 option \<times> 'o proxy_node) option) \<Rightarrow>
   ('o, 'l) process \<Rightarrow> ('o, 'l) process option" where
  "tell_proxy lc cl fd on s = (case px s of
     None \<Rightarrow> Some s
   | Some p \<Rightarrow> if \<not> is_socket lc fd (lb s) then Some s
       else do {
         r \<leftarrow> on (hc_tid cl) (hc_leader cl) (hc_node_id cl) p;
         p' \<leftarrow> spin cl r;
         Some (s\<lparr>px := Some p'\<rparr>)
       })"

section \<open>The hooks\<close>

definition hook_accept :: "'l libc \<Rightarrow> 'o caller \<Rightarrow> int \<Rightarrow> ('o, 'l) process \<Rightarrow> (int \<times> ('o, 'l) process) option" where
  "hook_accept lc cl fd s = do {
     let (ret, l) = lc_accept lc fd (lb s);
     let s1 = s\<lparr>lb := l\<rparr>;
     s2 \<leftarrow> (if ret \<ge> 0 then tell_proxy lc cl ret (proxy_on_accept (word_of_int ret)) s1 else Some s1);
     Some (ret, s2)
   }"

definition hook_accept4 :: "'l libc \<Rightarrow> 'o caller \<Rightarrow> int \<Rightarrow> int \<Rightarrow> ('o, 'l) process \<Rightarrow> (int \<times> ('o, 'l) process) option" where
  "hook_accept4 lc cl fd flags s = do {
     let (ret, l) = lc_accept4 lc fd flags (lb s);
     let s1 = s\<lparr>lb := l\<rparr>;
     s2 \<leftarrow> (if ret \<ge> 0 then tell_proxy lc cl ret (proxy_on_accept (word_of_int ret)) s1 else Some s1);
     Some (ret, s2)
   }"

text \<open>The proxy is told before the descriptor is closed, whatever the library will return.\<close>

definition hook_close :: "'l libc \<Rightarrow> 'o caller \<Rightarrow> int \<Rightarrow> ('o, 'l) process \<Rightarrow> (int \<times> ('o, 'l) process) option" where
  "hook_close lc cl fd s = do {
     s1 \<leftarrow> tell_proxy lc cl fd (proxy_on_close (word_of_int fd)) s;
     let (ret, l) = lc_close lc fd (lb s1);
     Some (ret, s1\<lparr>lb := l\<rparr>)
   }"

definition hook_read :: "'l libc \<Rightarrow> 'o caller \<Rightarrow> int \<Rightarrow> nat \<Rightarrow> ('o, 'l) process \<Rightarrow> ((int \<times> u8 list) \<times> ('o, 'l) process) option" where
  "hook_read lc cl fd n s = do {
     let ((bytes_read, buf), l) = lc_read lc fd n (lb s);
     let s1 = s\<lparr>lb := l\<rparr>;
     s2 \<leftarrow> (if bytes_read > 0
            then tell_proxy lc cl fd (proxy_on_read (take (nat bytes_read) buf) (word_of_int fd)) s1 else Some s1);
     Some ((bytes_read, buf), s2)
   }"

section \<open>Start of the application\<close>

text \<open>
  The constructor of the application runs first, then the proxy is started with the configuration
  that the variable \<^verbatim>\<open>config_path\<close> names.
\<close>

definition tern_init_func ::
  "(('o, 'l) process \<Rightarrow> ('o, 'l) process) option \<Rightarrow> proxy_file option \<Rightarrow> bool \<Rightarrow> server_input option \<Rightarrow> nat option \<Rightarrow> 'o \<Rightarrow>
   ('o, 'l) process \<Rightarrow> ('o, 'l) process option" where
  "tern_init_func saved_init_func file db_ok input thread o0 s = do {
     let s1 = (case saved_init_func of None \<Rightarrow> s | Some f \<Rightarrow> f s);
     p \<leftarrow> proxy_init file db_ok input thread o0;
     Some (s1\<lparr>px := p\<rparr>)
   }"

text \<open>\<^verbatim>\<open>my_main\<close> gets the arguments of the application through the pointer it is passed as \<^verbatim>\<open>argv\<close>.\<close>

definition my_main :: "('a \<Rightarrow> 's \<Rightarrow> (int \<times> 's) option) \<Rightarrow> 'a \<Rightarrow> 's \<Rightarrow> (int \<times> 's) option" where
  "my_main main_func argv s = main_func argv s"

text \<open>
  \<open>opened\<close> and \<open>found\<close> say whether the C library could be opened and has the function; otherwise the process aborts.
  \<open>orig_func\<close> is the function of the library, which calls the initialisation and then the program.
\<close>

definition libc_start_main ::
  "bool \<Rightarrow> bool \<Rightarrow>
   ((('o, 'l) process \<Rightarrow> (int \<times> ('o, 'l) process) option) \<Rightarrow> (('o, 'l) process \<Rightarrow> ('o, 'l) process option) \<Rightarrow>
      ('o, 'l) process \<Rightarrow> (int \<times> ('o, 'l) process) option) \<Rightarrow>
   ('a \<Rightarrow> ('o, 'l) process \<Rightarrow> (int \<times> ('o, 'l) process) option) \<Rightarrow> 'a \<Rightarrow> (('o, 'l) process \<Rightarrow> ('o, 'l) process) option \<Rightarrow>
   proxy_file option \<Rightarrow> bool \<Rightarrow> server_input option \<Rightarrow> nat option \<Rightarrow> 'o \<Rightarrow> ('o, 'l) process \<Rightarrow> (int \<times> ('o, 'l) process) option" where
  "libc_start_main opened found orig_func main_func argv init_func file db_ok input thread o0 s =
     (if \<not> opened then None
      else if \<not> found then None
      else orig_func (my_main main_func argv) (tern_init_func init_func file db_ok input thread o0) s)"

section \<open>Calls of the application\<close>

datatype app_call = Accept int | Accept4 int int | Close int | Read int nat

text \<open>The call without the hooks, and with them.  The result is the value returned and, for \<^verbatim>\<open>read\<close>, the buffer.\<close>

fun plain_call :: "'l libc \<Rightarrow> app_call \<Rightarrow> 'l \<Rightarrow> (int \<times> u8 list) \<times> 'l" where
  "plain_call lc (Accept fd) l = (case lc_accept lc fd l of (r, l') \<Rightarrow> ((r, []), l'))"
| "plain_call lc (Accept4 fd fl) l = (case lc_accept4 lc fd fl l of (r, l') \<Rightarrow> ((r, []), l'))"
| "plain_call lc (Close fd) l = (case lc_close lc fd l of (r, l') \<Rightarrow> ((r, []), l'))"
| "plain_call lc (Read fd n) l = lc_read lc fd n l"

fun hooked_call :: "'l libc \<Rightarrow> 'o caller \<Rightarrow> app_call \<Rightarrow> ('o, 'l) process \<Rightarrow> ((int \<times> u8 list) \<times> ('o, 'l) process) option" where
  "hooked_call lc cl (Accept fd) s = map_option (\<lambda>(r, s'). ((r, []), s')) (hook_accept lc cl fd s)"
| "hooked_call lc cl (Accept4 fd fl) s = map_option (\<lambda>(r, s'). ((r, []), s')) (hook_accept4 lc cl fd fl s)"
| "hooked_call lc cl (Close fd) s = map_option (\<lambda>(r, s'). ((r, []), s')) (hook_close lc cl fd s)"
| "hooked_call lc cl (Read fd n) s = hook_read lc cl fd n s"

text \<open>A sequence of calls, each by some thread.\<close>

fun plain_run :: "'l libc \<Rightarrow> app_call list \<Rightarrow> 'l \<Rightarrow> (int \<times> u8 list) list \<times> 'l" where
  "plain_run lc [] l = ([], l)"
| "plain_run lc (c # cs) l = (let (r, l1) = plain_call lc c l; (rs, l2) = plain_run lc cs l1 in (r # rs, l2))"

fun hooked_run ::
  "'l libc \<Rightarrow> ('o caller \<times> app_call) list \<Rightarrow> ('o, 'l) process \<Rightarrow> ((int \<times> u8 list) list \<times> ('o, 'l) process) option" where
  "hooked_run lc [] s = Some ([], s)"
| "hooked_run lc ((cl, c) # cs) s = do {
     (r, s1) \<leftarrow> hooked_call lc cl c s;
     (rs, s2) \<leftarrow> hooked_run lc cs s1;
     Some (r # rs, s2)
   }"

end
