(* ===== verification/Spec2Isabelle.thy ===== *)
theory Spec2Isabelle
  imports Dare_Repl_Props Dare_Election_Props Dare_Vote_Props Dare_Server_Props
    Dare_Kvs_Props Dare_Proxy_Props Dare_Ep_Erase Dare_Queue_Props Dare_Ibv_Life Dare_Hooks_Props
begin

text \<open>
  A verification of APUS, a replication service for unmodified server programs.  A proxy that is
  preloaded into a server program intercepts its socket calls and hands every input to DARE, a
  consensus protocol over RDMA.  The leader appends the inputs to a log, writes the log directly into the
  memory of the other servers and releases the program when an input is stored by a majority; the
  other servers replay committed inputs on their copy of the program.

  \<^bold>\<open>The parts of the program and where they are modelled\<close>

  \<^item> \<^verbatim>\<open>include/dare/dare_server.h\<close>, SIDs: term, leader flag and index packed into 64 bits.  Theory
    \<^verbatim>\<open>Dare_Sid\<close>, on words of 64 bits; its lemmas give the fields after every setter and the order of SIDs.
  \<^item> \<^verbatim>\<open>include/dare/dare_config.h\<close>: configuration identifiers and group sizes.  Theory \<^verbatim>\<open>Dare_Config\<close>.
  \<^item> \<^verbatim>\<open>include/dare/dare_log.h\<close>: the log, a circular buffer of entries of variable length.  Theory
    \<^verbatim>\<open>Dare_Log\<close> models every function of the header on a memory of bytes with the offsets of the C
    structures.  \<^verbatim>\<open>Dare_Log_Walk\<close> relates the walks over the buffer to chains of entries, \<^verbatim>\<open>Dare_Log_Append\<close> proves that
    appending extends the chain, \<^verbatim>\<open>Dare_Log_Adjust\<close> that the offset from which a follower's log has to be rewritten is
    found, and \<^verbatim>\<open>Dare_Log_Props\<close> holds the properties.
  \<^item> \<^verbatim>\<open>dare_server.c\<close>, \<^verbatim>\<open>dare_ibv.h\<close>: the state of a server.  Theory \<^verbatim>\<open>Dare_State\<close>: the record \<open>srv\<close> has
    the globals of the server, its memory that other servers access (\<open>ctrl\<close>, \<open>slog\<close>), the timers, and the list
    \<open>sent\<close> of posted work requests.  The record \<open>ibv\<close> has what is outside the program.
  \<^item> \<^verbatim>\<open>dare_ibv_rc.c\<close>: posting work requests, handling completions, waiting for a majority, and the queue
    pair states that open and close the log to a leader.  Theories \<^verbatim>\<open>Dare_Rc\<close> and \<^verbatim>\<open>Dare_Rc_Props\<close>.
  \<^item> \<^verbatim>\<open>dare_ibv_rc.c\<close>: the messages of the protocol, log adjustment, log replication and commitment.
    Theories \<^verbatim>\<open>Dare_Repl\<close> and \<^verbatim>\<open>Dare_Repl_Props\<close>.
  \<^item> \<^verbatim>\<open>dare_server.c\<close>: heartbeats, elections and votes.  Theories \<^verbatim>\<open>Dare_Election\<close>, \<^verbatim>\<open>Dare_Election_Props\<close> and \<^verbatim>\<open>Dare_Vote_Props\<close>.
  \<^item> \<^verbatim>\<open>dare_ibv_ud.c\<close>: datagrams, joining the group, establishing the connections.  Theory \<^verbatim>\<open>Dare_Ud\<close>; the
    endpoints of joining servers are kept in the red-black tree of \<^verbatim>\<open>dare_ep_db.c\<close> and \<^verbatim>\<open>rbtree.c\<close>, theories
    \<^verbatim>\<open>Dare_Ep_Db\<close> (search, insertion) and \<^verbatim>\<open>Dare_Ep_Erase\<close> (removal, the walks over the nodes).
  \<^item> \<^verbatim>\<open>dare_server.c\<close>: committing, persisting, applying, pruning, reconfiguration.  Theories \<^verbatim>\<open>Dare_Normal\<close>,
    \<^verbatim>\<open>Dare_Normal_Props\<close> and \<^verbatim>\<open>Dare_Reconf_Props\<close>.
  \<^item> \<^verbatim>\<open>dare_server.c\<close>, \<^verbatim>\<open>dare_ibv_rc.c\<close>: snapshots and the recovery of a server that joins.  Theory \<^verbatim>\<open>Dare_Recovery\<close>.
  \<^item> \<^verbatim>\<open>dare_server.c\<close>, \<^verbatim>\<open>config-dare.c\<close>, \<^verbatim>\<open>dare_ibv.c\<close>: start-up, the polling loop and the timers.  Theory
    \<^verbatim>\<open>Dare_Server\<close>; \<^verbatim>\<open>Dare_Run_Props\<close> makes the whole server a step relation \<open>srv_step\<close>, and \<^verbatim>\<open>Dare_Server_Props\<close> is about its start.
  \<^item> \<^verbatim>\<open>dare_kvs_sm.c\<close>: the key-value store, a chained hash table.  Theories \<^verbatim>\<open>Dare_Kvs\<close> and \<^verbatim>\<open>Dare_Kvs_Props\<close>.
  \<^item> \<^verbatim>\<open>utils/uthash/uthash.h\<close>: the hash table macros the proxy uses.  Theory \<^verbatim>\<open>Dare_Uthash\<close>.
  \<^item> \<^verbatim>\<open>proxy.c\<close>, \<^verbatim>\<open>db-interface.c\<close>, \<^verbatim>\<open>config-proxy.c\<close>, \<^verbatim>\<open>message.h\<close>: the proxy.  Theories \<^verbatim>\<open>Dare_Proxy\<close> and \<^verbatim>\<open>Dare_Proxy_Props\<close>.
  \<^item> \<^verbatim>\<open>spec_hooks.cpp\<close>: the functions that stand for those of the C library.  Theory \<^verbatim>\<open>Dare_Hooks\<close>, with the library as
    the record \<open>libc\<close>; \<^verbatim>\<open>Dare_Hooks_Props\<close> brings the hooks into one form and relates them to the plain calls and to the sessions of the proxy.
  \<^item> \<^verbatim>\<open>utils/queue/queue.h\<close>: the tail queue between the proxy and the server, and the list of threads.  Theory \<^verbatim>\<open>Dare_Queue\<close> models the
    macros on a store of pointers; \<^verbatim>\<open>Dare_Queue_Props\<close> shows that the list \<open>tailhead\<close> of the other theories is what the store holds.
  \<^item> \<^verbatim>\<open>dare_ibv.c\<close>, and the set-up and shutdown in \<^verbatim>\<open>dare_ibv_ud.c\<close> and \<^verbatim>\<open>dare_ibv_rc.c\<close>: choosing a device and a port, protection domains, queues,
    queue pairs, registered memory.  Theory \<^verbatim>\<open>Dare_Ibv\<close>, in a state monad over the record \<open>lib\<close>: the device, the endpoints and the list \<open>held\<close> of
    what the program got from the library and has not given back.  \<^verbatim>\<open>Dare_Ibv_Props\<close> has the balance of each step of the set-up
    (what is held is what the pointers of the program refer to), \<^verbatim>\<open>Dare_Ibv_Life\<close> the shutdown.

  \<^bold>\<open>How the parts interact\<close>

  The proxy queues requests (\<open>tailhead\<close>), the polling loop appends them to the log, a leader writes its
  log to the others and counts the bytes by which they confirm an entry, all servers apply what is committed through the callbacks
  of the proxy.  Servers share no state but the memory that is registered for RDMA: a poll of the completion queue
  returns the control data and the log as other servers have left them, so every function that polls
  may see any change of this memory that the hypotheses of a theorem do not exclude.

  \<^bold>\<open>Conventions\<close>

  A function returns an option: \<open>None\<close> means that the call does not return, because the process ends (\<^verbatim>\<open>error_exit\<close>,
  \<^verbatim>\<open>dare_server_shutdown\<close>), because it loops for ever, or because its behaviour is undefined in C.  Return codes and output
  parameters are components of the result.  In \<^verbatim>\<open>Dare_Ibv\<close> undefined behaviour sets the flag \<open>ub\<close> instead.  Machine integers have their widths and wrap around.  Loops over servers
  recurse on the number of servers left; loops that may not end are partial functions.  The only bounds are those of the source: 1000 rounds of
  \<^verbatim>\<open>rc_write_remote_logs\<close>, two rounds of the loop over the two group sizes; and \<open>vb_polls\<close>, the number of completions a queue holds when it
  is emptied before a queue pair is destroyed (none arrive any more in the error state).  Durations are rational numbers in place of \<^verbatim>\<open>double\<close>.

  \<^bold>\<open>What is assumed\<close>

  The verbs library, libev, the allocator, Berkeley DB and the intercepted program are parameters: the fields of \<open>ibv\<close> and the
  arguments of the proxy's functions.  \<open>sid_private\<close> says that no remote server writes the SID, which holds because every posted write addresses
  another field; the other hypotheses (requests come from candidates, terms below the largest one, the
  invariant of the log) are stated in each theorem, and each has an instance on concrete data.

  \<^bold>\<open>What the theorems show\<close>

  \<^item> The log: appending adds exactly one entry with the next index and keeps the others; the walks over the buffer visit
    the entries in order; the offset to resume at is the end of the longest common prefix; the boundary cases in which appending goes wrong.
  \<^item> Replication: what is written to a follower is the missing part of the log; the commit offset
    moves over an entry only if a majority of the servers of the counted group has confirmed it.
  \<^item> Elections: a candidate has the next term; a server votes once per term and only for a log that is as recent as its own; a leader has
    majorities; exclusive access to the log.  The term of a recovered server never falls in any run of the server, and its recovery follows a small state machine.
  \<^item> Operation: committed entries are applied in order and once; pruning keeps what others need; the three steps of an upsize.
  \<^item> State machine and proxy: the key-value store refines a map and replicas agree; the proxy's queue refines
    a list of connection events; stored snapshots are replayed; the waiting loop ends when the entry is committed.
  \<^item> The boundary to the program and the library: the hooks return what the C library returns, the threads of the server pass through them, and on the leader each
    successful call on a socket is queued with the bytes the program got; the queue of pointers refines the queue of requests; a network that was started
    passes every object to its destructor once at the shutdown.
  \<^item> Defects: theorems that exhibit states in which the code does not do what it means to.

  The interfaces are locales: \<open>keyed_store\<close> and \<open>removable_store\<close> (\<^verbatim>\<open>Dare_Prelude\<close>), which the endpoint
  database and the key-value store provide, \<open>fifo\<close> (\<^verbatim>\<open>Dare_Queue_Props\<close>), which the tail queue provides to the two critical sections, and \<open>rc_frame\<close> (\<^verbatim>\<open>Dare_Frame\<close>), which states what the communication layer cannot change.  \<^verbatim>\<open>Dare_Calm\<close>,
  \<^verbatim>\<open>Dare_Calm_Server\<close> and \<^verbatim>\<open>Dare_Run\<close> extend the latter to all functions by weakest preconditions.  \<^verbatim>\<open>Dare_Demo\<close> has the concrete data of the instances.

  \<^bold>\<open>Not modelled\<close>

  The LogGP benchmarks, printing, logging and timing macros, and the functions of \<^verbatim>\<open>dare_ibv.c\<close> that only forward a call.
  Berkeley DB (a map from record numbers to records).  The queue macros that the program never uses (singly linked, simple and circular queues), the functions
  of the red-black tree for augmented nodes, and the parts of uthash the program does not call.  Releasing the memory of the server's own
  data at shutdown.
  The threads of the proxy are modelled by their critical sections: the spin lock of the queue is held throughout
  each of them.
\<close>

end
